theory Spec2Isabelle
  imports Complex_Main "HOL-Library.Multiset" "HOL-Library.Product_Lexorder"
    "HOL-Library.Monad_Syntax"
begin

section \<open>Text, exceptions and results\<close>

text \<open>
  A Python \<open>str\<close> is a sequence of Unicode code points, so text is a list of naturals.
  The characters the lexer and the regular expressions name are given by their code point.
\<close>

type_synonym ustr = "nat list"

definition str :: "string \<Rightarrow> ustr" where
  "str s = map of_char s"

abbreviation (input) TAB :: nat where "TAB \<equiv> 9"
abbreviation (input) NEWLINE :: nat where "NEWLINE \<equiv> 10"
abbreviation (input) SPACE :: nat where "SPACE \<equiv> 32"
abbreviation (input) QUOTE :: nat where "QUOTE \<equiv> 34"
abbreviation (input) HASH :: nat where "HASH \<equiv> 35"
abbreviation (input) PLUS :: nat where "PLUS \<equiv> 43"
abbreviation (input) MINUS :: nat where "MINUS \<equiv> 45"
abbreviation (input) DOT :: nat where "DOT \<equiv> 46"
abbreviation (input) COLON :: nat where "COLON \<equiv> 58"
abbreviation (input) BACKSLASH :: nat where "BACKSLASH \<equiv> 92"
abbreviation (input) UNDERSCORE :: nat where "UNDERSCORE \<equiv> 95"
abbreviation (input) REPLACEMENT :: nat where "REPLACEMENT \<equiv> 65533"

text \<open>\<open>str.isspace\<close> for one character; it is also what \<open>\s\<close> matches and what
  \<open>str.rstrip()\<close> and \<open>int()\<close> strip.\<close>

definition isspace :: "nat \<Rightarrow> bool" where
  "isspace c \<longleftrightarrow>
     (9 \<le> c \<and> c \<le> 13) \<or> (28 \<le> c \<and> c \<le> 32) \<or> c = 133 \<or> c = 160 \<or> c = 5760 \<or>
     (8192 \<le> c \<and> c \<le> 8202) \<or> c = 8232 \<or> c = 8233 \<or> c = 8239 \<or> c = 8287 \<or> c = 12288"

definition rstrip :: "ustr \<Rightarrow> ustr" where
  "rstrip s = rev (dropWhile isspace (rev s))"

definition is_digit :: "nat \<Rightarrow> bool" where
  "is_digit c \<longleftrightarrow> 48 \<le> c \<and> c \<le> 57"

definition is_hex_digit :: "nat \<Rightarrow> bool" where
  "is_hex_digit c \<longleftrightarrow> is_digit c \<or> (65 \<le> c \<and> c \<le> 70) \<or> (97 \<le> c \<and> c \<le> 102)"

definition hex_digit_value :: "nat \<Rightarrow> nat" where
  "hex_digit_value c = (if is_digit c then c - 48 else if c \<le> 70 then c - 55 else c - 87)"

definition nat_of_digits :: "ustr \<Rightarrow> nat" where
  "nat_of_digits ds = foldl (\<lambda>a d. 10 * a + (d - 48)) 0 ds"

definition nat_of_hex_digits :: "ustr \<Rightarrow> nat" where
  "nat_of_hex_digits ds = foldl (\<lambda>a d. 16 * a + hex_digit_value d) 0 ds"

text \<open>The exceptions that occur: \<open>ParsingError\<close> is the repository's own, the others are
  Python's. \<open>UnicodeEncodeError\<close> is a \<open>ValueError\<close>.\<close>

datatype exn =
  ParsingError | StopIteration | TypeError | ValueError | IndexError | AttributeError
  | RuntimeError

text \<open>A method either returns a value or raises; in both cases the object it mutated is
  left in its new state.\<close>

datatype ('a, 's) res = Ok 'a 's | Raise exn 's

text \<open>\<open>int(s)\<close> for a text \<open>s\<close> of the shape \<open>[+-]?[0-9]+\<close>: CPython refuses more than
  4300 digits with a \<open>ValueError\<close> (its default limit, leading zeros counted).\<close>

definition int_max_str_digits :: nat where
  "int_max_str_digits = 4300"

definition py_int :: "ustr \<Rightarrow> int option" where
  "py_int s =
     (let neg = (s \<noteq> [] \<and> hd s = MINUS);
          ds = (if s \<noteq> [] \<and> (hd s = PLUS \<or> hd s = MINUS) then tl s else s)
      in if ds = [] \<or> \<not> list_all is_digit ds \<or> int_max_str_digits < length ds then None
         else Some (if neg then - int (nat_of_digits ds) else int (nat_of_digits ds)))"

text \<open>\<open>int(s, 16)\<close>: surrounding whitespace, a sign, a \<open>0x\<close> prefix and single underscores
  between digits are accepted. The decimal digits of other scripts, which \<open>int\<close> accepts
  as well, count as invalid here.\<close>

fun no_double_underscore :: "ustr \<Rightarrow> bool" where
  "no_double_underscore (a # b # cs) =
     (\<not> (a = UNDERSCORE \<and> b = UNDERSCORE) \<and> no_double_underscore (b # cs))"
| "no_double_underscore cs = True"

definition py_int16 :: "ustr \<Rightarrow> int option" where
  "py_int16 s =
     (let s1 = dropWhile isspace s;
          neg = (s1 \<noteq> [] \<and> hd s1 = MINUS);
          s2 = (if s1 \<noteq> [] \<and> (hd s1 = PLUS \<or> hd s1 = MINUS) then tl s1 else s1);
          s3 = (if 2 \<le> length s2 \<and> s2 ! 0 = 48 \<and> (s2 ! 1 = 120 \<or> s2 ! 1 = 88)
                then (if 3 \<le> length s2 \<and> s2 ! 2 = UNDERSCORE then drop 3 s2 else drop 2 s2)
                else s2);
          ds = takeWhile (\<lambda>c. is_hex_digit c \<or> c = UNDERSCORE) s3;
          rest = dropWhile (\<lambda>c. is_hex_digit c \<or> c = UNDERSCORE) s3
      in if ds = [] \<or> hd ds = UNDERSCORE \<or> last ds = UNDERSCORE \<or> \<not> no_double_underscore ds
            \<or> \<not> list_all isspace rest
         then None
         else let v = int (nat_of_hex_digits (filter (\<lambda>c. c \<noteq> UNDERSCORE) ds))
              in Some (if neg then - v else v))"

section \<open>tokenizer.py\<close>

datatype MessageLevel = INFO | WARN | ERROR

text \<open>A message is an f-string: literal pieces and interpolated values. \<open>Str\<close> is a text
  interpolated as it is, \<open>Repr\<close> a text interpolated with \<open>!r\<close>, \<open>Num\<close> an integer,
  \<open>Tup\<close> a pair of integers, and \<open>[PyNone]\<close> is the message \<open>None\<close>.\<close>

datatype frag = Lit string | Str ustr | Repr ustr | Num int | Tup int int | PyNone

record ParsingMessage =
  msg_line :: nat
  msg_pos :: nat
  level :: MessageLevel
  message :: "frag list"

datatype TokenKind =
  NAME | BOOLEAN | STRING | NUMBER | START_OBJECT | END_OBJECT | START_ARRAY | END_ARRAY
  | START_UNITS | END_UNITS | EQUALS | BAR

text \<open>A token's value: \<open>str | bool | int | float | None\<close>. A float is kept as the exact
  rational value of the literal it was read from; the comparisons made on it below account
  for the rounding to the nearest double.\<close>

datatype TokenValue = VNone | VStr ustr | VBool bool | VInt int | VFloat rat

record Token =
  kind :: TokenKind
  tline :: nat
  tpos :: nat
  tvalue :: TokenValue

text \<open>The file \<open>f\<close> is the list of lines that \<open>readline\<close> will return, in order; at the
  end of the file \<open>readline\<close> returns the empty text.\<close>

record Tokenizer =
  f_lines :: "ustr list"
  line :: ustr
  pos :: nat
  line_number :: nat
  messages :: "ParsingMessage list"

definition Tokenizer_init :: "ustr list \<Rightarrow> Tokenizer" where
  "Tokenizer_init file =
     \<lparr>f_lines = file, line = [], pos = 0, line_number = 0, messages = []\<rparr>"

definition Tokenizer_warn :: "frag list \<Rightarrow> Tokenizer \<Rightarrow> Tokenizer" where
  "Tokenizer_warn msg tz =
     tz\<lparr>messages := messages tz @
          [\<lparr>msg_line = line_number tz, msg_pos = pos tz, level = WARN, message = msg\<rparr>]\<rparr>"

definition Tokenizer_error :: "frag list \<Rightarrow> Tokenizer \<Rightarrow> ('a, Tokenizer) res" where
  "Tokenizer_error msg tz =
     Raise ParsingError
       (tz\<lparr>messages := messages tz @
          [\<lparr>msg_line = line_number tz, msg_pos = pos tz, level = ERROR, message = msg\<rparr>]\<rparr>)"

definition read_line :: "Tokenizer \<Rightarrow> (unit, Tokenizer) res" where
  "read_line tz =
     (case f_lines tz of
        [] \<Rightarrow> Raise StopIteration (tz\<lparr>line := []\<rparr>)
      | l # ls \<Rightarrow>
          if l = [] then Raise StopIteration (tz\<lparr>f_lines := ls, line := []\<rparr>)
          else Ok () (tz\<lparr>f_lines := ls, line := rstrip l, pos := 0,
                         line_number := line_number tz + 1\<rparr>))"

text \<open>\<open>_parse_escape\<close> returns a one-character text, or \<open>None\<close>: the \<open>u\<close> case computes
  a value and falls off the end of the function, the last case returns \<open>None\<close>.\<close>

definition parse_escape :: "Tokenizer \<Rightarrow> (ustr option, Tokenizer) res" where
  "parse_escape tz =
     (if pos tz = length (line tz) then Tokenizer_error [Lit ''Unterminated escape sequence''] tz
      else if length (line tz) < pos tz then Raise IndexError tz
      else
        let c = line tz ! pos tz; tz1 = tz\<lparr>pos := pos tz + 1\<rparr> in
        if c = QUOTE \<or> c = BACKSLASH then Ok (Some [c]) tz1
        else if c = 110 then Ok (Some [NEWLINE]) tz1
        else if c = 117 then
          (let start_pos = pos tz1; tz2 = tz1\<lparr>pos := pos tz1 + 4\<rparr> in
           if length (line tz2) \<le> pos tz2
           then Tokenizer_error [Lit ''Unterminated Unicode escape''] tz2
           else
             (case py_int16 (take 4 (drop start_pos (line tz2))) of
                None \<Rightarrow> Raise ValueError tz2
              | Some v \<Rightarrow>
                  if v < 0 then Raise ValueError tz2
                  else if 55296 \<le> v \<and> v \<le> 57343 then Raise ValueError tz2
                  else Ok None tz2))
        else Ok None tz1)"

text \<open>The loop of \<open>_read_string\<close>; \<open>line_number0\<close> and \<open>pos0\<close> are where the literal
  began, \<open>output\<close> is what has been written to the \<open>StringIO\<close>. Writing \<open>None\<close> to a
  \<open>StringIO\<close> raises \<open>TypeError\<close>.\<close>

function read_string_loop ::
  "nat \<Rightarrow> nat \<Rightarrow> ustr \<Rightarrow> Tokenizer \<Rightarrow> (Token, Tokenizer) res" where
  "read_string_loop line_number0 pos0 output tz =
     (if pos tz = length (line tz) then
        (case read_line tz of
           Raise e tz' \<Rightarrow>
             if e = StopIteration then Tokenizer_error [Lit ''Unterminated string''] tz'
             else Raise e tz'
         | Ok u tz' \<Rightarrow> read_string_loop line_number0 pos0 output tz')
      else if length (line tz) < pos tz then Raise IndexError tz
      else if line tz ! pos tz = QUOTE then
        Ok \<lparr>kind = STRING, tline = line_number0, tpos = pos0, tvalue = VStr output\<rparr>
           (tz\<lparr>pos := pos tz + 1\<rparr>)
      else if line tz ! pos tz = BACKSLASH then
        (case parse_escape (tz\<lparr>pos := pos tz + 1\<rparr>) of
           Raise e tz' \<Rightarrow> Raise e tz'
         | Ok None tz' \<Rightarrow> Raise TypeError tz'
         | Ok (Some c) tz' \<Rightarrow>
             read_string_loop line_number0 pos0 (output @ c)
               (if c = [REPLACEMENT]
                then Tokenizer_warn [Lit ''Invalid UTF-8 in string literal''] tz' else tz'))
      else
        read_string_loop line_number0 pos0 (output @ [line tz ! pos tz])
          (if line tz ! pos tz = REPLACEMENT
           then Tokenizer_warn [Lit ''Invalid UTF-8 in string literal''] (tz\<lparr>pos := pos tz + 1\<rparr>)
           else tz\<lparr>pos := pos tz + 1\<rparr>))"
  by pat_completeness auto
termination
proof (relation "measures [\<lambda>(l, p, out, tz). length (f_lines tz),
                           \<lambda>(l, p, out, tz). length (line tz) - pos tz]", goal_cases)
  case 1
  show ?case by simp
next
  case (2 l p out tz u tz')
  then show ?case by (auto simp: read_line_def split: list.splits if_splits)
next
  case (3 l p out tz x1 tz' c)
  then have "tz' = tz\<lparr>pos := pos tz + 2\<rparr> \<and> pos tz + 1 < length (line tz)"
    by (auto simp: parse_escape_def Tokenizer_error_def Let_def
        split: if_splits option.splits)
  with 3 show ?case
    by (auto simp: Tokenizer_warn_def)
next
  case (4 l p out tz)
  then show ?case by (auto simp: Tokenizer_warn_def)
qed

declare read_string_loop.simps [simp del]

definition read_string :: "Tokenizer \<Rightarrow> (Token, Tokenizer) res" where
  "read_string tz = read_string_loop (line_number tz) (pos tz) [] (tz\<lparr>pos := pos tz + 1\<rparr>)"

text \<open>\<open>_NAME_REGEX.match(line, pos)\<close>: the matched text, if any.\<close>

definition name_start :: "nat \<Rightarrow> bool" where
  "name_start c \<longleftrightarrow> (65 \<le> c \<and> c \<le> 90) \<or> (97 \<le> c \<and> c \<le> 122) \<or> c = UNDERSCORE"

definition name_char :: "nat \<Rightarrow> bool" where
  "name_char c \<longleftrightarrow> is_digit c \<or> name_start c"

definition NAME_REGEX_match :: "ustr \<Rightarrow> nat \<Rightarrow> ustr option" where
  "NAME_REGEX_match l p =
     (case drop p l of
        [] \<Rightarrow> None
      | c # cs \<Rightarrow> if name_start c then Some (c # takeWhile name_char cs) else None)"

text \<open>\<open>_NUMBER_REGEX.match(line, pos)\<close>: an optional sign, then digits with an optional
  fraction or a dot with digits, then an optional exponent. Every part after the mantissa
  is optional, so the greedy choice is the match.\<close>

definition exponent_length :: "ustr \<Rightarrow> nat" where
  "exponent_length s =
     (case s of
        [] \<Rightarrow> 0
      | c # cs \<Rightarrow>
          if c = 69 \<or> c = 101 then
            (let sg = (if cs \<noteq> [] \<and> (hd cs = PLUS \<or> hd cs = MINUS) then 1 else 0);
                 ds = takeWhile is_digit (drop sg cs)
             in if ds = [] then 0 else 1 + sg + length ds)
          else 0)"

definition mantissa_length :: "ustr \<Rightarrow> nat option" where
  "mantissa_length s =
     (let ds = takeWhile is_digit s; r = drop (length ds) s in
      if ds \<noteq> [] then
        (if r \<noteq> [] \<and> hd r = DOT then Some (length ds + 1 + length (takeWhile is_digit (tl r)))
         else Some (length ds))
      else if r \<noteq> [] \<and> hd r = DOT \<and> takeWhile is_digit (tl r) \<noteq> []
      then Some (1 + length (takeWhile is_digit (tl r)))
      else None)"

definition NUMBER_REGEX_match :: "ustr \<Rightarrow> nat \<Rightarrow> ustr option" where
  "NUMBER_REGEX_match l p =
     (let s = drop p l;
          sg = (if s \<noteq> [] \<and> (hd s = PLUS \<or> hd s = MINUS) then 1 else 0)
      in case mantissa_length (drop sg s) of
           None \<Rightarrow> None
         | Some m \<Rightarrow> Some (take (sg + m + exponent_length (drop (sg + m) s)) s))"

text \<open>The exact value of a text matched by \<open>_NUMBER_REGEX\<close>, which \<open>float\<close> rounds.\<close>

definition signed_digits :: "ustr \<Rightarrow> int" where
  "signed_digits s =
     (if s \<noteq> [] \<and> hd s = MINUS then - int (nat_of_digits (tl s))
      else if s \<noteq> [] \<and> hd s = PLUS then int (nat_of_digits (tl s))
      else int (nat_of_digits s))"

definition decimal_value :: "ustr \<Rightarrow> rat" where
  "decimal_value s =
     (let neg = (s \<noteq> [] \<and> hd s = MINUS);
          s1 = (if s \<noteq> [] \<and> (hd s = PLUS \<or> hd s = MINUS) then tl s else s);
          mant = takeWhile (\<lambda>c. c \<noteq> 69 \<and> c \<noteq> 101) s1;
          ex = drop (length mant + 1) s1;
          ip = takeWhile is_digit mant;
          fp = drop (length ip + 1) mant;
          v = of_nat (nat_of_digits (ip @ fp)) * 10 powi (signed_digits ex - int (length fp))
      in if neg then - v else v)"

text \<open>\<open>int(m.group())\<close>, and \<open>float(m.group())\<close> when that raises \<open>ValueError\<close>.\<close>

definition number_value :: "ustr \<Rightarrow> TokenValue" where
  "number_value s = (case py_int s of Some i \<Rightarrow> VInt i | None \<Rightarrow> VFloat (decimal_value s))"

definition single_char_kind :: "nat \<Rightarrow> TokenKind option" where
  "single_char_kind c =
     (if c = 123 then Some START_OBJECT
      else if c = 125 then Some END_OBJECT
      else if c = 91 then Some START_ARRAY
      else if c = 93 then Some END_ARRAY
      else if c = 60 then Some START_UNITS
      else if c = 62 then Some END_UNITS
      else if c = 61 then Some EQUALS
      else if c = 124 then Some BAR
      else None)"

text \<open>The body of the \<open>try\<close> in \<open>__next__\<close>: the outer loop with the inner loop that reads
  lines. Indexing the line beyond its end raises \<open>IndexError\<close>.\<close>

function next_loop :: "Tokenizer \<Rightarrow> (Token, Tokenizer) res" where
  "next_loop tz =
     (if pos tz = length (line tz) then
        (case read_line tz of
           Raise e tz' \<Rightarrow> Raise e tz'
         | Ok u tz' \<Rightarrow> next_loop tz')
      else if length (line tz) < pos tz then Raise IndexError tz
      else if line tz ! pos tz = TAB \<or> line tz ! pos tz = SPACE then
        next_loop (tz\<lparr>pos := pos tz + 1\<rparr>)
      else if line tz ! pos tz = HASH then next_loop (tz\<lparr>pos := length (line tz)\<rparr>)
      else if line tz ! pos tz = QUOTE then read_string tz
      else
        (case single_char_kind (line tz ! pos tz) of
           Some k \<Rightarrow>
             Ok \<lparr>kind = k, tline = line_number tz, tpos = pos tz, tvalue = VNone\<rparr>
                (tz\<lparr>pos := pos tz + 1\<rparr>)
         | None \<Rightarrow>
             (case NAME_REGEX_match (line tz) (pos tz) of
                Some name \<Rightarrow>
                  Ok \<lparr>kind = (if name = str ''false'' \<or> name = str ''true'' then BOOLEAN else NAME),
                      tline = line_number tz, tpos = pos tz,
                      tvalue = (if name = str ''false'' then VBool False
                                else if name = str ''true'' then VBool True
                                else VStr name)\<rparr>
                     (tz\<lparr>pos := pos tz + length name\<rparr>)
              | None \<Rightarrow>
                  (case NUMBER_REGEX_match (line tz) (pos tz) of
                     Some num \<Rightarrow>
                       Ok \<lparr>kind = NUMBER, tline = line_number tz, tpos = pos tz,
                           tvalue = number_value num\<rparr>
                          (tz\<lparr>pos := pos tz + length num\<rparr>)
                   | None \<Rightarrow>
                       next_loop
                         ((Tokenizer_warn
                             [Lit ''Unexpected character '', Repr [line tz ! pos tz],
                              Lit '' in file''] tz)\<lparr>pos := pos tz + 1\<rparr>)))))"
  by pat_completeness auto
termination
proof (relation "measures [\<lambda>tz. length (f_lines tz), \<lambda>tz. length (line tz) - pos tz]",
    goal_cases)
  case 1
  show ?case by simp
next
  case (2 tz u tz')
  then show ?case by (auto simp: read_line_def split: list.splits if_splits)
next
  case (3 tz)
  then show ?case by auto
next
  case (4 tz)
  then show ?case by auto
next
  case (5 tz)
  then show ?case by (auto simp: Tokenizer_warn_def)
qed

declare next_loop.simps [simp del]

text \<open>\<open>__next__\<close>: a \<open>ParsingError\<close> raised while lexing is turned into
  \<open>StopIteration\<close>; every other exception passes through.\<close>

definition Tokenizer_next :: "Tokenizer \<Rightarrow> (Token, Tokenizer) res" where
  "Tokenizer_next tz =
     (case next_loop tz of
        Raise e tz' \<Rightarrow> if e = ParsingError then Raise StopIteration tz' else Raise e tz'
      | Ok token tz' \<Rightarrow> Ok token tz')"

section \<open>parser.py: tables and the date validator\<close>

datatype DataType =
  DT_BOOLEAN | DT_NUMBER | DT_VECTOR | DT_QUATERNION | DT_STRING | DT_OBJECT | DT_DATE
  | DT_NUMBER_OR_STRING | DT_STRING_LIST | DT_OBJECT_LIST | DT_VECTOR_OR_OBJECT | DT_COLOR

datatype UnitsType = LENGTH | TIME | ANGLE | MASS | SPHERICAL

definition UNIT_TYPES :: "ustr \<Rightarrow> UnitsType option" where
  "UNIT_TYPES =
     map_of
       [(str ''km'', LENGTH), (str ''m'', LENGTH), (str ''rE'', LENGTH), (str ''rS'', LENGTH),
        (str ''au'', LENGTH), (str ''AU'', LENGTH), (str ''ly'', LENGTH), (str ''pc'', LENGTH),
        (str ''kpc'', LENGTH), (str ''Mpc'', LENGTH),
        (str ''s'', TIME), (str ''min'', TIME), (str ''h'', TIME), (str ''d'', TIME),
        (str ''y'', TIME),
        (str ''mas'', ANGLE), (str ''arcsec'', ANGLE), (str ''arcmin'', ANGLE),
        (str ''deg'', ANGLE), (str ''hRA'', ANGLE), (str ''rad'', ANGLE),
        (str ''kg'', MASS), (str ''mE'', MASS), (str ''mJ'', MASS)]"

definition X11_COLOR_NAMES :: "string list" where
  "X11_COLOR_NAMES =
   [
    ''aliceblue'', ''antiquewhite'', ''aqua'', ''aquamarine'', ''azure'', ''beige'',
    ''bisque'', ''black'', ''blanchedalmond'', ''blue'', ''blueviolet'', ''brown'',
    ''burlywood'', ''cadetblue'', ''chartreuse'', ''chocolate'', ''coral'',
    ''cornflowerblue'', ''cornsilk'', ''crimson'', ''cyan'', ''darkblue'', ''darkcyan'',
    ''darkgoldenrod'', ''darkgray'', ''darkgreen'', ''darkkhaki'', ''darkmagenta'',
    ''darkolivegreen'', ''darkorange'', ''darkorchid'', ''darkred'', ''darksalmon'',
    ''darkseagreen'', ''darkslateblue'', ''darkslategray'', ''darkturquoise'',
    ''darkviolet'', ''deeppink'', ''deepskyblue'', ''dimgray'', ''dodgerblue'',
    ''firebrick'', ''floralwhite'', ''forestgreen'', ''fuchsia'', ''gainsboro'',
    ''ghostwhite'', ''gold'', ''goldenrod'', ''gray'', ''green'', ''greenyellow'',
    ''honeydew'', ''hotpink'', ''indianred'', ''indigo'', ''ivory'', ''khaki'',
    ''lavender'', ''lavenderblush'', ''lawngreen'', ''lemonchiffon'', ''lightblue'',
    ''lightcoral'', ''lightcyan'', ''lightgoldenrodyellow'', ''lightgreen'', ''lightgrey'',
    ''lightpink'', ''lightsalmon'', ''lightseagreen'', ''lightskyblue'',
    ''lightslategray'', ''lightsteelblue'', ''lightyellow'', ''lime'', ''limegreen'',
    ''linen'', ''magenta'', ''maroon'', ''mediumaquamarine'', ''mediumblue'',
    ''mediumorchid'', ''mediumpurple'', ''mediumseagreen'', ''mediumslateblue'',
    ''mediumspringgreen'', ''mediumturquoise'', ''mediumvioletred'', ''midnightblue'',
    ''mintcream'', ''mistyrose'', ''moccasin'', ''navajowhite'', ''navy'', ''oldlace'',
    ''olive'', ''olivedrab'', ''orange'', ''orangered'', ''orchid'', ''palegoldenrod'',
    ''palegreen'', ''paleturquoise'', ''palevioletred'', ''papayawhip'', ''peachpuff'',
    ''peru'', ''pink'', ''plum'', ''powderblue'', ''purple'', ''red'', ''rosybrown'',
    ''royalblue'', ''saddlebrown'', ''salmon'', ''sandybrown'', ''seagreen'', ''seashell'',
    ''sienna'', ''silver'', ''skyblue'', ''slateblue'', ''slategray'', ''snow'',
    ''springgreen'', ''steelblue'', ''tan'', ''teal'', ''thistle'', ''tomato'',
    ''turquoise'', ''violet'', ''wheat'', ''white'', ''whitesmoke'', ''yellow'',
    ''yellowgreen'']"

definition X11_COLORS :: "ustr set" where
  "X11_COLORS = set (map str X11_COLOR_NAMES)"

text \<open>\<open>_COLOR_REGEX.match(s)\<close> for \<open>^#[0-9a-fA-F]{3,8}$\<close>. Without \<open>re.MULTILINE\<close>,
  \<open>$\<close> matches at the end of the text and also just before a newline that ends it.\<close>

definition at_dollar :: "ustr \<Rightarrow> bool" where
  "at_dollar s \<longleftrightarrow> s = [] \<or> s = [NEWLINE]"

definition COLOR_REGEX_match :: "ustr \<Rightarrow> bool" where
  "COLOR_REGEX_match s =
     (case s of
        [] \<Rightarrow> False
      | c # cs \<Rightarrow>
          c = HASH \<and> 3 \<le> length (takeWhile is_hex_digit cs)
          \<and> length (takeWhile is_hex_digit cs) \<le> 8
          \<and> at_dollar (dropWhile is_hex_digit cs))"

datatype Disposition = ADD | MODIFY | REPLACE

type_synonym PropertyDef = "DataType \<times> UnitsType option"

text \<open>The groups of a match of one of the two date expressions; \<open>None\<close> is a group that
  did not take part in the match.\<close>

record date_match =
  year :: ustr
  month :: ustr
  day :: ustr
  hour :: "ustr option"
  minute :: "ustr option"
  second :: "ustr option"

text \<open>Pieces of the two expressions. Each takes a prefix of the text and returns it with
  the rest. In both expressions every repetition is followed by something that its own
  characters cannot begin, so the longest repetition is the only one that can match.\<close>

definition digits_run :: "nat \<Rightarrow> nat \<Rightarrow> ustr \<Rightarrow> (ustr \<times> ustr) option" where
  "digits_run lo hi s =
     (let ds = takeWhile is_digit s in
      if lo \<le> length ds \<and> length ds \<le> hi then Some (ds, drop (length ds) s) else None)"

definition year_run :: "ustr \<Rightarrow> (ustr \<times> ustr) option" where
  "year_run s =
     (let sg = (if s \<noteq> [] \<and> (hd s = PLUS \<or> hd s = MINUS) then 1 else 0);
          ds = takeWhile is_digit (drop sg s)
      in if ds = [] then None else Some (take (sg + length ds) s, drop (sg + length ds) s))"

definition lit :: "nat \<Rightarrow> ustr \<Rightarrow> ustr option" where
  "lit c s = (if s \<noteq> [] \<and> hd s = c then Some (tl s) else None)"

definition spaces1 :: "ustr \<Rightarrow> ustr option" where
  "spaces1 s = (if s \<noteq> [] \<and> isspace (hd s) then Some (dropWhile isspace s) else None)"

text \<open>\<open>[0-9]{lo,hi}(?:\.[0-9]+)?\<close>\<close>

definition seconds_run :: "nat \<Rightarrow> nat \<Rightarrow> ustr \<Rightarrow> (ustr \<times> ustr) option" where
  "seconds_run lo hi s =
     (case digits_run lo hi s of
        None \<Rightarrow> None
      | Some (ds, r) \<Rightarrow>
          if r \<noteq> [] \<and> hd r = DOT \<and> takeWhile is_digit (tl r) \<noteq> []
          then Some (ds @ [DOT] @ takeWhile is_digit (tl r), dropWhile is_digit (tl r))
          else Some (ds, r))"

definition ISO_DATE_REGEX_match :: "ustr \<Rightarrow> date_match option" where
  "ISO_DATE_REGEX_match s =
     do {
       (y, s1) \<leftarrow> year_run s;
       s2 \<leftarrow> lit MINUS s1;
       (mo, s3) \<leftarrow> digits_run 2 2 s2;
       s4 \<leftarrow> lit MINUS s3;
       (d, s5) \<leftarrow> digits_run 2 2 s4;
       s6 \<leftarrow> lit 84 s5;
       (h, s7) \<leftarrow> digits_run 2 2 s6;
       s8 \<leftarrow> lit COLON s7;
       (mi, s9) \<leftarrow> digits_run 2 2 s8;
       s10 \<leftarrow> lit COLON s9;
       (sec, s11) \<leftarrow> seconds_run 2 2 s10;
       if at_dollar s11
       then Some \<lparr>year = y, month = mo, day = d, hour = Some h, minute = Some mi,
                  second = Some sec\<rparr>
       else None
     }"

text \<open>The optional seconds and the optional time of day of \<open>_NORMAL_REGEX\<close>. An optional
  group that cannot match is skipped, and the text has to go on after it as if it were
  not there.\<close>

definition opt_seconds_run :: "ustr \<Rightarrow> ustr option \<times> ustr" where
  "opt_seconds_run s =
     (case do { s1 \<leftarrow> lit COLON s; seconds_run 1 2 s1 } of
        Some (sec, r) \<Rightarrow> (Some sec, r)
      | None \<Rightarrow> (None, s))"

definition time_run :: "ustr \<Rightarrow> (ustr \<times> ustr \<times> ustr option) option" where
  "time_run s =
     do {
       s1 \<leftarrow> spaces1 s;
       (h, s2) \<leftarrow> digits_run 1 2 s1;
       s3 \<leftarrow> lit COLON s2;
       (mi, s4) \<leftarrow> digits_run 1 2 s3;
       (sec, s5) \<leftarrow> Some (opt_seconds_run s4);
       if list_all isspace s5 then Some (h, mi, sec) else None
     }"

definition NORMAL_REGEX_match :: "ustr \<Rightarrow> date_match option" where
  "NORMAL_REGEX_match s =
     do {
       (y, s1) \<leftarrow> year_run (dropWhile isspace s);
       s2 \<leftarrow> spaces1 s1;
       (mo, s3) \<leftarrow> digits_run 1 2 s2;
       s4 \<leftarrow> spaces1 s3;
       (d, s5) \<leftarrow> digits_run 1 2 s4;
       (case time_run s5 of
          Some (h, mi, sec) \<Rightarrow>
            Some \<lparr>year = y, month = mo, day = d, hour = Some h, minute = Some mi,
                  second = sec\<rparr>
        | None \<Rightarrow>
            if list_all isspace s5
            then Some \<lparr>year = y, month = mo, day = d, hour = None, minute = None,
                       second = None\<rparr>
            else None)
     }"

text \<open>\<open>float(s) >= 60\<close> for a text \<open>s\<close> of digits with an optional fraction: the
  doubles next to 60 are \<open>2^-47\<close> apart and 60 has an even mantissa, so the texts that
  round to 60 or more are those of value at least \<open>60 - 2^-48\<close>.\<close>

definition float_ge_60 :: "ustr \<Rightarrow> bool" where
  "float_ge_60 s \<longleftrightarrow> 60 - 1 / 2 ^ 48 \<le> decimal_value s"

definition month_days :: "int \<Rightarrow> int \<Rightarrow> int" where
  "month_days y mo =
     (if mo = 2 then
        (if y mod 4 = 0 \<and> (y \<le> 1582 \<or> (y mod 100 \<noteq> 0 \<or> y mod 400 = 0)) then 29 else 28)
      else if mo = 4 \<or> mo = 6 \<or> mo = 9 \<or> mo = 11 then 30
      else 31)"

text \<open>The \<open>try\<close> block of \<open>_check_date_string\<close>, one definition for each value it
  converts, in the order of the source; a \<open>ValueError\<close> of \<open>int\<close> gives \<open>False\<close>.\<close>

definition check_seconds :: "date_match \<Rightarrow> bool" where
  "check_seconds m = (case second m of None \<Rightarrow> True | Some sec \<Rightarrow> \<not> float_ge_60 sec)"

definition check_minute :: "date_match \<Rightarrow> bool" where
  "check_minute m =
     (case Option.bind (minute m) py_int of
        None \<Rightarrow> False
      | Some mv \<Rightarrow> if mv < 0 \<or> 60 \<le> mv then False else check_seconds m)"

definition check_time_of_day :: "date_match \<Rightarrow> bool" where
  "check_time_of_day m =
     (case hour m of
        None \<Rightarrow> True
      | Some h \<Rightarrow>
          (case py_int h of
             None \<Rightarrow> False
           | Some hv \<Rightarrow> if hv < 0 \<or> 24 \<le> hv then False else check_minute m))"

definition check_day :: "int \<Rightarrow> int \<Rightarrow> date_match \<Rightarrow> bool" where
  "check_day y mo m =
     (case py_int (day m) of
        None \<Rightarrow> False
      | Some d \<Rightarrow>
          if d < 1 then False
          else if month_days y mo < d then False
          else check_time_of_day m)"

definition check_month :: "int \<Rightarrow> date_match \<Rightarrow> bool" where
  "check_month y m =
     (case py_int (month m) of
        None \<Rightarrow> False
      | Some mo \<Rightarrow> if mo < 1 \<or> 12 < mo then False else check_day y mo m)"

definition check_date_match :: "date_match \<Rightarrow> bool" where
  "check_date_match m =
     (case py_int (year m) of None \<Rightarrow> False | Some y \<Rightarrow> check_month y m)"

text \<open>The match that \<open>_check_date_string\<close> keeps: that of \<open>_ISO_DATE_REGEX\<close>, or else
  that of \<open>_NORMAL_REGEX\<close>.\<close>

definition date_groups :: "ustr \<Rightarrow> date_match option" where
  "date_groups date_str =
     (case ISO_DATE_REGEX_match date_str of
        Some m \<Rightarrow> Some m
      | None \<Rightarrow> NORMAL_REGEX_match date_str)"

definition check_date_string :: "ustr \<Rightarrow> bool" where
  "check_date_string date_str =
     (case date_groups date_str of None \<Rightarrow> False | Some m \<Rightarrow> check_date_match m)"

section \<open>parser.py: the engine\<close>

record TokenFileParser =
  tokenizer :: Tokenizer
  p_messages :: "ParsingMessage list"
  saved_token :: "Token option"

definition TokenFileParser_init :: "ustr list \<Rightarrow> TokenFileParser" where
  "TokenFileParser_init file =
     \<lparr>tokenizer = Tokenizer_init file, p_messages = [], saved_token = None\<rparr>"

text \<open>The \<open>messages\<close> property: \<open>list.sort\<close> is stable, as \<open>sort_key\<close> is.\<close>

definition TokenFileParser_messages :: "TokenFileParser \<Rightarrow> ParsingMessage list" where
  "TokenFileParser_messages p =
     sort_key (\<lambda>m. (msg_line m, msg_pos m)) (messages (tokenizer p) @ p_messages p)"

definition emit :: "ParsingMessage list \<Rightarrow> TokenFileParser \<Rightarrow> TokenFileParser" where
  "emit ms p = p\<lparr>p_messages := p_messages p @ ms\<rparr>"

definition parser_error :: "nat \<Rightarrow> nat \<Rightarrow> frag list \<Rightarrow> TokenFileParser \<Rightarrow> ('a, TokenFileParser) res"
  where
  "parser_error l c msg p =
     Raise ParsingError (emit [\<lparr>msg_line = l, msg_pos = c, level = ERROR, message = msg\<rparr>] p)"

definition parser_warn :: "nat \<Rightarrow> nat \<Rightarrow> frag list \<Rightarrow> TokenFileParser \<Rightarrow> TokenFileParser" where
  "parser_warn l c msg p = emit [\<lparr>msg_line = l, msg_pos = c, level = WARN, message = msg\<rparr>] p"

definition parser_info :: "nat \<Rightarrow> nat \<Rightarrow> frag list \<Rightarrow> TokenFileParser \<Rightarrow> TokenFileParser" where
  "parser_info l c msg p = emit [\<lparr>msg_line = l, msg_pos = c, level = INFO, message = msg\<rparr>] p"

text \<open>\<open>_next_token(kind, message, is_error, allow_eof)\<close>. \<open>next(self.tokenizer, None)\<close>
  turns the tokenizer's \<open>StopIteration\<close> into \<open>None\<close> and lets any other exception
  through.\<close>

definition next_token ::
  "TokenKind option \<Rightarrow> frag list \<Rightarrow> bool \<Rightarrow> bool \<Rightarrow> TokenFileParser
   \<Rightarrow> (Token option, TokenFileParser) res" where
  "next_token kind' message' is_error allow_eof p =
     (case saved_token p of
        Some token \<Rightarrow> Ok (Some token) (p\<lparr>saved_token := None\<rparr>)
      | None \<Rightarrow>
          (case Tokenizer_next (tokenizer p) of
             Raise e tz' \<Rightarrow>
               if e = StopIteration then
                 (if \<not> allow_eof
                  then parser_error (line_number tz') (pos tz') [Lit ''Unexpected EOF'']
                         (p\<lparr>tokenizer := tz'\<rparr>)
                  else Ok None (p\<lparr>tokenizer := tz'\<rparr>))
               else Raise e (p\<lparr>tokenizer := tz'\<rparr>)
           | Ok token tz' \<Rightarrow>
               if kind' \<noteq> None \<and> Some (kind token) \<noteq> kind' then
                 (if is_error
                  then parser_error (tline token) (tpos token) message' (p\<lparr>tokenizer := tz'\<rparr>)
                  else Ok (Some token)
                         (parser_warn (tline token) (tpos token) message' (p\<lparr>tokenizer := tz'\<rparr>)))
               else Ok (Some token) (p\<lparr>tokenizer := tz'\<rparr>)))"

text \<open>\<open>token = self._next_token()\<close> with the default arguments, followed by a use of
  \<open>token.kind\<close>: were the token \<open>None\<close>, that use would raise \<open>AttributeError\<close>.\<close>

definition next_tok :: "TokenFileParser \<Rightarrow> (Token, TokenFileParser) res" where
  "next_tok p =
     (case next_token None [PyNone] False False p of
        Raise e p' \<Rightarrow> Raise e p'
      | Ok None p' \<Rightarrow> Raise AttributeError p'
      | Ok (Some token) p' \<Rightarrow> Ok token p')"

definition push_back :: "Token \<Rightarrow> TokenFileParser \<Rightarrow> TokenFileParser" where
  "push_back token p = p\<lparr>saved_token := Some token\<rparr>"

text \<open>The value of a token that holds a text (a \<open>NAME\<close> or a \<open>STRING\<close>).\<close>

definition str_value :: "Token \<Rightarrow> ustr" where
  "str_value token = (case tvalue token of VStr s \<Rightarrow> s | _ \<Rightarrow> [])"

text \<open>
  The engine's loops read tokens until a closing token comes, and \<open>_check_object_list\<close>
  can push the same token back for ever. Every loop and every call of the engine therefore
  takes a bound on the number of iterations and calls still allowed; the result \<open>None\<close>
  says that the bound was reached, a result \<open>Some r\<close> is what the Python code does.
\<close>

definition and_then ::
  "('a, 's) res option \<Rightarrow> ('a \<Rightarrow> 's \<Rightarrow> ('b, 's) res option) \<Rightarrow> ('b, 's) res option" where
  "and_then r k =
     (case r of
        None \<Rightarrow> None
      | Some (Ok a s) \<Rightarrow> k a s
      | Some (Raise e s) \<Rightarrow> Some (Raise e s))"

fun skip_structure_loop ::
  "nat \<Rightarrow> TokenKind list \<Rightarrow> TokenFileParser \<Rightarrow> (unit, TokenFileParser) res option" where
  "skip_structure_loop 0 struct_stack p = None"
| "skip_structure_loop (Suc n) struct_stack p =
     (if struct_stack = [] then Some (Ok () p)
      else
        and_then (Some (next_tok p)) (\<lambda>token p.
          if kind token = START_OBJECT \<or> kind token = START_ARRAY \<or> kind token = START_UNITS
          then skip_structure_loop n (struct_stack @ [kind token]) p
          else if kind token = END_OBJECT then
            (if last struct_stack \<noteq> START_OBJECT
             then Some (parser_error (tline token) (tpos token) [Lit ''Mismatched nesting''] p)
             else skip_structure_loop n (butlast struct_stack) p)
          else if kind token = END_ARRAY then
            (if last struct_stack \<noteq> START_ARRAY
             then Some (parser_error (tline token) (tpos token) [Lit ''Mismatched nesting''] p)
             else skip_structure_loop n (butlast struct_stack) p)
          else if kind token = END_UNITS then
            (if last struct_stack \<noteq> START_UNITS
             then Some (parser_error (tline token) (tpos token) [Lit ''Mismatched nesting''] p)
             else skip_structure_loop n (butlast struct_stack) p)
          else skip_structure_loop n struct_stack p))"

definition skip_structure ::
  "nat \<Rightarrow> TokenKind \<Rightarrow> TokenFileParser \<Rightarrow> (unit, TokenFileParser) res option" where
  "skip_structure n open_token p = skip_structure_loop n [open_token] p"

definition skip_value :: "nat \<Rightarrow> TokenFileParser \<Rightarrow> (unit, TokenFileParser) res option" where
  "skip_value n p =
     and_then (Some (next_tok p)) (\<lambda>token p.
     and_then
       (if kind token = START_UNITS
        then and_then (skip_structure n START_UNITS p) (\<lambda>u p. Some (next_tok p))
        else Some (Ok token p))
       (\<lambda>token p.
          if kind token = START_OBJECT \<or> kind token = START_ARRAY
          then skip_structure n (kind token) p
          else if kind token = START_UNITS then
            skip_structure n (kind token)
              (parser_warn (tline token) (tpos token) [Lit ''Unexpected units definition''] p)
          else if kind token = NAME \<or> kind token = END_OBJECT then Some (Ok () (push_back token p))
          else if kind token = END_ARRAY \<or> kind token = END_UNITS
          then Some (parser_error (tline token) (tpos token) [Lit ''Mismatched nesting''] p)
          else Some (Ok () p)))"

text \<open>The token kinds that the loops over a units block, a vector and a string list treat
  alike: a nested structure is skipped with a warning.\<close>

definition skip_nested ::
  "nat \<Rightarrow> Token \<Rightarrow> string \<Rightarrow> TokenFileParser \<Rightarrow> (unit, TokenFileParser) res option" where
  "skip_nested n token msg p =
     skip_structure n (kind token) (parser_warn (tline token) (tpos token) [Lit msg] p)"

fun check_spherical_units_loop ::
  "nat \<Rightarrow> bool \<Rightarrow> bool \<Rightarrow> TokenFileParser \<Rightarrow> (unit, TokenFileParser) res option" where
  "check_spherical_units_loop 0 has_angle_unit has_length_unit p = None"
| "check_spherical_units_loop (Suc n) has_angle_unit has_length_unit p =
     and_then (Some (next_tok p)) (\<lambda>token p.
       if kind token = NAME then
         (case UNIT_TYPES (str_value token) of
            None \<Rightarrow>
              check_spherical_units_loop n has_angle_unit has_length_unit
                (parser_warn (tline token) (tpos token)
                   [Lit ''Unknown unit type '', Str (str_value token)] p)
          | Some unit_type \<Rightarrow>
              if unit_type = ANGLE then
                (if has_angle_unit
                 then check_spherical_units_loop n has_angle_unit has_length_unit
                        (parser_warn (tline token) (tpos token) [Lit ''Duplicate angle unit''] p)
                 else check_spherical_units_loop n True has_length_unit p)
              else if unit_type = LENGTH then
                (if has_length_unit
                 then check_spherical_units_loop n has_angle_unit has_length_unit
                        (parser_warn (tline token) (tpos token) [Lit ''Duplicate length unit''] p)
                 else check_spherical_units_loop n has_angle_unit True p)
              else
                check_spherical_units_loop n has_angle_unit has_length_unit
                  (parser_warn (tline token) (tpos token)
                     [Lit ''Unexpected unit type '', Str (str_value token), Lit '' ignored''] p))
       else if kind token = END_UNITS then
         Some (Ok ()
           ((if \<not> has_length_unit
             then parser_warn (tline token) (tpos token) [Lit ''Expected length unit'']
             else id)
              ((if \<not> has_angle_unit
                then parser_warn (tline token) (tpos token) [Lit ''Expected angle unit'']
                else id) p)))
       else if kind token = START_ARRAY then
         and_then (skip_nested n token ''Unexpected array in units block'' p)
           (\<lambda>u p. check_spherical_units_loop n has_angle_unit has_length_unit p)
       else if kind token = START_OBJECT then
         and_then (skip_nested n token ''Unexpected object in units block'' p)
           (\<lambda>u p. check_spherical_units_loop n has_angle_unit has_length_unit p)
       else if kind token = START_UNITS then
         and_then (skip_nested n token ''Unexpected nested units block'' p)
           (\<lambda>u p. check_spherical_units_loop n has_angle_unit has_length_unit p)
       else if kind token = END_ARRAY \<or> kind token = END_OBJECT
       then Some (parser_error (tline token) (tpos token) [Lit ''Mismatched nesting''] p)
       else
         check_spherical_units_loop n has_angle_unit has_length_unit
           (parser_warn (tline token) (tpos token) [Lit ''Unexpected token in units block''] p))"

definition check_spherical_units ::
  "nat \<Rightarrow> TokenFileParser \<Rightarrow> (unit, TokenFileParser) res option" where
  "check_spherical_units n p = check_spherical_units_loop n False False p"

fun check_units_loop ::
  "nat \<Rightarrow> UnitsType \<Rightarrow> bool \<Rightarrow> TokenFileParser \<Rightarrow> (unit, TokenFileParser) res option" where
  "check_units_loop 0 expected_units has_unit p = None"
| "check_units_loop (Suc n) expected_units has_unit p =
     and_then (Some (next_tok p)) (\<lambda>token p.
       if kind token = NAME then
         check_units_loop n expected_units True
           (case UNIT_TYPES (str_value token) of
              None \<Rightarrow>
                parser_warn (tline token) (tpos token)
                  [Lit ''Unknown unit type '', Str (str_value token)] p
            | Some actual_units \<Rightarrow>
                if actual_units \<noteq> expected_units then
                  parser_warn (tline token) (tpos token)
                    [Lit ''Unexpected unit type '', Str (str_value token), Lit '' ignored''] p
                else if has_unit
                then parser_warn (tline token) (tpos token) [Lit ''Multiple units found''] p
                else p)
       else if kind token = END_UNITS then
         Some (Ok ()
           (if \<not> has_unit
            then parser_warn (tline token) (tpos token) [Lit ''Empty unit block''] p
            else p))
       else if kind token = START_ARRAY then
         and_then (skip_nested n token ''Unexpected array in units block'' p)
           (\<lambda>u p. check_units_loop n expected_units has_unit p)
       else if kind token = START_OBJECT then
         and_then (skip_nested n token ''Unexpected object in units block'' p)
           (\<lambda>u p. check_units_loop n expected_units has_unit p)
       else if kind token = START_UNITS then
         and_then (skip_nested n token ''Unexpected nested units block'' p)
           (\<lambda>u p. check_units_loop n expected_units has_unit p)
       else if kind token = END_ARRAY \<or> kind token = END_OBJECT
       then Some (parser_error (tline token) (tpos token) [Lit ''Mismatched nesting''] p)
       else
         check_units_loop n expected_units has_unit
           (parser_warn (tline token) (tpos token) [Lit ''Unexpected token in units block''] p))"

definition check_units ::
  "nat \<Rightarrow> UnitsType \<Rightarrow> TokenFileParser \<Rightarrow> (unit, TokenFileParser) res option" where
  "check_units n expected_units p =
     (if expected_units = SPHERICAL then check_spherical_units n p
      else check_units_loop n expected_units False p)"

text \<open>
  \<open>_get_properties\<close>, \<open>_validate_string\<close>, \<open>_validate_number\<close> and \<open>_check_properties\<close>
  are the methods that the parsers of the three file formats override. The overriding
  methods of this repository return a property table or fail, and otherwise only record
  diagnostics, so the engine takes them as functions to the diagnostics they record;
  \<open>get_properties\<close> gives \<open>None\<close> where the method raises \<open>RuntimeError\<close>.
\<close>

record hooks =
  get_properties :: "ustr \<Rightarrow> (ustr \<Rightarrow> PropertyDef option) option"
  validate_string :: "ustr \<Rightarrow> ustr \<Rightarrow> Token \<Rightarrow> ParsingMessage list"
  validate_number :: "ustr \<Rightarrow> ustr \<Rightarrow> Token \<Rightarrow> ParsingMessage list"
  check_properties :: "ustr \<Rightarrow> Token \<Rightarrow> ustr set \<Rightarrow> Disposition \<Rightarrow> ParsingMessage list"

text \<open>The comparisons of \<open>_validate_number\<close> on the value of a \<open>NUMBER\<close> token. For a
  float, which is the double nearest to the literal's value \<open>r\<close>: it is \<open>\<le> 0\<close> when
  \<open>r \<le> 2^-1075\<close>, it is \<open>< 0\<close> when \<open>r < - 2^-1075\<close>, and it is \<open>> 1\<close> when
  \<open>r > 1 + 2^-53\<close>.\<close>

definition value_le_0 :: "TokenValue \<Rightarrow> bool" where
  "value_le_0 v = (case v of VInt i \<Rightarrow> i \<le> 0 | VFloat r \<Rightarrow> r \<le> 1 / 2 ^ 1075 | _ \<Rightarrow> False)"

definition value_lt_0 :: "TokenValue \<Rightarrow> bool" where
  "value_lt_0 v = (case v of VInt i \<Rightarrow> i < 0 | VFloat r \<Rightarrow> r < - (1 / 2 ^ 1075) | _ \<Rightarrow> False)"

definition value_gt_1 :: "TokenValue \<Rightarrow> bool" where
  "value_gt_1 v = (case v of VInt i \<Rightarrow> 1 < i | VFloat r \<Rightarrow> 1 + 1 / 2 ^ 53 < r | _ \<Rightarrow> False)"

definition warning :: "Token \<Rightarrow> frag list \<Rightarrow> ParsingMessage" where
  "warning token msg =
     \<lparr>msg_line = tline token, msg_pos = tpos token, level = WARN, message = msg\<rparr>"

definition base_validate_number :: "ustr \<Rightarrow> ustr \<Rightarrow> Token \<Rightarrow> ParsingMessage list" where
  "base_validate_number object_name property_name token =
     (if property_name = str ''Radius'' \<or> property_name = str ''Temperature''
         \<or> property_name = str ''Mass'' then
        (if value_le_0 (tvalue token)
         then [warning token [Str property_name, Lit '' must be strictly positive'']]
         else [])
      else if property_name = str ''[]'' then
        (if object_name = str ''__color''
            \<and> (value_lt_0 (tvalue token) \<or> value_gt_1 (tvalue token))
         then [warning token [Lit ''Color elements must be in range [0, 1]'']]
         else [])
        @ (if object_name = str ''SemiAxes'' \<and> value_le_0 (tvalue token)
           then [warning token [Lit ''SemiAxes element must be strictly positive'']]
           else [])
      else [])"

text \<open>The base \<open>_validate_string\<close>, over the two classifiers of \<open>filenames.py\<close> that it
  calls.\<close>

definition base_validate_string ::
  "(ustr \<Rightarrow> bool) \<Rightarrow> (ustr \<Rightarrow> bool) \<Rightarrow> ustr \<Rightarrow> ustr \<Rightarrow> Token \<Rightarrow> ParsingMessage list" where
  "base_validate_string is_mesh_file is_texture_file object_name property_name token =
     (if property_name = str ''Mesh'' then
        (if \<not> is_mesh_file (str_value token)
         then [warning token [Lit ''Bad mesh filename '', Repr (str_value token)]]
         else [])
      else if property_name = str ''Texture'' then
        (if \<not> is_texture_file (str_value token)
         then [warning token [Lit ''Bad texture filename '', Repr (str_value token)]]
         else [])
      else [])"

definition base_hooks :: "(ustr \<Rightarrow> bool) \<Rightarrow> (ustr \<Rightarrow> bool) \<Rightarrow> hooks" where
  "base_hooks is_mesh_file is_texture_file =
     \<lparr>get_properties = (\<lambda>object_name. None),
      validate_string = base_validate_string is_mesh_file is_texture_file,
      validate_number = base_validate_number,
      check_properties = (\<lambda>object_name open_token parsed_properties disposition. [])\<rparr>"

text \<open>The base class with classifiers that accept every file name, for running the
  engine on a given input.\<close>

definition any_file :: "ustr \<Rightarrow> bool" where
  "any_file filename = True"

definition plain_hooks :: hooks where
  "plain_hooks = base_hooks any_file any_file"

text \<open>\<open>element_count\<close> is an \<open>int\<close> or a pair of them.\<close>

datatype element_count = Count int | Range int int

text \<open>The test after the loop of \<open>_check_vector\<close>: with an \<open>int\<close> that differs from the
  number of elements, the second operand of \<open>or\<close> is evaluated and subscripts the
  \<open>int\<close>, which raises \<open>TypeError\<close>.\<close>

definition check_element_count ::
  "element_count \<Rightarrow> nat \<Rightarrow> Token \<Rightarrow> TokenFileParser \<Rightarrow> (unit, TokenFileParser) res" where
  "check_element_count element_count num_elements token p =
     (case element_count of
        Count k \<Rightarrow> if int num_elements = k then Ok () p else Raise TypeError p
      | Range lo hi \<Rightarrow>
          if lo \<le> int num_elements \<and> int num_elements \<le> hi then Ok () p
          else Ok ()
                 (parser_warn (tline token) (tpos token)
                    [Lit ''Expected '', Tup lo hi, Lit '' elements in vector, found '',
                     Num (int num_elements)] p))"

fun check_vector_loop ::
  "nat \<Rightarrow> hooks \<Rightarrow> ustr \<Rightarrow> element_count \<Rightarrow> nat \<Rightarrow> TokenFileParser
   \<Rightarrow> (unit, TokenFileParser) res option" where
  "check_vector_loop 0 h property_name element_count num_elements p = None"
| "check_vector_loop (Suc n) h property_name element_count num_elements p =
     and_then (Some (next_tok p)) (\<lambda>token p.
       if kind token = NUMBER then
         check_vector_loop n h property_name element_count (num_elements + 1)
           (emit (validate_number h property_name (str ''[]'') token) p)
       else if kind token = END_ARRAY
       then Some (check_element_count element_count num_elements token p)
       else if kind token = START_ARRAY then
         and_then (skip_nested n token ''Unexpected sub-array in vector'' p)
           (\<lambda>u p. check_vector_loop n h property_name element_count num_elements p)
       else if kind token = START_OBJECT then
         and_then (skip_nested n token ''Unexpected sub-object in vector'' p)
           (\<lambda>u p. check_vector_loop n h property_name element_count num_elements p)
       else if kind token = START_UNITS then
         and_then (skip_nested n token ''Unexpected units block in vector'' p)
           (\<lambda>u p. check_vector_loop n h property_name element_count num_elements p)
       else if kind token = END_OBJECT \<or> kind token = END_UNITS
       then Some (parser_error (tline token) (tpos token) [Lit ''Mismatched nesting''] p)
       else
         check_vector_loop n h property_name element_count num_elements
           (parser_warn (tline token) (tpos token) [Lit ''Non-numeric token in vector''] p))"

definition check_vector ::
  "nat \<Rightarrow> hooks \<Rightarrow> ustr \<Rightarrow> element_count \<Rightarrow> TokenFileParser
   \<Rightarrow> (unit, TokenFileParser) res option" where
  "check_vector n h property_name element_count p =
     check_vector_loop n h property_name element_count 0 p"

fun check_string_list ::
  "nat \<Rightarrow> hooks \<Rightarrow> ustr \<Rightarrow> TokenFileParser \<Rightarrow> (unit, TokenFileParser) res option" where
  "check_string_list 0 h property_name p = None"
| "check_string_list (Suc n) h property_name p =
     and_then (Some (next_tok p)) (\<lambda>token p.
       if kind token = STRING then
         check_string_list n h property_name
           (emit (validate_string h property_name (str ''[]'') token) p)
       else if kind token = END_ARRAY then Some (Ok () p)
       else if kind token = START_ARRAY then
         and_then (skip_nested n token ''Unexpected sub-array in string list'' p)
           (\<lambda>u p. check_string_list n h property_name p)
       else if kind token = START_OBJECT then
         and_then (skip_nested n token ''Unexpected sub-object in string list'' p)
           (\<lambda>u p. check_string_list n h property_name p)
       else if kind token = START_UNITS then
         and_then (skip_nested n token ''Unexpected units block in string list'' p)
           (\<lambda>u p. check_string_list n h property_name p)
       else if kind token = END_OBJECT \<or> kind token = END_UNITS
       then Some (parser_error (tline token) (tpos token) [Lit ''Mismatched nesting''] p)
       else
         check_string_list n h property_name
           (parser_warn (tline token) (tpos token) [Lit ''Non-string token in string list''] p))"

text \<open>The test that \<open>_check_value\<close> makes on the text of a \<open>Color\<close> property.\<close>

definition color_string_ok :: "ustr \<Rightarrow> bool" where
  "color_string_ok v \<longleftrightarrow>
     v \<in> X11_COLORS \<or> ((length v = 4 \<or> length v = 7 \<or> length v = 9) \<and> COLOR_REGEX_match v)"

text \<open>A branch of the \<open>match data_type\<close> of \<open>_check_value\<close> that ends with \<open>is_match\<close>
  true, or with \<open>is_match\<close> false after a warning.\<close>

definition matched :: "TokenFileParser \<Rightarrow> (bool, TokenFileParser) res option" where
  "matched p = Some (Ok True p)"

definition mismatch ::
  "Token \<Rightarrow> string \<Rightarrow> ustr \<Rightarrow> TokenFileParser \<Rightarrow> (bool, TokenFileParser) res option" where
  "mismatch token msg property_name p =
     Some (Ok False (parser_warn (tline token) (tpos token) [Lit msg, Str property_name] p))"

text \<open>
  \<open>_check_value\<close>. It calls \<open>_check_object\<close> and \<open>_check_object_list\<close>, which call it
  in turn: \<open>nested_object\<close> and \<open>nested_list\<close> stand for these two calls, and the
  recursion is tied below.
\<close>

definition check_value_with ::
  "(ustr \<Rightarrow> Token \<Rightarrow> (ustr \<Rightarrow> PropertyDef option) \<Rightarrow> TokenFileParser
      \<Rightarrow> (unit, TokenFileParser) res option)
   \<Rightarrow> (ustr \<Rightarrow> (ustr \<Rightarrow> PropertyDef option) \<Rightarrow> TokenFileParser
      \<Rightarrow> (unit, TokenFileParser) res option)
   \<Rightarrow> nat \<Rightarrow> hooks \<Rightarrow> ustr \<Rightarrow> ustr \<Rightarrow> DataType \<Rightarrow> UnitsType option \<Rightarrow> TokenFileParser
   \<Rightarrow> (unit, TokenFileParser) res option" where
  "check_value_with nested_object nested_list n h object_name property_name data_type
       units_type p =
     and_then (Some (next_tok p)) (\<lambda>token p.
     and_then
       (if kind token = START_UNITS then
          and_then
            (case units_type of
               None \<Rightarrow>
                 skip_structure n (kind token)
                   (parser_warn (tline token) (tpos token)
                      [Lit ''Units ignored for '', Str property_name] p)
             | Some u \<Rightarrow> check_units n u p)
            (\<lambda>u p. Some (next_tok p))
        else Some (Ok token p))
       (\<lambda>token p.
          if kind token = END_ARRAY \<or> kind token = END_UNITS
          then Some (parser_error (tline token) (tpos token) [Lit ''Mismatched nesting''] p)
          else if kind token = END_OBJECT then
            Some (Ok ()
              (push_back token
                 (parser_warn (tline token) (tpos token)
                    [Lit ''Expected value, got end of object''] p)))
          else
            and_then
              (case data_type of
                 DT_BOOLEAN \<Rightarrow>
                   (if kind token \<noteq> BOOLEAN
                    then mismatch token ''Expected a boolean for '' property_name p
                    else matched p)
               | DT_NUMBER \<Rightarrow>
                   (if kind token = NUMBER
                    then matched (emit (validate_number h object_name property_name token) p)
                    else mismatch token ''Expected a number for '' property_name p)
               | DT_VECTOR \<Rightarrow>
                   (if kind token = START_ARRAY
                    then and_then (check_vector n h property_name (Count 3) p) (\<lambda>u p. matched p)
                    else mismatch token ''Expected a vector for '' property_name p)
               | DT_QUATERNION \<Rightarrow>
                   (if kind token = START_ARRAY
                    then and_then (check_vector n h property_name (Count 4) p) (\<lambda>u p. matched p)
                    else mismatch token ''Expected a quaternion for '' property_name p)
               | DT_STRING \<Rightarrow>
                   (if kind token = STRING
                    then matched (emit (validate_string h object_name property_name token) p)
                    else mismatch token ''Expected a string for '' property_name p)
               | DT_OBJECT \<Rightarrow>
                   (if kind token = START_OBJECT then
                      (case get_properties h property_name of
                         None \<Rightarrow> Some (Raise RuntimeError p)
                       | Some properties \<Rightarrow>
                           and_then
                             (nested_object property_name token properties p)
                             (\<lambda>u p. matched p))
                    else mismatch token ''Expected an object for '' property_name p)
               | DT_DATE \<Rightarrow>
                   (if kind token = STRING then
                      matched
                        (if \<not> check_date_string (str_value token)
                         then parser_warn (tline token) (tpos token)
                                [Lit ''Invalid date string for '', Str property_name] p
                         else p)
                    else if kind token \<noteq> NUMBER
                    then mismatch token ''Expected either number or date string for ''
                           property_name p
                    else matched p)
               | DT_NUMBER_OR_STRING \<Rightarrow>
                   (if kind token = NUMBER
                    then matched (emit (validate_number h object_name property_name token) p)
                    else if kind token = STRING
                    then matched (emit (validate_string h object_name property_name token) p)
                    else mismatch token ''Expected either number or string for ''
                           property_name p)
               | DT_STRING_LIST \<Rightarrow>
                   (if kind token = START_ARRAY
                    then and_then (check_string_list n h property_name p) (\<lambda>u p. matched p)
                    else if kind token \<noteq> STRING
                    then mismatch token ''Expected either string or string list for ''
                           property_name p
                    else matched p)
               | DT_OBJECT_LIST \<Rightarrow>
                   (if kind token = START_ARRAY then
                      (case get_properties h property_name of
                         None \<Rightarrow> Some (Raise RuntimeError p)
                       | Some properties \<Rightarrow>
                           and_then (nested_list property_name properties p)
                             (\<lambda>u p. matched p))
                    else mismatch token ''Expected an array for '' property_name p)
               | DT_VECTOR_OR_OBJECT \<Rightarrow>
                   (if kind token = START_ARRAY
                    then and_then (check_vector n h property_name (Count 3) p) (\<lambda>u p. matched p)
                    else if kind token = START_OBJECT then
                      (case get_properties h property_name of
                         None \<Rightarrow> Some (Raise RuntimeError p)
                       | Some properties \<Rightarrow>
                           and_then
                             (nested_object property_name token properties p)
                             (\<lambda>u p. matched p))
                    else mismatch token ''Expected either vector or object for ''
                           property_name p)
               | DT_COLOR \<Rightarrow>
                   (if kind token = STRING then
                      matched
                        (if \<not> color_string_ok (str_value token)
                         then parser_warn (tline token) (tpos token)
                                [Lit ''Could not parse '', Repr (str_value token),
                                 Lit '' as a valid color''] p
                         else p)
                    else if kind token = START_ARRAY
                    then and_then (check_vector n h (str ''__color'') (Range 3 4) p)
                           (\<lambda>u p. matched p)
                    else mismatch token ''Expected either color vector or string for ''
                           property_name p))
              (\<lambda>is_match p.
                 if \<not> is_match then
                   (if kind token \<noteq> NAME then skip_value n (push_back token p)
                    else Some (Ok () (push_back token p)))
                 else Some (Ok () p))))"

text \<open>\<open>_check_value\<close>, the loop of \<open>_check_object\<close> (with the set \<open>parsed_properties\<close>) and
  \<open>_check_object_list\<close>.\<close>

fun check_value ::
    "nat \<Rightarrow> hooks \<Rightarrow> ustr \<Rightarrow> ustr \<Rightarrow> DataType \<Rightarrow> UnitsType option \<Rightarrow> TokenFileParser
     \<Rightarrow> (unit, TokenFileParser) res option"
  and check_object_loop ::
    "nat \<Rightarrow> hooks \<Rightarrow> ustr \<Rightarrow> Token \<Rightarrow> (ustr \<Rightarrow> PropertyDef option) \<Rightarrow> Disposition \<Rightarrow> ustr set
     \<Rightarrow> TokenFileParser \<Rightarrow> (unit, TokenFileParser) res option"
  and check_object_list ::
    "nat \<Rightarrow> hooks \<Rightarrow> ustr \<Rightarrow> (ustr \<Rightarrow> PropertyDef option) \<Rightarrow> TokenFileParser
     \<Rightarrow> (unit, TokenFileParser) res option"
  where
  "check_value 0 h object_name property_name data_type units_type p = None"
| "check_value (Suc n) h object_name property_name data_type units_type p =
     check_value_with
       (\<lambda>name token properties p. check_object_loop n h name token properties ADD {} p)
       (\<lambda>name properties p. check_object_list n h name properties p)
       n h object_name property_name data_type units_type p"
| "check_object_loop 0 h object_name open_token properties disposition parsed_properties p =
     None"
| "check_object_loop (Suc n) h object_name open_token properties disposition
       parsed_properties p =
     and_then (Some (next_tok p)) (\<lambda>token p.
       if kind token = NAME then
         and_then
           (case properties (str_value token) of
              None \<Rightarrow>
                skip_value n
                  (parser_warn (tline token) (tpos token)
                     [Lit ''Unknown property '', Str (str_value token)]
                     (if str_value token \<in> parsed_properties
                      then parser_warn (tline token) (tpos token)
                             [Lit ''Duplicate property '', Str (str_value token)] p
                      else p))
            | Some (data_type, unit_type) \<Rightarrow>
                check_value n h object_name (str_value token) data_type unit_type
                  (if str_value token \<in> parsed_properties
                   then parser_warn (tline token) (tpos token)
                          [Lit ''Duplicate property '', Str (str_value token)] p
                   else p))
           (\<lambda>u p.
              check_object_loop n h object_name open_token properties disposition
                (insert (str_value token) parsed_properties) p)
       else if kind token = END_OBJECT then
         Some (Ok ()
           (emit (check_properties h object_name open_token parsed_properties disposition) p))
       else if kind token = END_ARRAY \<or> kind token = END_UNITS
       then Some (parser_error (tline token) (tpos token) [Lit ''Mismatched nesting''] p)
       else
         and_then
           (skip_value n
              (push_back token
                 (parser_warn (tline token) (tpos token) [Lit ''Expected property''] p)))
           (\<lambda>u p.
              check_object_loop n h object_name open_token properties disposition
                parsed_properties p))"
| "check_object_list 0 h object_name properties p = None"
| "check_object_list (Suc n) h object_name properties p =
     and_then (Some (next_tok p)) (\<lambda>token p.
       if kind token = START_OBJECT then
         and_then (check_object_loop n h object_name token properties ADD {} p)
           (\<lambda>u p. check_object_list n h object_name properties p)
       else if kind token = END_ARRAY then Some (Ok () p)
       else if kind token = END_OBJECT \<or> kind token = END_UNITS
       then Some (parser_error (tline token) (tpos token) [Lit ''Mismatched nesting''] p)
       else
         and_then
           (skip_value n
              (push_back token (parser_warn (tline token) (tpos token) [Lit ''Expected object''] p)))
           (\<lambda>u p. check_object_list n h object_name properties p))"

definition check_object ::
  "nat \<Rightarrow> hooks \<Rightarrow> ustr \<Rightarrow> Token \<Rightarrow> (ustr \<Rightarrow> PropertyDef option) \<Rightarrow> Disposition
   \<Rightarrow> TokenFileParser \<Rightarrow> (unit, TokenFileParser) res option" where
  "check_object n h object_name open_token properties disposition p =
     check_object_loop n h object_name open_token properties disposition {} p"

section \<open>A run, with the order of emission recorded\<close>

text \<open>
  The diagnostics of a run are kept in two lists, \<open>tokenizer.messages\<close> and \<open>_messages\<close>,
  and from the two lists one cannot tell which of a diagnostic of the lexer and a diagnostic
  of the engine was emitted first. To speak of the order of emission, the parser object is
  given a history variable: one more list, \<open>emitted\<close>, to which a diagnostic is appended at
  the moment it is appended to one of the two lists. No definition reads \<open>emitted\<close>.
  \<open>_error\<close>, \<open>_warn\<close>, \<open>_next_token\<close> and \<open>_push_back\<close> are written again on such an
  object, then the methods of the engine, whose text is the one above with these four in the
  place of the former ones; without the history every one of them is the definition above
  (lemmas \<open>next_token_logged_erase\<close> to \<open>check_object_logged_erase\<close>).
\<close>

record LoggedParser =
  parser :: TokenFileParser
  emitted :: "ParsingMessage list"

definition LoggedParser_init :: "ustr list \<Rightarrow> LoggedParser" where
  "LoggedParser_init file = \<lparr>parser = TokenFileParser_init file, emitted = []\<rparr>"

definition emit_logged :: "ParsingMessage list \<Rightarrow> LoggedParser \<Rightarrow> LoggedParser" where
  "emit_logged ms p = \<lparr>parser = emit ms (parser p), emitted = emitted p @ ms\<rparr>"

definition parser_error_logged ::
  "nat \<Rightarrow> nat \<Rightarrow> frag list \<Rightarrow> LoggedParser \<Rightarrow> ('a, LoggedParser) res" where
  "parser_error_logged l c msg p =
     Raise ParsingError
       (emit_logged [\<lparr>msg_line = l, msg_pos = c, level = ERROR, message = msg\<rparr>] p)"

definition parser_warn_logged :: "nat \<Rightarrow> nat \<Rightarrow> frag list \<Rightarrow> LoggedParser \<Rightarrow> LoggedParser" where
  "parser_warn_logged l c msg p =
     emit_logged [\<lparr>msg_line = l, msg_pos = c, level = WARN, message = msg\<rparr>] p"

text \<open>The parser after a call of \<open>next(self.tokenizer, None)\<close> that left the lexer as
  \<open>tz'\<close>: the lexer only appends to its list, and what it appended during the call goes to
  the history, in the same order. The engine emits nothing during the call.\<close>

definition lexed :: "Tokenizer \<Rightarrow> LoggedParser \<Rightarrow> LoggedParser" where
  "lexed tz' p =
     \<lparr>parser = (parser p)\<lparr>tokenizer := tz'\<rparr>,
      emitted = emitted p @ drop (length (messages (tokenizer (parser p)))) (messages tz')\<rparr>"

definition next_token_logged ::
  "TokenKind option \<Rightarrow> frag list \<Rightarrow> bool \<Rightarrow> bool \<Rightarrow> LoggedParser
   \<Rightarrow> (Token option, LoggedParser) res" where
  "next_token_logged kind' message' is_error allow_eof p =
     (case saved_token (parser p) of
        Some token \<Rightarrow> Ok (Some token) (p\<lparr>parser := (parser p)\<lparr>saved_token := None\<rparr>\<rparr>)
      | None \<Rightarrow>
          (case Tokenizer_next (tokenizer (parser p)) of
             Raise e tz' \<Rightarrow>
               if e = StopIteration then
                 (if \<not> allow_eof
                  then parser_error_logged (line_number tz') (pos tz') [Lit ''Unexpected EOF'']
                         (lexed tz' p)
                  else Ok None (lexed tz' p))
               else Raise e (lexed tz' p)
           | Ok token tz' \<Rightarrow>
               if kind' \<noteq> None \<and> Some (kind token) \<noteq> kind' then
                 (if is_error
                  then parser_error_logged (tline token) (tpos token) message' (lexed tz' p)
                  else Ok (Some token)
                         (parser_warn_logged (tline token) (tpos token) message' (lexed tz' p)))
               else Ok (Some token) (lexed tz' p)))"

text \<open>\<open>token = self._next_token(kind, message, is_error)\<close> followed by a use of
  \<open>token.kind\<close>.\<close>

definition expect_token_logged ::
  "TokenKind option \<Rightarrow> frag list \<Rightarrow> bool \<Rightarrow> LoggedParser \<Rightarrow> (Token, LoggedParser) res" where
  "expect_token_logged kind' message' is_error p =
     (case next_token_logged kind' message' is_error False p of
        Raise e p' \<Rightarrow> Raise e p'
      | Ok None p' \<Rightarrow> Raise AttributeError p'
      | Ok (Some token) p' \<Rightarrow> Ok token p')"

definition next_tok_logged :: "LoggedParser \<Rightarrow> (Token, LoggedParser) res" where
  "next_tok_logged p = expect_token_logged None [PyNone] False p"

definition push_back_logged :: "Token \<Rightarrow> LoggedParser \<Rightarrow> LoggedParser" where
  "push_back_logged token p = p\<lparr>parser := push_back token (parser p)\<rparr>"

text \<open>The methods of the engine, from \<open>_skip_structure\<close> to \<open>_check_object\<close>.\<close>

fun skip_structure_loop_logged ::
  "nat \<Rightarrow> TokenKind list \<Rightarrow> LoggedParser \<Rightarrow> (unit, LoggedParser) res option" where
  "skip_structure_loop_logged 0 struct_stack p = None"
| "skip_structure_loop_logged (Suc n) struct_stack p =
     (if struct_stack = [] then Some (Ok () p)
      else
        and_then (Some (next_tok_logged p)) (\<lambda>token p.
          if kind token = START_OBJECT \<or> kind token = START_ARRAY \<or> kind token = START_UNITS
          then skip_structure_loop_logged n (struct_stack @ [kind token]) p
          else if kind token = END_OBJECT then
            (if last struct_stack \<noteq> START_OBJECT
             then Some (parser_error_logged (tline token) (tpos token) [Lit ''Mismatched nesting''] p)
             else skip_structure_loop_logged n (butlast struct_stack) p)
          else if kind token = END_ARRAY then
            (if last struct_stack \<noteq> START_ARRAY
             then Some (parser_error_logged (tline token) (tpos token) [Lit ''Mismatched nesting''] p)
             else skip_structure_loop_logged n (butlast struct_stack) p)
          else if kind token = END_UNITS then
            (if last struct_stack \<noteq> START_UNITS
             then Some (parser_error_logged (tline token) (tpos token) [Lit ''Mismatched nesting''] p)
             else skip_structure_loop_logged n (butlast struct_stack) p)
          else skip_structure_loop_logged n struct_stack p))"

definition skip_structure_logged ::
  "nat \<Rightarrow> TokenKind \<Rightarrow> LoggedParser \<Rightarrow> (unit, LoggedParser) res option" where
  "skip_structure_logged n open_token p = skip_structure_loop_logged n [open_token] p"

definition skip_value_logged :: "nat \<Rightarrow> LoggedParser \<Rightarrow> (unit, LoggedParser) res option" where
  "skip_value_logged n p =
     and_then (Some (next_tok_logged p)) (\<lambda>token p.
     and_then
       (if kind token = START_UNITS
        then and_then (skip_structure_logged n START_UNITS p) (\<lambda>u p. Some (next_tok_logged p))
        else Some (Ok token p))
       (\<lambda>token p.
          if kind token = START_OBJECT \<or> kind token = START_ARRAY
          then skip_structure_logged n (kind token) p
          else if kind token = START_UNITS then
            skip_structure_logged n (kind token)
              (parser_warn_logged (tline token) (tpos token) [Lit ''Unexpected units definition''] p)
          else if kind token = NAME \<or> kind token = END_OBJECT then Some (Ok () (push_back_logged token p))
          else if kind token = END_ARRAY \<or> kind token = END_UNITS
          then Some (parser_error_logged (tline token) (tpos token) [Lit ''Mismatched nesting''] p)
          else Some (Ok () p)))"

definition skip_nested_logged ::
  "nat \<Rightarrow> Token \<Rightarrow> string \<Rightarrow> LoggedParser \<Rightarrow> (unit, LoggedParser) res option" where
  "skip_nested_logged n token msg p =
     skip_structure_logged n (kind token) (parser_warn_logged (tline token) (tpos token) [Lit msg] p)"

fun check_spherical_units_loop_logged ::
  "nat \<Rightarrow> bool \<Rightarrow> bool \<Rightarrow> LoggedParser \<Rightarrow> (unit, LoggedParser) res option" where
  "check_spherical_units_loop_logged 0 has_angle_unit has_length_unit p = None"
| "check_spherical_units_loop_logged (Suc n) has_angle_unit has_length_unit p =
     and_then (Some (next_tok_logged p)) (\<lambda>token p.
       if kind token = NAME then
         (case UNIT_TYPES (str_value token) of
            None \<Rightarrow>
              check_spherical_units_loop_logged n has_angle_unit has_length_unit
                (parser_warn_logged (tline token) (tpos token)
                   [Lit ''Unknown unit type '', Str (str_value token)] p)
          | Some unit_type \<Rightarrow>
              if unit_type = ANGLE then
                (if has_angle_unit
                 then check_spherical_units_loop_logged n has_angle_unit has_length_unit
                        (parser_warn_logged (tline token) (tpos token) [Lit ''Duplicate angle unit''] p)
                 else check_spherical_units_loop_logged n True has_length_unit p)
              else if unit_type = LENGTH then
                (if has_length_unit
                 then check_spherical_units_loop_logged n has_angle_unit has_length_unit
                        (parser_warn_logged (tline token) (tpos token) [Lit ''Duplicate length unit''] p)
                 else check_spherical_units_loop_logged n has_angle_unit True p)
              else
                check_spherical_units_loop_logged n has_angle_unit has_length_unit
                  (parser_warn_logged (tline token) (tpos token)
                     [Lit ''Unexpected unit type '', Str (str_value token), Lit '' ignored''] p))
       else if kind token = END_UNITS then
         Some (Ok ()
           ((if \<not> has_length_unit
             then parser_warn_logged (tline token) (tpos token) [Lit ''Expected length unit'']
             else id)
              ((if \<not> has_angle_unit
                then parser_warn_logged (tline token) (tpos token) [Lit ''Expected angle unit'']
                else id) p)))
       else if kind token = START_ARRAY then
         and_then (skip_nested_logged n token ''Unexpected array in units block'' p)
           (\<lambda>u p. check_spherical_units_loop_logged n has_angle_unit has_length_unit p)
       else if kind token = START_OBJECT then
         and_then (skip_nested_logged n token ''Unexpected object in units block'' p)
           (\<lambda>u p. check_spherical_units_loop_logged n has_angle_unit has_length_unit p)
       else if kind token = START_UNITS then
         and_then (skip_nested_logged n token ''Unexpected nested units block'' p)
           (\<lambda>u p. check_spherical_units_loop_logged n has_angle_unit has_length_unit p)
       else if kind token = END_ARRAY \<or> kind token = END_OBJECT
       then Some (parser_error_logged (tline token) (tpos token) [Lit ''Mismatched nesting''] p)
       else
         check_spherical_units_loop_logged n has_angle_unit has_length_unit
           (parser_warn_logged (tline token) (tpos token) [Lit ''Unexpected token in units block''] p))"

definition check_spherical_units_logged ::
  "nat \<Rightarrow> LoggedParser \<Rightarrow> (unit, LoggedParser) res option" where
  "check_spherical_units_logged n p = check_spherical_units_loop_logged n False False p"

fun check_units_loop_logged ::
  "nat \<Rightarrow> UnitsType \<Rightarrow> bool \<Rightarrow> LoggedParser \<Rightarrow> (unit, LoggedParser) res option" where
  "check_units_loop_logged 0 expected_units has_unit p = None"
| "check_units_loop_logged (Suc n) expected_units has_unit p =
     and_then (Some (next_tok_logged p)) (\<lambda>token p.
       if kind token = NAME then
         check_units_loop_logged n expected_units True
           (case UNIT_TYPES (str_value token) of
              None \<Rightarrow>
                parser_warn_logged (tline token) (tpos token)
                  [Lit ''Unknown unit type '', Str (str_value token)] p
            | Some actual_units \<Rightarrow>
                if actual_units \<noteq> expected_units then
                  parser_warn_logged (tline token) (tpos token)
                    [Lit ''Unexpected unit type '', Str (str_value token), Lit '' ignored''] p
                else if has_unit
                then parser_warn_logged (tline token) (tpos token) [Lit ''Multiple units found''] p
                else p)
       else if kind token = END_UNITS then
         Some (Ok ()
           (if \<not> has_unit
            then parser_warn_logged (tline token) (tpos token) [Lit ''Empty unit block''] p
            else p))
       else if kind token = START_ARRAY then
         and_then (skip_nested_logged n token ''Unexpected array in units block'' p)
           (\<lambda>u p. check_units_loop_logged n expected_units has_unit p)
       else if kind token = START_OBJECT then
         and_then (skip_nested_logged n token ''Unexpected object in units block'' p)
           (\<lambda>u p. check_units_loop_logged n expected_units has_unit p)
       else if kind token = START_UNITS then
         and_then (skip_nested_logged n token ''Unexpected nested units block'' p)
           (\<lambda>u p. check_units_loop_logged n expected_units has_unit p)
       else if kind token = END_ARRAY \<or> kind token = END_OBJECT
       then Some (parser_error_logged (tline token) (tpos token) [Lit ''Mismatched nesting''] p)
       else
         check_units_loop_logged n expected_units has_unit
           (parser_warn_logged (tline token) (tpos token) [Lit ''Unexpected token in units block''] p))"

definition check_units_logged ::
  "nat \<Rightarrow> UnitsType \<Rightarrow> LoggedParser \<Rightarrow> (unit, LoggedParser) res option" where
  "check_units_logged n expected_units p =
     (if expected_units = SPHERICAL then check_spherical_units_logged n p
      else check_units_loop_logged n expected_units False p)"

definition check_element_count_logged ::
  "element_count \<Rightarrow> nat \<Rightarrow> Token \<Rightarrow> LoggedParser \<Rightarrow> (unit, LoggedParser) res" where
  "check_element_count_logged element_count num_elements token p =
     (case element_count of
        Count k \<Rightarrow> if int num_elements = k then Ok () p else Raise TypeError p
      | Range lo hi \<Rightarrow>
          if lo \<le> int num_elements \<and> int num_elements \<le> hi then Ok () p
          else Ok ()
                 (parser_warn_logged (tline token) (tpos token)
                    [Lit ''Expected '', Tup lo hi, Lit '' elements in vector, found '',
                     Num (int num_elements)] p))"

fun check_vector_loop_logged ::
  "nat \<Rightarrow> hooks \<Rightarrow> ustr \<Rightarrow> element_count \<Rightarrow> nat \<Rightarrow> LoggedParser
   \<Rightarrow> (unit, LoggedParser) res option" where
  "check_vector_loop_logged 0 h property_name element_count num_elements p = None"
| "check_vector_loop_logged (Suc n) h property_name element_count num_elements p =
     and_then (Some (next_tok_logged p)) (\<lambda>token p.
       if kind token = NUMBER then
         check_vector_loop_logged n h property_name element_count (num_elements + 1)
           (emit_logged (validate_number h property_name (str ''[]'') token) p)
       else if kind token = END_ARRAY
       then Some (check_element_count_logged element_count num_elements token p)
       else if kind token = START_ARRAY then
         and_then (skip_nested_logged n token ''Unexpected sub-array in vector'' p)
           (\<lambda>u p. check_vector_loop_logged n h property_name element_count num_elements p)
       else if kind token = START_OBJECT then
         and_then (skip_nested_logged n token ''Unexpected sub-object in vector'' p)
           (\<lambda>u p. check_vector_loop_logged n h property_name element_count num_elements p)
       else if kind token = START_UNITS then
         and_then (skip_nested_logged n token ''Unexpected units block in vector'' p)
           (\<lambda>u p. check_vector_loop_logged n h property_name element_count num_elements p)
       else if kind token = END_OBJECT \<or> kind token = END_UNITS
       then Some (parser_error_logged (tline token) (tpos token) [Lit ''Mismatched nesting''] p)
       else
         check_vector_loop_logged n h property_name element_count num_elements
           (parser_warn_logged (tline token) (tpos token) [Lit ''Non-numeric token in vector''] p))"

definition check_vector_logged ::
  "nat \<Rightarrow> hooks \<Rightarrow> ustr \<Rightarrow> element_count \<Rightarrow> LoggedParser
   \<Rightarrow> (unit, LoggedParser) res option" where
  "check_vector_logged n h property_name element_count p =
     check_vector_loop_logged n h property_name element_count 0 p"

fun check_string_list_logged ::
  "nat \<Rightarrow> hooks \<Rightarrow> ustr \<Rightarrow> LoggedParser \<Rightarrow> (unit, LoggedParser) res option" where
  "check_string_list_logged 0 h property_name p = None"
| "check_string_list_logged (Suc n) h property_name p =
     and_then (Some (next_tok_logged p)) (\<lambda>token p.
       if kind token = STRING then
         check_string_list_logged n h property_name
           (emit_logged (validate_string h property_name (str ''[]'') token) p)
       else if kind token = END_ARRAY then Some (Ok () p)
       else if kind token = START_ARRAY then
         and_then (skip_nested_logged n token ''Unexpected sub-array in string list'' p)
           (\<lambda>u p. check_string_list_logged n h property_name p)
       else if kind token = START_OBJECT then
         and_then (skip_nested_logged n token ''Unexpected sub-object in string list'' p)
           (\<lambda>u p. check_string_list_logged n h property_name p)
       else if kind token = START_UNITS then
         and_then (skip_nested_logged n token ''Unexpected units block in string list'' p)
           (\<lambda>u p. check_string_list_logged n h property_name p)
       else if kind token = END_OBJECT \<or> kind token = END_UNITS
       then Some (parser_error_logged (tline token) (tpos token) [Lit ''Mismatched nesting''] p)
       else
         check_string_list_logged n h property_name
           (parser_warn_logged (tline token) (tpos token) [Lit ''Non-string token in string list''] p))"

definition matched_logged :: "LoggedParser \<Rightarrow> (bool, LoggedParser) res option" where
  "matched_logged p = Some (Ok True p)"

definition mismatch_logged ::
  "Token \<Rightarrow> string \<Rightarrow> ustr \<Rightarrow> LoggedParser \<Rightarrow> (bool, LoggedParser) res option" where
  "mismatch_logged token msg property_name p =
     Some (Ok False (parser_warn_logged (tline token) (tpos token) [Lit msg, Str property_name] p))"

definition check_value_with_logged ::
  "(ustr \<Rightarrow> Token \<Rightarrow> (ustr \<Rightarrow> PropertyDef option) \<Rightarrow> LoggedParser
      \<Rightarrow> (unit, LoggedParser) res option)
   \<Rightarrow> (ustr \<Rightarrow> (ustr \<Rightarrow> PropertyDef option) \<Rightarrow> LoggedParser
      \<Rightarrow> (unit, LoggedParser) res option)
   \<Rightarrow> nat \<Rightarrow> hooks \<Rightarrow> ustr \<Rightarrow> ustr \<Rightarrow> DataType \<Rightarrow> UnitsType option \<Rightarrow> LoggedParser
   \<Rightarrow> (unit, LoggedParser) res option" where
  "check_value_with_logged nested_object nested_list n h object_name property_name data_type
       units_type p =
     and_then (Some (next_tok_logged p)) (\<lambda>token p.
     and_then
       (if kind token = START_UNITS then
          and_then
            (case units_type of
               None \<Rightarrow>
                 skip_structure_logged n (kind token)
                   (parser_warn_logged (tline token) (tpos token)
                      [Lit ''Units ignored for '', Str property_name] p)
             | Some u \<Rightarrow> check_units_logged n u p)
            (\<lambda>u p. Some (next_tok_logged p))
        else Some (Ok token p))
       (\<lambda>token p.
          if kind token = END_ARRAY \<or> kind token = END_UNITS
          then Some (parser_error_logged (tline token) (tpos token) [Lit ''Mismatched nesting''] p)
          else if kind token = END_OBJECT then
            Some (Ok ()
              (push_back_logged token
                 (parser_warn_logged (tline token) (tpos token)
                    [Lit ''Expected value, got end of object''] p)))
          else
            and_then
              (case data_type of
                 DT_BOOLEAN \<Rightarrow>
                   (if kind token \<noteq> BOOLEAN
                    then mismatch_logged token ''Expected a boolean for '' property_name p
                    else matched_logged p)
               | DT_NUMBER \<Rightarrow>
                   (if kind token = NUMBER
                    then matched_logged (emit_logged (validate_number h object_name property_name token) p)
                    else mismatch_logged token ''Expected a number for '' property_name p)
               | DT_VECTOR \<Rightarrow>
                   (if kind token = START_ARRAY
                    then and_then (check_vector_logged n h property_name (Count 3) p) (\<lambda>u p. matched_logged p)
                    else mismatch_logged token ''Expected a vector for '' property_name p)
               | DT_QUATERNION \<Rightarrow>
                   (if kind token = START_ARRAY
                    then and_then (check_vector_logged n h property_name (Count 4) p) (\<lambda>u p. matched_logged p)
                    else mismatch_logged token ''Expected a quaternion for '' property_name p)
               | DT_STRING \<Rightarrow>
                   (if kind token = STRING
                    then matched_logged (emit_logged (validate_string h object_name property_name token) p)
                    else mismatch_logged token ''Expected a string for '' property_name p)
               | DT_OBJECT \<Rightarrow>
                   (if kind token = START_OBJECT then
                      (case get_properties h property_name of
                         None \<Rightarrow> Some (Raise RuntimeError p)
                       | Some properties \<Rightarrow>
                           and_then
                             (nested_object property_name token properties p)
                             (\<lambda>u p. matched_logged p))
                    else mismatch_logged token ''Expected an object for '' property_name p)
               | DT_DATE \<Rightarrow>
                   (if kind token = STRING then
                      matched_logged
                        (if \<not> check_date_string (str_value token)
                         then parser_warn_logged (tline token) (tpos token)
                                [Lit ''Invalid date string for '', Str property_name] p
                         else p)
                    else if kind token \<noteq> NUMBER
                    then mismatch_logged token ''Expected either number or date string for ''
                           property_name p
                    else matched_logged p)
               | DT_NUMBER_OR_STRING \<Rightarrow>
                   (if kind token = NUMBER
                    then matched_logged (emit_logged (validate_number h object_name property_name token) p)
                    else if kind token = STRING
                    then matched_logged (emit_logged (validate_string h object_name property_name token) p)
                    else mismatch_logged token ''Expected either number or string for ''
                           property_name p)
               | DT_STRING_LIST \<Rightarrow>
                   (if kind token = START_ARRAY
                    then and_then (check_string_list_logged n h property_name p) (\<lambda>u p. matched_logged p)
                    else if kind token \<noteq> STRING
                    then mismatch_logged token ''Expected either string or string list for ''
                           property_name p
                    else matched_logged p)
               | DT_OBJECT_LIST \<Rightarrow>
                   (if kind token = START_ARRAY then
                      (case get_properties h property_name of
                         None \<Rightarrow> Some (Raise RuntimeError p)
                       | Some properties \<Rightarrow>
                           and_then (nested_list property_name properties p)
                             (\<lambda>u p. matched_logged p))
                    else mismatch_logged token ''Expected an array for '' property_name p)
               | DT_VECTOR_OR_OBJECT \<Rightarrow>
                   (if kind token = START_ARRAY
                    then and_then (check_vector_logged n h property_name (Count 3) p) (\<lambda>u p. matched_logged p)
                    else if kind token = START_OBJECT then
                      (case get_properties h property_name of
                         None \<Rightarrow> Some (Raise RuntimeError p)
                       | Some properties \<Rightarrow>
                           and_then
                             (nested_object property_name token properties p)
                             (\<lambda>u p. matched_logged p))
                    else mismatch_logged token ''Expected either vector or object for ''
                           property_name p)
               | DT_COLOR \<Rightarrow>
                   (if kind token = STRING then
                      matched_logged
                        (if \<not> color_string_ok (str_value token)
                         then parser_warn_logged (tline token) (tpos token)
                                [Lit ''Could not parse '', Repr (str_value token),
                                 Lit '' as a valid color''] p
                         else p)
                    else if kind token = START_ARRAY
                    then and_then (check_vector_logged n h (str ''__color'') (Range 3 4) p)
                           (\<lambda>u p. matched_logged p)
                    else mismatch_logged token ''Expected either color vector or string for ''
                           property_name p))
              (\<lambda>is_match p.
                 if \<not> is_match then
                   (if kind token \<noteq> NAME then skip_value_logged n (push_back_logged token p)
                    else Some (Ok () (push_back_logged token p)))
                 else Some (Ok () p))))"

fun check_value_logged ::
    "nat \<Rightarrow> hooks \<Rightarrow> ustr \<Rightarrow> ustr \<Rightarrow> DataType \<Rightarrow> UnitsType option \<Rightarrow> LoggedParser
     \<Rightarrow> (unit, LoggedParser) res option"
  and check_object_loop_logged ::
    "nat \<Rightarrow> hooks \<Rightarrow> ustr \<Rightarrow> Token \<Rightarrow> (ustr \<Rightarrow> PropertyDef option) \<Rightarrow> Disposition \<Rightarrow> ustr set
     \<Rightarrow> LoggedParser \<Rightarrow> (unit, LoggedParser) res option"
  and check_object_list_logged ::
    "nat \<Rightarrow> hooks \<Rightarrow> ustr \<Rightarrow> (ustr \<Rightarrow> PropertyDef option) \<Rightarrow> LoggedParser
     \<Rightarrow> (unit, LoggedParser) res option"
  where
  "check_value_logged 0 h object_name property_name data_type units_type p = None"
| "check_value_logged (Suc n) h object_name property_name data_type units_type p =
     check_value_with_logged
       (\<lambda>name token properties p. check_object_loop_logged n h name token properties ADD {} p)
       (\<lambda>name properties p. check_object_list_logged n h name properties p)
       n h object_name property_name data_type units_type p"
| "check_object_loop_logged 0 h object_name open_token properties disposition parsed_properties p =
     None"
| "check_object_loop_logged (Suc n) h object_name open_token properties disposition
       parsed_properties p =
     and_then (Some (next_tok_logged p)) (\<lambda>token p.
       if kind token = NAME then
         and_then
           (case properties (str_value token) of
              None \<Rightarrow>
                skip_value_logged n
                  (parser_warn_logged (tline token) (tpos token)
                     [Lit ''Unknown property '', Str (str_value token)]
                     (if str_value token \<in> parsed_properties
                      then parser_warn_logged (tline token) (tpos token)
                             [Lit ''Duplicate property '', Str (str_value token)] p
                      else p))
            | Some (data_type, unit_type) \<Rightarrow>
                check_value_logged n h object_name (str_value token) data_type unit_type
                  (if str_value token \<in> parsed_properties
                   then parser_warn_logged (tline token) (tpos token)
                          [Lit ''Duplicate property '', Str (str_value token)] p
                   else p))
           (\<lambda>u p.
              check_object_loop_logged n h object_name open_token properties disposition
                (insert (str_value token) parsed_properties) p)
       else if kind token = END_OBJECT then
         Some (Ok ()
           (emit_logged (check_properties h object_name open_token parsed_properties disposition) p))
       else if kind token = END_ARRAY \<or> kind token = END_UNITS
       then Some (parser_error_logged (tline token) (tpos token) [Lit ''Mismatched nesting''] p)
       else
         and_then
           (skip_value_logged n
              (push_back_logged token
                 (parser_warn_logged (tline token) (tpos token) [Lit ''Expected property''] p)))
           (\<lambda>u p.
              check_object_loop_logged n h object_name open_token properties disposition
                parsed_properties p))"
| "check_object_list_logged 0 h object_name properties p = None"
| "check_object_list_logged (Suc n) h object_name properties p =
     and_then (Some (next_tok_logged p)) (\<lambda>token p.
       if kind token = START_OBJECT then
         and_then (check_object_loop_logged n h object_name token properties ADD {} p)
           (\<lambda>u p. check_object_list_logged n h object_name properties p)
       else if kind token = END_ARRAY then Some (Ok () p)
       else if kind token = END_OBJECT \<or> kind token = END_UNITS
       then Some (parser_error_logged (tline token) (tpos token) [Lit ''Mismatched nesting''] p)
       else
         and_then
           (skip_value_logged n
              (push_back_logged token (parser_warn_logged (tline token) (tpos token) [Lit ''Expected object''] p)))
           (\<lambda>u p. check_object_list_logged n h object_name properties p))"

definition check_object_logged ::
  "nat \<Rightarrow> hooks \<Rightarrow> ustr \<Rightarrow> Token \<Rightarrow> (ustr \<Rightarrow> PropertyDef option) \<Rightarrow> Disposition
   \<Rightarrow> LoggedParser \<Rightarrow> (unit, LoggedParser) res option" where
  "check_object_logged n h object_name open_token properties disposition p =
     check_object_loop_logged n h object_name open_token properties disposition {} p"

subsection \<open>dscparse.py: the tables and the overriding methods\<close>

definition DSC_COMMON_PROPERTIES :: "ustr \<Rightarrow> PropertyDef option" where
  "DSC_COMMON_PROPERTIES =
     map_of
       [(str ''Position'', (DT_VECTOR, Some LENGTH)),
        (str ''RA'', (DT_NUMBER, Some ANGLE)),
        (str ''Dec'', (DT_NUMBER, Some ANGLE)),
        (str ''Distance'', (DT_NUMBER, Some LENGTH)),
        (str ''Axis'', (DT_VECTOR, None)),
        (str ''Angle'', (DT_NUMBER, Some ANGLE)),
        (str ''Radius'', (DT_NUMBER, Some LENGTH)),
        (str ''AbsMag'', (DT_NUMBER, None)),
        (str ''InfoURL'', (DT_STRING, None)),
        (str ''Visible'', (DT_BOOLEAN, None)),
        (str ''Clickable'', (DT_BOOLEAN, None))]"

definition GALAXY_PROPERTIES :: "ustr \<Rightarrow> PropertyDef option" where
  "GALAXY_PROPERTIES =
     DSC_COMMON_PROPERTIES ++
     map_of
       [(str ''Detail'', (DT_NUMBER, None)),
        (str ''Type'', (DT_STRING, None)),
        (str ''CustomTemplate'', (DT_STRING, None))]"

definition GLOBULAR_PROPERTIES :: "ustr \<Rightarrow> PropertyDef option" where
  "GLOBULAR_PROPERTIES =
     DSC_COMMON_PROPERTIES ++
     map_of
       [(str ''Detail'', (DT_NUMBER, None)),
        (str ''CoreRadius'', (DT_NUMBER, Some ANGLE)),
        (str ''KingConcentration'', (DT_NUMBER, None))]"

definition NEBULA_PROPERTIES :: "ustr \<Rightarrow> PropertyDef option" where
  "NEBULA_PROPERTIES = DSC_COMMON_PROPERTIES ++ map_of [(str ''Mesh'', (DT_STRING, None))]"

definition OPEN_CLUSTER_PROPERTIES :: "ustr \<Rightarrow> PropertyDef option" where
  "OPEN_CLUSTER_PROPERTIES = DSC_COMMON_PROPERTIES"

definition DSO_PROPERTIES :: "ustr \<Rightarrow> (ustr \<Rightarrow> PropertyDef option) option" where
  "DSO_PROPERTIES =
     map_of
       [(str ''Galaxy'', GALAXY_PROPERTIES),
        (str ''Globular'', GLOBULAR_PROPERTIES),
        (str ''OpenCluster'', OPEN_CLUSTER_PROPERTIES),
        (str ''Nebula'', NEBULA_PROPERTIES)]"

definition GALAXY_TYPES :: "ustr set" where
  "GALAXY_TYPES =
     str ` {''Irr'', ''S0'', ''Sa'', ''Sb'', ''Sc'', ''SBa'', ''SBb'', ''SBc'',
            ''E0'', ''E1'', ''E2'', ''E3'', ''E4'', ''E5'', ''E6'', ''E7''}"

definition DSCParser_validate_string ::
  "(ustr \<Rightarrow> bool) \<Rightarrow> (ustr \<Rightarrow> bool) \<Rightarrow> ustr \<Rightarrow> ustr \<Rightarrow> Token \<Rightarrow> ParsingMessage list" where
  "DSCParser_validate_string is_mesh_file is_texture_file object_name property_name token =
     (if object_name = str ''Galaxy'' \<and> property_name = str ''Type'' then
        (if str_value token \<notin> GALAXY_TYPES
         then [warning token [Lit ''Invalid galaxy type '', Repr (str_value token)]]
         else [])
      else base_validate_string is_mesh_file is_texture_file object_name property_name token)"

definition DSCParser_check_properties ::
  "ustr \<Rightarrow> Token \<Rightarrow> ustr set \<Rightarrow> Disposition \<Rightarrow> ParsingMessage list" where
  "DSCParser_check_properties object_name open_token parsed_properties disposition =
     (if str ''Position'' \<in> parsed_properties then
        (if str ''RA'' \<in> parsed_properties
         then [warning open_token [Lit ''Position specified: RA ignored'']] else [])
        @ (if str ''Dec'' \<in> parsed_properties
           then [warning open_token [Lit ''Position specified, Dec ignored'']] else [])
        @ (if str ''Distance'' \<in> parsed_properties
           then [warning open_token [Lit ''Position specified, Distance ignored'']] else [])
      else if \<not> {str ''RA'', str ''Dec'', str ''Distance''} \<subseteq> parsed_properties then
        [warning open_token
           [Lit ''No position information specified, specify either RA/Dec/Distance or Position'']]
      else [])
     @ (if str ''Radius'' \<notin> parsed_properties
        then [warning open_token [Lit ''Missing Radius property'']] else [])
     @ (if object_name \<noteq> str ''OpenCluster'' \<and> str ''AbsMag'' \<notin> parsed_properties
        then [warning open_token [Lit ''Missing AbsMag property'']] else [])
     @ (if object_name = str ''Galaxy'' \<and> str ''Type'' \<notin> parsed_properties
        then [warning open_token [Lit ''Missing Type property'']] else [])"

text \<open>The DSC parser overrides \<open>_validate_string\<close> and \<open>_check_properties\<close> and inherits
  the two other methods.\<close>

definition DSCParser_hooks :: "(ustr \<Rightarrow> bool) \<Rightarrow> (ustr \<Rightarrow> bool) \<Rightarrow> hooks" where
  "DSCParser_hooks is_mesh_file is_texture_file =
     \<lparr>get_properties = (\<lambda>object_name. None),
      validate_string = DSCParser_validate_string is_mesh_file is_texture_file,
      validate_number = base_validate_number,
      check_properties = DSCParser_check_properties\<rparr>"

subsection \<open>The \<open>parse\<close> methods of the three parsers\<close>

text \<open>
  \<open>DSCParser.parse\<close>, \<open>SSCParser.parse\<close> and \<open>STCParser.parse\<close>: a loop that reads the head
  of an object and hands its body to the engine. The methods that a parser overrides are
  the hooks \<open>h\<close>, and the property tables of its module are parameters: \<open>_DSO_PROPERTIES\<close>
  for the DSC parser, \<open>_OBJ_PROPERTIES\<close> and \<open>_BODY_PROPERTIES\<close> for the SSC parser, and
  \<open>_OBJ_PROPERTIES\<close> for the STC parser, which looks up only its two keys \<open>Star\<close> and
  \<open>Barycenter\<close>. As for the engine, the first argument bounds the iterations.
\<close>

text \<open>The \<open>match token.value\<close> on \<open>Add\<close>, \<open>Modify\<close> and \<open>Replace\<close> with which the SSC and
  the STC parser begin an object: the disposition, and the token that follows the keyword.\<close>

definition disposition_keyword_logged ::
  "Token \<Rightarrow> LoggedParser \<Rightarrow> (Disposition \<times> Token, LoggedParser) res option" where
  "disposition_keyword_logged token p =
     (if kind token = NAME \<and> str_value token = str ''Add'' then
        and_then (Some (next_tok_logged p)) (\<lambda>token p. Some (Ok (ADD, token) p))
      else if kind token = NAME \<and> str_value token = str ''Modify'' then
        and_then (Some (next_tok_logged p)) (\<lambda>token p. Some (Ok (MODIFY, token) p))
      else if kind token = NAME \<and> str_value token = str ''Replace'' then
        and_then (Some (next_tok_logged p)) (\<lambda>token p. Some (Ok (REPLACE, token) p))
      else Some (Ok (ADD, token) p))"

fun DSCParser_parse_logged ::
  "nat \<Rightarrow> hooks \<Rightarrow> (ustr \<Rightarrow> (ustr \<Rightarrow> PropertyDef option) option) \<Rightarrow> LoggedParser
   \<Rightarrow> (unit, LoggedParser) res option" where
  "DSCParser_parse_logged 0 h dso_table p = None"
| "DSCParser_parse_logged (Suc n) h dso_table p =
     and_then (Some (next_token_logged None [PyNone] False True p)) (\<lambda>token p.
       case token of
         None \<Rightarrow> Some (Ok () p)
       | Some token \<Rightarrow>
           if kind token \<noteq> NAME
           then Some (parser_error_logged (tline token) (tpos token) [Lit ''Expected DSO type''] p)
           else
             and_then
               (Some (expect_token_logged (Some STRING) [Lit ''Expected DSO name''] False
                  (if dso_table (str_value token) = None
                   then parser_warn_logged (tline token) (tpos token)
                          [Lit ''Unknown DSO type '', Str (str_value token)] p
                   else p)))
               (\<lambda>name_token p.
                  if kind name_token \<noteq> STRING
                  then Some (parser_error_logged (tline name_token) (tpos name_token)
                               [Lit ''Expected DSO name''] p)
                  else
                    and_then (Some (expect_token_logged (Some START_OBJECT) [PyNone] True p))
                      (\<lambda>open_token p.
                         and_then
                           (case dso_table (str_value token) of
                              None \<Rightarrow> skip_structure_logged n (kind open_token) p
                            | Some properties \<Rightarrow>
                                check_object_logged n h (str_value token) open_token
                                  properties ADD p)
                           (\<lambda>u p. DSCParser_parse_logged n h dso_table p))))"

fun SSCParser_parse_logged ::
  "nat \<Rightarrow> hooks \<Rightarrow> (ustr \<Rightarrow> (ustr \<Rightarrow> PropertyDef option) option)
   \<Rightarrow> (ustr \<Rightarrow> PropertyDef option) \<Rightarrow> LoggedParser \<Rightarrow> (unit, LoggedParser) res option" where
  "SSCParser_parse_logged 0 h obj_table body_table p = None"
| "SSCParser_parse_logged (Suc n) h obj_table body_table p =
     and_then (Some (next_token_logged None [PyNone] False True p)) (\<lambda>token p.
       case token of
         None \<Rightarrow> Some (Ok () p)
       | Some token \<Rightarrow>
           and_then (disposition_keyword_logged token p) (\<lambda>(disposition, token) p.
           and_then
             (if kind token = NAME then
                (case obj_table (str_value token) of
                   None \<Rightarrow>
                     Some (parser_error_logged (tline token) (tpos token)
                             [Lit ''Unknown body type '', Str (str_value token)] p)
                 | Some properties \<Rightarrow>
                     and_then (Some (next_tok_logged p))
                       (\<lambda>token' p. Some (Ok (str_value token, properties, token') p)))
              else Some (Ok (str ''Body'', body_table, token) p))
             (\<lambda>(object_type, properties, token) p.
           and_then
             (if kind token = STRING then Some (next_tok_logged p)
              else Some (parser_error_logged (tline token) (tpos token)
                           [Lit ''Expected object name''] p))
             (\<lambda>token p.
           and_then
             (if kind token = STRING then Some (next_tok_logged p)
              else Some (parser_error_logged (tline token) (tpos token)
                           [Lit ''Expected parent object name''] p))
             (\<lambda>token p.
                if kind token \<noteq> START_OBJECT
                then Some (parser_error_logged (tline token) (tpos token)
                             [Lit ''Expected start of object''] p)
                else
                  and_then
                    (check_object_logged n h object_type token properties disposition p)
                    (\<lambda>u p. SSCParser_parse_logged n h obj_table body_table p))))))"

fun STCParser_parse_logged ::
  "nat \<Rightarrow> hooks \<Rightarrow> (ustr \<Rightarrow> ustr \<Rightarrow> PropertyDef option) \<Rightarrow> LoggedParser
   \<Rightarrow> (unit, LoggedParser) res option" where
  "STCParser_parse_logged 0 h obj_table p = None"
| "STCParser_parse_logged (Suc n) h obj_table p =
     and_then (Some (next_token_logged None [PyNone] False True p)) (\<lambda>token p.
       case token of
         None \<Rightarrow> Some (Ok () p)
       | Some token \<Rightarrow>
           and_then (disposition_keyword_logged token p) (\<lambda>(disposition, token) p.
           and_then
             (if kind token = NAME then
                (if str_value token = str ''Star'' \<or> str_value token = str ''Barycenter'' then
                   and_then (Some (next_tok_logged p))
                     (\<lambda>token' p. Some (Ok (str_value token, token') p))
                 else
                   Some (parser_error_logged (tline token) (tpos token)
                           [Lit ''Unknown stc object type '', Str (str_value token)] p))
              else Some (Ok (str ''Star'', token) p))
             (\<lambda>(object_type, token) p.
           and_then
             (if kind token = NUMBER then
                and_then
                  (Some (next_tok_logged
                     (case tvalue token of
                        VInt i \<Rightarrow> p
                      | _ \<Rightarrow> parser_warn_logged (tline token) (tpos token)
                                [Lit ''Non-integer HIP number''] p)))
                  (\<lambda>token p. Some (Ok (True, token) p))
              else Some (Ok (False, token) p))
             (\<lambda>(has_id, token) p.
           and_then
             (if kind token = STRING then
                and_then (Some (next_tok_logged p)) (\<lambda>token p. Some (Ok (True, token) p))
              else Some (Ok (has_id, token) p))
             (\<lambda>(has_id, token) p.
                if \<not> has_id
                then Some (parser_error_logged (tline token) (tpos token)
                             [Lit ''Expected object identifier''] p)
                else if kind token \<noteq> START_OBJECT
                then Some (parser_error_logged (tline token) (tpos token)
                             [Lit ''Expected start of object''] p)
                else
                  and_then
                    (check_object_logged n h object_type token (obj_table object_type)
                       disposition p)
                    (\<lambda>u p. STCParser_parse_logged n h obj_table p))))))"

text \<open>The parser types of \<open>_PARSER_MAPPING\<close> in \<open>validate.py\<close>, the tables of the three
  modules, and \<open>parser.parse()\<close> for a parser of a given type.\<close>

datatype parser_type = DSCParser | SSCParser | STCParser

record tables =
  dsc_DSO_PROPERTIES :: "ustr \<Rightarrow> (ustr \<Rightarrow> PropertyDef option) option"
  ssc_OBJ_PROPERTIES :: "ustr \<Rightarrow> (ustr \<Rightarrow> PropertyDef option) option"
  ssc_BODY_PROPERTIES :: "ustr \<Rightarrow> PropertyDef option"
  stc_OBJ_PROPERTIES :: "ustr \<Rightarrow> ustr \<Rightarrow> PropertyDef option"

definition parse_logged ::
  "nat \<Rightarrow> parser_type \<Rightarrow> tables \<Rightarrow> hooks \<Rightarrow> LoggedParser \<Rightarrow> (unit, LoggedParser) res option"
  where
  "parse_logged n parser_type tb h p =
     (case parser_type of
        DSCParser \<Rightarrow> DSCParser_parse_logged n h (dsc_DSO_PROPERTIES tb) p
      | SSCParser \<Rightarrow>
          SSCParser_parse_logged n h (ssc_OBJ_PROPERTIES tb) (ssc_BODY_PROPERTIES tb) p
      | STCParser \<Rightarrow> STCParser_parse_logged n h (stc_OBJ_PROPERTIES tb) p)"

section \<open>Notions used in the statements\<close>

text \<open>The messages of the three fatal errors of the lexer.\<close>

definition lexer_errors :: "string set" where
  "lexer_errors =
     {''Unterminated string'', ''Unterminated escape sequence'', ''Unterminated Unicode escape''}"

text \<open>\<open>fatal_in allowed before tz'\<close>: the messages of the tokenizer \<open>tz'\<close> are those of
  \<open>before\<close>, unchanged, then warnings, then one error at the place where \<open>tz'\<close> stands,
  with a message among \<open>allowed\<close>.\<close>

definition fatal_in :: "string set \<Rightarrow> ParsingMessage list \<Rightarrow> Tokenizer \<Rightarrow> bool" where
  "fatal_in allowed before tz' \<longleftrightarrow>
     (\<exists>ws msg.
        messages tz' = before @ ws @
          [\<lparr>msg_line = line_number tz', msg_pos = pos tz', level = ERROR, message = [Lit msg]\<rparr>]
        \<and> (\<forall>w\<in>set ws. level w = WARN)
        \<and> msg \<in> allowed)"

text \<open>The rest of a line inside a string literal that does not close on this line and
  whose backslashes each begin one of the escapes \<open>\"\<close>, \<open>\\\<close> and \<open>\n\<close>.\<close>

fun open_text :: "ustr \<Rightarrow> bool" where
  "open_text [] = True"
| "open_text (c # cs) =
     (if c = QUOTE then False
      else if c = BACKSLASH then
        (case cs of
           [] \<Rightarrow> False
         | d # ds \<Rightarrow> (d = QUOTE \<or> d = BACKSLASH \<or> d = 110) \<and> open_text ds)
      else open_text cs)"

text \<open>What such a text stands for: each escape replaced by the quote, the backslash or
  the newline.\<close>

fun decoded :: "ustr \<Rightarrow> ustr" where
  "decoded [] = []"
| "decoded (c # cs) =
     (if c = BACKSLASH then
        (case cs of
           [] \<Rightarrow> []
         | d # ds \<Rightarrow> (if d = 110 then NEWLINE else d) # decoded ds)
      else c # decoded cs)"

text \<open>The coordinates of a diagnostic, the place where a token begins, and the place where
  the lexer stands.\<close>

definition coordinates :: "ParsingMessage \<Rightarrow> nat \<times> nat" where
  "coordinates m = (msg_line m, msg_pos m)"

definition start :: "Token \<Rightarrow> nat \<times> nat" where
  "start token = (tline token, tpos token)"

definition place :: "Tokenizer \<Rightarrow> nat \<times> nat" where
  "place tz = (line_number tz, pos tz)"

text \<open>The object as a call leaves it, whether the call returns or raises.\<close>

definition state_of :: "('a, 's) res \<Rightarrow> 's" where
  "state_of r = (case r of Ok a s \<Rightarrow> s | Raise e s \<Rightarrow> s)"

text \<open>\<open>lexer_moves tz tz'\<close>: from \<open>tz\<close> to \<open>tz'\<close> the lexer has not gone back, and its list
  has only grown, by diagnostics that lie at or after the place where \<open>tz\<close> stood.\<close>

definition lexer_moves :: "Tokenizer \<Rightarrow> Tokenizer \<Rightarrow> bool" where
  "lexer_moves tz tz' \<longleftrightarrow>
     place tz \<le> place tz' \<and>
     (\<exists>new. messages tz' = messages tz @ new \<and> (\<forall>m\<in>set new. place tz \<le> coordinates m))"

text \<open>The overriding methods report at the token they are given, as those of the three
  parsers do: \<open>_validate_string\<close> and \<open>_validate_number\<close> call \<open>self._warn\<close> and
  \<open>self._info\<close> with \<open>token.line, token.pos\<close>, and \<open>_check_properties\<close> calls \<open>self._warn\<close>
  with \<open>open_token.line, open_token.pos\<close>.\<close>

definition hooks_report_at_token :: "hooks \<Rightarrow> bool" where
  "hooks_report_at_token h \<longleftrightarrow>
     (\<forall>object_name property_name token.
        \<forall>m\<in>set (validate_string h object_name property_name token).
          coordinates m = start token) \<and>
     (\<forall>object_name property_name token.
        \<forall>m\<in>set (validate_number h object_name property_name token).
          coordinates m = start token) \<and>
     (\<forall>object_name open_token parsed_properties disposition.
        \<forall>m\<in>set (check_properties h object_name open_token parsed_properties disposition).
          coordinates m = start open_token)"

text \<open>\<open>log_agrees p\<close>: the history holds the diagnostics of the two lists, and for every
  \<open>(line, pos)\<close> the diagnostics at \<open>(line, pos)\<close> were emitted in this order: first those of
  the lexer, then those of the engine, each in the order of its list. So no diagnostic of
  the lexer was emitted after one of the engine with the same coordinates.\<close>

definition log_agrees :: "LoggedParser \<Rightarrow> bool" where
  "log_agrees p \<longleftrightarrow>
     mset (emitted p) = mset (messages (tokenizer (parser p)) @ p_messages (parser p)) \<and>
     (\<forall>k. filter (\<lambda>m. coordinates m = k) (emitted p) =
          filter (\<lambda>m. coordinates m = k) (messages (tokenizer (parser p))) @
          filter (\<lambda>m. coordinates m = k) (p_messages (parser p)))"

text \<open>\<open>behind T p\<close>, the invariant of a run: the history agrees with the two lists, and the
  lexer stands after every diagnostic of the engine, after the saved token, and after the
  places \<open>T\<close>, where the tokens begin that the running methods hold.\<close>

definition behind :: "(nat \<times> nat) set \<Rightarrow> LoggedParser \<Rightarrow> bool" where
  "behind T p \<longleftrightarrow>
     log_agrees p \<and>
     (\<forall>e\<in>set (p_messages (parser p)). coordinates e < place (tokenizer (parser p))) \<and>
     (\<forall>t. saved_token (parser p) = Some t \<longrightarrow> start t < place (tokenizer (parser p))) \<and>
     (\<forall>k\<in>T. k < place (tokenizer (parser p)))"

text \<open>\<open>post Q r\<close>, what a call leaves: \<open>Q\<close> of the value and the object when it returns,
  a history that agrees with the two lists when it raises.\<close>

definition post :: "('a \<Rightarrow> LoggedParser \<Rightarrow> bool) \<Rightarrow> ('a, LoggedParser) res option \<Rightarrow> bool" where
  "post Q r =
     (case r of None \<Rightarrow> True | Some (Ok a p) \<Rightarrow> Q a p | Some (Raise e p) \<Rightarrow> log_agrees p)"

text \<open>A result without the history.\<close>

definition erase :: "('a, LoggedParser) res option \<Rightarrow> ('a, TokenFileParser) res option" where
  "erase r = map_option (map_res id parser) r"

section \<open>Properties\<close>

subsection \<open>The \<open>messages\<close> property\<close>

text \<open>
  The list that the \<open>messages\<close> property returns is sorted by \<open>(line, pos)\<close>, and the
  messages with one and the same \<open>(line, pos)\<close> keep the order of the lexer's list followed
  by the engine's list.
\<close>

lemma messages_sorted_stable:
  "sorted (map (\<lambda>m. (msg_line m, msg_pos m)) (TokenFileParser_messages p)) \<and>
   (\<forall>k. filter (\<lambda>m. (msg_line m, msg_pos m) = k) (TokenFileParser_messages p) =
        filter (\<lambda>m. (msg_line m, msg_pos m) = k) (messages (tokenizer p)) @
        filter (\<lambda>m. (msg_line m, msg_pos m) = k) (p_messages p))"
  by (simp add: TokenFileParser_messages_def sort_key_stable)

subsection \<open>Evaluating the lexer and the engine on a given input\<close>

lemmas tokenizer_eval =
  Tokenizer_next_def next_loop.simps read_line_def rstrip_def isspace_def read_string_def
  read_string_loop.simps parse_escape_def Let_def Tokenizer_warn_def Tokenizer_error_def
  single_char_kind_def NAME_REGEX_match_def NUMBER_REGEX_match_def mantissa_length_def
  exponent_length_def name_start_def name_char_def is_digit_def str_def

lemmas eval_congs = res.case_cong_weak option.case_cong_weak list.case_cong_weak

lemma UNIT_TYPES_mas: "UNIT_TYPES (str ''mas'') = Some ANGLE"
  by (simp add: UNIT_TYPES_def str_def)

subsection \<open>A unit of the wrong class\<close>

text \<open>
  C7. \<open>_check_units\<close> is entered after the \<open><\<close> of a units block, for a property of unit
  category Length. When the next two tokens are the name \<open>mas\<close> and the closing \<open>>\<close>, it
  returns with exactly one diagnostic added, the warning that the unit type \<open>mas\<close> is
  unexpected, at the coordinates of the name; the warning for an empty unit block is not
  added.
\<close>

theorem check_units_wrong_class:
  assumes "saved_token p = None"
    and "Tokenizer_next (tokenizer p) = Ok t1 tz1"
    and "kind t1 = NAME" and "tvalue t1 = VStr (str ''mas'')"
    and "Tokenizer_next tz1 = Ok t2 tz2"
    and "kind t2 = END_UNITS"
  shows "check_units (Suc (Suc n)) LENGTH p =
     Some (Ok () (p\<lparr>tokenizer := tz2,
        p_messages := p_messages p @
          [\<lparr>msg_line = tline t1, msg_pos = tpos t1, level = WARN,
            message = [Lit ''Unexpected unit type '', Str (str ''mas''), Lit '' ignored'']\<rparr>]\<rparr>))"
  using assms
  by (simp add: check_units_def next_tok_def next_token_def and_then_def str_value_def
      UNIT_TYPES_mas parser_warn_def emit_def)

theorem check_units_wrong_class_witness:
  "Tokenizer_next (Tokenizer_init [str ''mas> 1'']) =
     Ok \<lparr>kind = NAME, tline = 1, tpos = 0, tvalue = VStr (str ''mas'')\<rparr>
        \<lparr>f_lines = [], line = str ''mas> 1'', pos = 3, line_number = 1, messages = []\<rparr> \<and>
   Tokenizer_next
     \<lparr>f_lines = [], line = str ''mas> 1'', pos = 3, line_number = 1, messages = []\<rparr> =
     Ok \<lparr>kind = END_UNITS, tline = 1, tpos = 3, tvalue = VNone\<rparr>
        \<lparr>f_lines = [], line = str ''mas> 1'', pos = 4, line_number = 1, messages = []\<rparr> \<and>
   check_units (Suc (Suc 0)) LENGTH (TokenFileParser_init [str ''mas> 1'']) =
     Some (Ok ()
       \<lparr>tokenizer =
          \<lparr>f_lines = [], line = str ''mas> 1'', pos = 4, line_number = 1, messages = []\<rparr>,
        p_messages =
          [\<lparr>msg_line = 1, msg_pos = 0, level = WARN,
            message = [Lit ''Unexpected unit type '', Str (str ''mas''), Lit '' ignored'']\<rparr>],
        saved_token = None\<rparr>)"
proof -
  let ?tz1 = "\<lparr>f_lines = [], line = str ''mas> 1'', pos = 3, line_number = 1, messages = []\<rparr>"
  let ?tz2 = "\<lparr>f_lines = [], line = str ''mas> 1'', pos = 4, line_number = 1, messages = []\<rparr>"
  let ?t1 = "\<lparr>kind = NAME, tline = 1, tpos = 0, tvalue = VStr (str ''mas'')\<rparr>"
  let ?t2 = "\<lparr>kind = END_UNITS, tline = 1, tpos = 3, tvalue = VNone\<rparr>"
  have 1: "Tokenizer_next (Tokenizer_init [str ''mas> 1'']) = Ok ?t1 ?tz1"
    by (simp add: tokenizer_eval Tokenizer_init_def cong: eval_congs)
  have 2: "Tokenizer_next ?tz1 = Ok ?t2 ?tz2"
    by (simp add: tokenizer_eval cong: eval_congs)
  have 3: "Tokenizer_next (tokenizer (TokenFileParser_init [str ''mas> 1''])) = Ok ?t1 ?tz1"
    using 1 by (simp add: TokenFileParser_init_def)
  show ?thesis
    using 1 2
      check_units_wrong_class
        [of "TokenFileParser_init [str ''mas> 1'']" ?t1 ?tz1 ?t2 ?tz2 0, OF _ 3 _ _ 2]
    by (simp add: TokenFileParser_init_def)
qed

subsection \<open>Colour texts and date texts\<close>

lemma COLOR_REGEX_no_newline:
  assumes "v = [] \<or> last v \<noteq> NEWLINE"
  shows "COLOR_REGEX_match v \<longleftrightarrow>
    v \<noteq> [] \<and> hd v = HASH \<and> list_all is_hex_digit (tl v) \<and> 3 \<le> length (tl v) \<and> length (tl v) \<le> 8"
proof (cases v)
  case Nil
  then show ?thesis by (simp add: COLOR_REGEX_match_def)
next
  case (Cons c cs)
  have nl: "dropWhile is_hex_digit cs \<noteq> [NEWLINE]"
  proof
    assume d: "dropWhile is_hex_digit cs = [NEWLINE]"
    then have "cs \<noteq> []" by auto
    moreover have "last cs = last (dropWhile is_hex_digit cs)"
      using d by (metis last_appendR not_Cons_self2 takeWhile_dropWhile_id)
    ultimately have "last v = NEWLINE" using Cons d by simp
    with assms Cons show False by simp
  qed
  have all: "dropWhile is_hex_digit cs = [] \<longleftrightarrow> list_all is_hex_digit cs"
    by (simp add: list_all_iff)
  show ?thesis
  proof (cases "list_all is_hex_digit cs")
    case True
    then have tw: "takeWhile is_hex_digit cs = cs" by (simp add: list_all_iff)
    from True all have dw: "dropWhile is_hex_digit cs = []" by simp
    from True Cons show ?thesis
      by (auto simp: COLOR_REGEX_match_def at_dollar_def tw list_all_iff)
  next
    case False
    with all have "dropWhile is_hex_digit cs \<noteq> []" by simp
    with False nl Cons show ?thesis
      by (auto simp: COLOR_REGEX_match_def at_dollar_def list_all_iff)
  qed
qed

lemma color_string_ok_no_newline:
  assumes "v = [] \<or> last v \<noteq> NEWLINE"
  shows "color_string_ok v \<longleftrightarrow>
    v \<in> X11_COLORS \<or>
    (v \<noteq> [] \<and> hd v = HASH \<and> list_all is_hex_digit (tl v) \<and>
     (length (tl v) = 3 \<or> length (tl v) = 6 \<or> length (tl v) = 8))"
  unfolding color_string_ok_def COLOR_REGEX_no_newline [OF assms]
  by (cases v) auto

text \<open>\<open>_check_value\<close> for a \<open>Color\<close> or a \<open>Date\<close> property when the next token is a
  \<open>STRING\<close>.\<close>

lemma check_value_with_string_token:
  assumes "saved_token p = None"
    and "Tokenizer_next (tokenizer p) = Ok token tz'"
    and "kind token = STRING"
  shows "check_value_with nested_object nested_list n h object_name property_name DT_COLOR units_type p =
     Some (Ok ()
       (if color_string_ok (str_value token) then p\<lparr>tokenizer := tz'\<rparr>
        else p\<lparr>tokenizer := tz',
               p_messages := p_messages p @
                 [\<lparr>msg_line = tline token, msg_pos = tpos token, level = WARN,
                   message = [Lit ''Could not parse '', Repr (str_value token),
                              Lit '' as a valid color'']\<rparr>]\<rparr>))"
  and "check_value_with nested_object nested_list n h object_name property_name DT_DATE units_type p =
     Some (Ok ()
       (if check_date_string (str_value token) then p\<lparr>tokenizer := tz'\<rparr>
        else p\<lparr>tokenizer := tz',
               p_messages := p_messages p @
                 [\<lparr>msg_line = tline token, msg_pos = tpos token, level = WARN,
                   message = [Lit ''Invalid date string for '', Str property_name]\<rparr>]\<rparr>))"
  using assms
  by (simp_all add: check_value_with_def next_tok_def next_token_def and_then_def matched_def
      parser_warn_def emit_def)

lemma check_date_string_february:
  assumes "date_groups s = Some m"
    and "py_int (year m) = Some y" and "py_int (month m) = Some 2"
    and "py_int (day m) = Some d" and "check_time_of_day m"
  shows "check_date_string s \<longleftrightarrow>
    1 \<le> d \<and> d \<le> (if y mod 4 = 0 \<and> (y \<le> 1582 \<or> y mod 100 \<noteq> 0 \<or> y mod 400 = 0)
                 then 29 else 28)"
  using assms
  by (auto simp: check_date_string_def check_date_match_def check_month_def check_day_def
      month_days_def)

lemmas date_eval =
  check_date_string_def date_groups_def ISO_DATE_REGEX_match_def NORMAL_REGEX_match_def
  year_run_def digits_run_def lit_def spaces1_def seconds_run_def time_run_def
  opt_seconds_run_def at_dollar_def isspace_def is_digit_def str_def check_date_match_def
  check_month_def check_day_def check_time_of_day_def check_minute_def check_seconds_def
  month_days_def py_int_def nat_of_digits_def int_max_str_digits_def Let_def

subsection \<open>Colour texts\<close>

text \<open>
  C9, as the code has it. For a \<open>Color\<close> property whose value is a \<open>STRING\<close> token with a
  text that does not end in a newline: \<open>_check_value\<close> returns, and it adds no diagnostic
  when the text is a named colour or is \<open>#\<close> followed by exactly 3, 6 or 8 hexadecimal
  digits (4, 7 or 9 characters in all); for every other such text it adds exactly the
  warning that the text could not be parsed as a colour. (The claim also lists 4 digits,
  which the length test of the code excludes.)
\<close>

theorem color_string_value:
  assumes "saved_token p = None"
    and "Tokenizer_next (tokenizer p) = Ok token tz'"
    and "kind token = STRING" and "tvalue token = VStr v"
    and "v = [] \<or> last v \<noteq> NEWLINE"
  shows "check_value (Suc n) h object_name property_name DT_COLOR units_type p =
     Some (Ok ()
       (if v \<in> X11_COLORS \<or>
           (v \<noteq> [] \<and> hd v = HASH \<and> list_all is_hex_digit (tl v) \<and>
            (length (tl v) = 3 \<or> length (tl v) = 6 \<or> length (tl v) = 8))
        then p\<lparr>tokenizer := tz'\<rparr>
        else p\<lparr>tokenizer := tz',
               p_messages := p_messages p @
                 [\<lparr>msg_line = tline token, msg_pos = tpos token, level = WARN,
                   message = [Lit ''Could not parse '', Repr v, Lit '' as a valid color'']\<rparr>]\<rparr>))"
proof -
  have v: "str_value token = v" using assms(4) by (simp add: str_value_def)
  show ?thesis
    unfolding check_value.simps check_value_with_string_token(1) [OF assms(1-3)] v
      color_string_ok_no_newline [OF assms(5)]
    by simp
qed

theorem color_string_value_witness:
  "Tokenizer_next (Tokenizer_init [[QUOTE] @ str ''#abc'' @ [QUOTE]]) =
     Ok \<lparr>kind = STRING, tline = 1, tpos = 0, tvalue = VStr (str ''#abc'')\<rparr>
        \<lparr>f_lines = [], line = [QUOTE] @ str ''#abc'' @ [QUOTE], pos = 6, line_number = 1,
         messages = []\<rparr> \<and>
   last (str ''#abc'') \<noteq> NEWLINE \<and>
   check_value (Suc 0) (plain_hooks) (str ''Body'') (str ''Color'')
       DT_COLOR None (TokenFileParser_init [[QUOTE] @ str ''#abc'' @ [QUOTE]]) =
     Some (Ok ()
       \<lparr>tokenizer =
          \<lparr>f_lines = [], line = [QUOTE] @ str ''#abc'' @ [QUOTE], pos = 6, line_number = 1,
           messages = []\<rparr>,
        p_messages = [], saved_token = None\<rparr>)"
proof -
  let ?tok = "\<lparr>kind = STRING, tline = 1, tpos = 0, tvalue = VStr (str ''#abc'')\<rparr>"
  let ?tz = "\<lparr>f_lines = [], line = [QUOTE] @ str ''#abc'' @ [QUOTE], pos = 6, line_number = 1,
         messages = []\<rparr>"
  let ?p = "TokenFileParser_init [[QUOTE] @ str ''#abc'' @ [QUOTE]]"
  have 1: "Tokenizer_next (Tokenizer_init [[QUOTE] @ str ''#abc'' @ [QUOTE]]) = Ok ?tok ?tz"
    by (simp add: tokenizer_eval Tokenizer_init_def cong: eval_congs)
  have 2: "Tokenizer_next (tokenizer ?p) = Ok ?tok ?tz"
    using 1 by (simp add: TokenFileParser_init_def)
  have 3: "str ''#abc'' = [] \<or> last (str ''#abc'') \<noteq> NEWLINE"
    by (simp add: str_def)
  have 4: "list_all is_hex_digit (tl (str ''#abc'')) \<and> hd (str ''#abc'') = HASH
      \<and> length (tl (str ''#abc'')) = 3 \<and> str ''#abc'' \<noteq> []"
    by (simp add: str_def is_hex_digit_def is_digit_def)
  show ?thesis
    using 1 3 4
      color_string_value [of ?p ?tok ?tz "str ''#abc''" 0 "plain_hooks"
        "str ''Body''" "str ''Color''" None, OF _ 2 _ _ 3]
    by (simp add: TokenFileParser_init_def)
qed

text \<open>
  The claim fails in both directions: \<open>#abcd\<close>, which is \<open>#\<close> followed by four hexadecimal
  digits, gets the warning; and the literal \<open>"#abcde\n"\<close>, whose text is \<open>#\<close>, five digits
  and a newline and is no named colour, gets none.
\<close>

theorem color_string_counterexample:
  "list_all is_hex_digit (str ''abcd'') \<and>
   check_value (Suc 0) (plain_hooks) (str ''Body'') (str ''Color'')
       DT_COLOR None (TokenFileParser_init [[QUOTE] @ str ''#abcd'' @ [QUOTE]]) =
     Some (Ok ()
       \<lparr>tokenizer =
          \<lparr>f_lines = [], line = [QUOTE] @ str ''#abcd'' @ [QUOTE], pos = 7, line_number = 1,
           messages = []\<rparr>,
        p_messages =
          [\<lparr>msg_line = 1, msg_pos = 0, level = WARN,
            message = [Lit ''Could not parse '', Repr (str ''#abcd''),
                       Lit '' as a valid color'']\<rparr>],
        saved_token = None\<rparr>) \<and>
   str ''#abcde'' @ [NEWLINE] \<notin> X11_COLORS \<and>
   check_value (Suc 0) (plain_hooks) (str ''Body'') (str ''Color'')
       DT_COLOR None
       (TokenFileParser_init [[QUOTE] @ str ''#abcde'' @ [BACKSLASH, 110, QUOTE]]) =
     Some (Ok ()
       \<lparr>tokenizer =
          \<lparr>f_lines = [], line = [QUOTE] @ str ''#abcde'' @ [BACKSLASH, 110, QUOTE], pos = 10,
           line_number = 1, messages = []\<rparr>,
        p_messages = [], saved_token = None\<rparr>)"
proof -
  let ?h = "plain_hooks"
  let ?tok1 = "\<lparr>kind = STRING, tline = 1, tpos = 0, tvalue = VStr (str ''#abcd'')\<rparr>"
  let ?tz1 = "\<lparr>f_lines = [], line = [QUOTE] @ str ''#abcd'' @ [QUOTE], pos = 7,
      line_number = 1, messages = []\<rparr>"
  let ?tok2 = "\<lparr>kind = STRING, tline = 1, tpos = 0, tvalue = VStr (str ''#abcde'' @ [NEWLINE])\<rparr>"
  let ?tz2 = "\<lparr>f_lines = [], line = [QUOTE] @ str ''#abcde'' @ [BACKSLASH, 110, QUOTE],
      pos = 10, line_number = 1, messages = []\<rparr>"
  have t1: "Tokenizer_next (Tokenizer_init [[QUOTE] @ str ''#abcd'' @ [QUOTE]]) = Ok ?tok1 ?tz1"
    by (simp add: tokenizer_eval Tokenizer_init_def cong: eval_congs)
  have t2: "Tokenizer_next (Tokenizer_init [[QUOTE] @ str ''#abcde'' @ [BACKSLASH, 110, QUOTE]])
      = Ok ?tok2 ?tz2"
    by (simp add: tokenizer_eval Tokenizer_init_def cong: eval_congs)
  have n1: "str ''#abcd'' \<notin> X11_COLORS"
    by (simp add: X11_COLORS_def X11_COLOR_NAMES_def str_def)
  have n2: "str ''#abcde'' @ [NEWLINE] \<notin> X11_COLORS"
    by (simp add: X11_COLORS_def X11_COLOR_NAMES_def str_def)
  have c1: "\<not> color_string_ok (str ''#abcd'')"
    using n1 by (simp add: color_string_ok_def str_def)
  have c2: "color_string_ok (str ''#abcde'' @ [NEWLINE])"
    by (simp add: color_string_ok_def COLOR_REGEX_match_def at_dollar_def str_def
        is_hex_digit_def is_digit_def)
  have h: "list_all is_hex_digit (str ''abcd'')"
    by (simp add: str_def is_hex_digit_def is_digit_def)
  have r1: "check_value (Suc 0) ?h (str ''Body'') (str ''Color'') DT_COLOR None
       (TokenFileParser_init [[QUOTE] @ str ''#abcd'' @ [QUOTE]]) =
     Some (Ok () \<lparr>tokenizer = ?tz1,
        p_messages =
          [\<lparr>msg_line = 1, msg_pos = 0, level = WARN,
            message = [Lit ''Could not parse '', Repr (str ''#abcd''),
                       Lit '' as a valid color'']\<rparr>],
        saved_token = None\<rparr>)"
    using c1 t1
    by (simp add: check_value_with_string_token(1) TokenFileParser_init_def str_value_def)
  have r2: "check_value (Suc 0) ?h (str ''Body'') (str ''Color'') DT_COLOR None
       (TokenFileParser_init [[QUOTE] @ str ''#abcde'' @ [BACKSLASH, 110, QUOTE]]) =
     Some (Ok () \<lparr>tokenizer = ?tz2, p_messages = [], saved_token = None\<rparr>)"
    using c2 t2
    by (simp add: check_value_with_string_token(1) TokenFileParser_init_def str_value_def)
  from h r1 n2 r2 show ?thesis by blast
qed

subsection \<open>February in the date validator\<close>

text \<open>
  C8, as the code has it. For a \<open>Date\<close> property whose value is a \<open>STRING\<close> token with a
  text that one of the two date expressions matches, with month 2 and a valid time of day
  (or none): \<open>_check_value\<close> returns, and it adds no diagnostic exactly when the day is
  between 1 and the length of February, which is 29 in the years divisible by 4 that are
  at most 1582, or not divisible by 100, or divisible by 400, and 28 in every other year;
  otherwise it adds exactly the warning for an invalid date text. (In the claim every year
  up to 1582 is a leap year; in the code the years up to 1582 follow the Julian rule.)
\<close>

theorem february_days:
  assumes "saved_token p = None"
    and "Tokenizer_next (tokenizer p) = Ok token tz'"
    and "kind token = STRING" and "tvalue token = VStr s"
    and "date_groups s = Some m"
    and "py_int (year m) = Some y" and "py_int (month m) = Some 2"
    and "py_int (day m) = Some d" and "check_time_of_day m"
  shows "check_value (Suc n) h object_name property_name DT_DATE units_type p =
     Some (Ok ()
       (if 1 \<le> d \<and>
           d \<le> (if y mod 4 = 0 \<and> (y \<le> 1582 \<or> y mod 100 \<noteq> 0 \<or> y mod 400 = 0)
                then 29 else 28)
        then p\<lparr>tokenizer := tz'\<rparr>
        else p\<lparr>tokenizer := tz',
               p_messages := p_messages p @
                 [\<lparr>msg_line = tline token, msg_pos = tpos token, level = WARN,
                   message = [Lit ''Invalid date string for '', Str property_name]\<rparr>]\<rparr>))"
proof -
  have s: "str_value token = s" using assms(4) by (simp add: str_value_def)
  show ?thesis
    unfolding check_value.simps check_value_with_string_token(2) [OF assms(1-3)] s
      check_date_string_february [OF assms(5-9)]
    by simp
qed

theorem february_days_witness:
  "Tokenizer_next (Tokenizer_init [[QUOTE] @ str ''2000 2 29'' @ [QUOTE]]) =
     Ok \<lparr>kind = STRING, tline = 1, tpos = 0, tvalue = VStr (str ''2000 2 29'')\<rparr>
        \<lparr>f_lines = [], line = [QUOTE] @ str ''2000 2 29'' @ [QUOTE], pos = 11,
         line_number = 1, messages = []\<rparr> \<and>
   date_groups (str ''2000 2 29'') =
     Some \<lparr>year = str ''2000'', month = str ''2'', day = str ''29'', hour = None,
           minute = None, second = None\<rparr> \<and>
   py_int (str ''2000'') = Some 2000 \<and> py_int (str ''2'') = Some 2 \<and>
   py_int (str ''29'') = Some 29 \<and>
   check_value (Suc 0) (plain_hooks) (str ''EllipticalOrbit'')
       (str ''Epoch'') DT_DATE None
       (TokenFileParser_init [[QUOTE] @ str ''2000 2 29'' @ [QUOTE]]) =
     Some (Ok ()
       \<lparr>tokenizer =
          \<lparr>f_lines = [], line = [QUOTE] @ str ''2000 2 29'' @ [QUOTE], pos = 11,
           line_number = 1, messages = []\<rparr>,
        p_messages = [], saved_token = None\<rparr>)"
proof -
  let ?tok = "\<lparr>kind = STRING, tline = 1, tpos = 0, tvalue = VStr (str ''2000 2 29'')\<rparr>"
  let ?tz = "\<lparr>f_lines = [], line = [QUOTE] @ str ''2000 2 29'' @ [QUOTE], pos = 11,
         line_number = 1, messages = []\<rparr>"
  let ?m = "\<lparr>year = str ''2000'', month = str ''2'', day = str ''29'', hour = None,
           minute = None, second = None\<rparr>"
  let ?p = "TokenFileParser_init [[QUOTE] @ str ''2000 2 29'' @ [QUOTE]]"
  have 1: "Tokenizer_next (Tokenizer_init [[QUOTE] @ str ''2000 2 29'' @ [QUOTE]]) = Ok ?tok ?tz"
    by (simp add: tokenizer_eval Tokenizer_init_def cong: eval_congs)
  have 2: "Tokenizer_next (tokenizer ?p) = Ok ?tok ?tz"
    using 1 by (simp add: TokenFileParser_init_def)
  have 3: "date_groups (str ''2000 2 29'') = Some ?m"
    by (simp add: date_eval)
  have 4: "py_int (year ?m) = Some 2000" "py_int (month ?m) = Some 2"
    "py_int (day ?m) = Some 29" "check_time_of_day ?m"
    by (simp_all add: date_eval)
  show ?thesis
    using 1 3 4
      february_days [of ?p ?tok ?tz "str ''2000 2 29''" ?m 2000 29 0
        "plain_hooks" "str ''EllipticalOrbit''" "str ''Epoch''" None,
        OF _ 2 _ _ 3 4]
    by (simp add: TokenFileParser_init_def)
qed

text \<open>
  The year 1581 is at most 1582 and not divisible by 4: the 29th of February 1581 gets the
  warning.
\<close>

theorem february_days_counterexample:
  "(1581::int) \<le> 1582 \<and>
   check_value (Suc 0) (plain_hooks) (str ''EllipticalOrbit'')
       (str ''Epoch'') DT_DATE None
       (TokenFileParser_init [[QUOTE] @ str ''1581 2 29'' @ [QUOTE]]) =
     Some (Ok ()
       \<lparr>tokenizer =
          \<lparr>f_lines = [], line = [QUOTE] @ str ''1581 2 29'' @ [QUOTE], pos = 11,
           line_number = 1, messages = []\<rparr>,
        p_messages =
          [\<lparr>msg_line = 1, msg_pos = 0, level = WARN,
            message = [Lit ''Invalid date string for '', Str (str ''Epoch'')]\<rparr>],
        saved_token = None\<rparr>)"
proof -
  let ?tok = "\<lparr>kind = STRING, tline = 1, tpos = 0, tvalue = VStr (str ''1581 2 29'')\<rparr>"
  let ?tz = "\<lparr>f_lines = [], line = [QUOTE] @ str ''1581 2 29'' @ [QUOTE], pos = 11,
         line_number = 1, messages = []\<rparr>"
  have 1: "Tokenizer_next (Tokenizer_init [[QUOTE] @ str ''1581 2 29'' @ [QUOTE]]) = Ok ?tok ?tz"
    by (simp add: tokenizer_eval Tokenizer_init_def cong: eval_congs)
  have 2: "\<not> check_date_string (str ''1581 2 29'')"
    by (simp add: date_eval)
  show ?thesis
    using 1 2
    by (simp add: check_value_with_string_token(2) TokenFileParser_init_def str_value_def)
qed

subsection \<open>Fatal errors of the lexer\<close>

lemma lexer_fatal_after_warnings:
  assumes "fatal_in allowed (before @ ws0) tz'" and "\<forall>w\<in>set ws0. level w = WARN"
  shows "fatal_in allowed before tz'"
proof -
  from assms(1) obtain ws msg where
    m: "messages tz' = (before @ ws0) @ ws @
          [\<lparr>msg_line = line_number tz', msg_pos = pos tz', level = ERROR, message = [Lit msg]\<rparr>]"
    and w: "\<forall>w\<in>set ws. level w = WARN"
    and t: "msg \<in> allowed"
    unfolding fatal_in_def by blast
  from m have "messages tz' = before @ (ws0 @ ws) @
          [\<lparr>msg_line = line_number tz', msg_pos = pos tz', level = ERROR, message = [Lit msg]\<rparr>]"
    by simp
  moreover from w assms(2) have "\<forall>w\<in>set (ws0 @ ws). level w = WARN" by auto
  ultimately show ?thesis unfolding fatal_in_def using t by blast
qed

lemma lexer_fatal_warn:
  "fatal_in allowed (messages (Tokenizer_warn m tz)) tz' \<Longrightarrow> fatal_in allowed (messages tz) tz'"
  by (rule lexer_fatal_after_warnings [where ?ws0.0 = "[\<lparr>msg_line = line_number tz, msg_pos = pos tz, level = WARN, message = m\<rparr>]"])
    (simp_all add: Tokenizer_warn_def)

lemma lexer_fatal_error:
  assumes "tz' = tz\<lparr>messages := messages tz @
        [\<lparr>msg_line = line_number tz, msg_pos = pos tz, level = ERROR, message = [Lit msg]\<rparr>]\<rparr>"
    and "msg \<in> allowed"
  shows "fatal_in allowed (messages tz) tz'"
  using assms unfolding fatal_in_def
  by (intro exI [of _ "[]"] exI [of _ msg]) auto

lemma read_line_messages:
  "read_line tz = Ok u tz1 \<Longrightarrow> messages tz1 = messages tz"
  "read_line tz = Raise e tz1 \<Longrightarrow> messages tz1 = messages tz \<and> e = StopIteration"
  by (auto simp: read_line_def split: list.splits if_splits)

lemma parse_escape_fatal:
  assumes "parse_escape tz = Raise ParsingError tz'"
  shows "fatal_in lexer_errors (messages tz) tz'"
proof -
  from assms consider
    "tz' = tz\<lparr>messages := messages tz @
        [\<lparr>msg_line = line_number tz, msg_pos = pos tz, level = ERROR,
          message = [Lit ''Unterminated escape sequence'']\<rparr>]\<rparr>"
    | "tz' = tz\<lparr>pos := pos tz + 1 + 4, messages := messages tz @
        [\<lparr>msg_line = line_number tz, msg_pos = pos tz + 1 + 4, level = ERROR,
          message = [Lit ''Unterminated Unicode escape'']\<rparr>]\<rparr>"
    by (auto simp: parse_escape_def Let_def Tokenizer_error_def split: if_splits option.splits)
  then show ?thesis
  proof cases
    case 1
    then show ?thesis by (rule lexer_fatal_error) (simp add: lexer_errors_def)
  next
    case 2
    have "fatal_in lexer_errors (messages (tz\<lparr>pos := pos tz + 1 + 4\<rparr>)) tz'"
      by (rule lexer_fatal_error [where msg = "''Unterminated Unicode escape''"])
        (simp_all add: 2 lexer_errors_def)
    then show ?thesis by simp
  qed
qed

lemma parse_escape_messages:
  "parse_escape tz = Ok r tz1 \<Longrightarrow> messages tz1 = messages tz"
  by (auto simp: parse_escape_def Let_def Tokenizer_error_def split: if_splits option.splits)

lemma read_string_loop_fatal:
  "read_string_loop l0 p0 out tz = Raise ParsingError tz' \<Longrightarrow> fatal_in lexer_errors (messages tz) tz'"
proof (induction l0 p0 out tz rule: read_string_loop.induct)
  case (1 l0 p0 out tz)
  show ?case
  proof (cases "pos tz = length (line tz)")
    case True
    show ?thesis
    proof (cases "read_line tz")
      case (Ok u tz1)
      with True "1.prems" have "read_string_loop l0 p0 out tz1 = Raise ParsingError tz'"
        by (simp add: read_string_loop.simps [of l0 p0 out tz])
      with "1.IH"(1) [OF True Ok] have "fatal_in lexer_errors (messages tz1) tz'" by simp
      with read_line_messages(1) [OF Ok] show ?thesis by simp
    next
      case (Raise e tz1)
      with read_line_messages(2) [OF Raise] True "1.prems"
      have "tz' = tz1\<lparr>messages := messages tz1 @
        [\<lparr>msg_line = line_number tz1, msg_pos = pos tz1, level = ERROR,
          message = [Lit ''Unterminated string'']\<rparr>]\<rparr>"
        by (simp add: read_string_loop.simps [of l0 p0 out tz] Tokenizer_error_def)
      then have "fatal_in lexer_errors (messages tz1) tz'" by (rule lexer_fatal_error) (simp add: lexer_errors_def)
      with read_line_messages(2) [OF Raise] show ?thesis by simp
    qed
  next
    case False
    note not_end = this
    show ?thesis
    proof (cases "length (line tz) < pos tz \<or> line tz ! pos tz = QUOTE")
      case True
      with not_end "1.prems" show ?thesis
        by (auto simp: read_string_loop.simps [of l0 p0 out tz] split: if_splits)
    next
      case False
      then have a: "\<not> length (line tz) < pos tz" and b: "line tz ! pos tz \<noteq> QUOTE" by auto
      show ?thesis
      proof (cases "line tz ! pos tz = BACKSLASH")
        case True
        show ?thesis
        proof (cases "parse_escape (tz\<lparr>pos := pos tz + 1\<rparr>)")
          case (Raise e tz1)
          with not_end a b True "1.prems" have "e = ParsingError" "tz1 = tz'"
            by (simp_all add: read_string_loop.simps [of l0 p0 out tz])
          with Raise parse_escape_fatal [of "tz\<lparr>pos := pos tz + 1\<rparr>" tz']
          show ?thesis by simp
        next
          case (Ok r tz1)
          show ?thesis
          proof (cases r)
            case None
            with Ok not_end a b True "1.prems" show ?thesis
              by (simp add: read_string_loop.simps [of l0 p0 out tz])
          next
            case (Some c)
            let ?tz2 = "if c = [REPLACEMENT]
                then Tokenizer_warn [Lit ''Invalid UTF-8 in string literal''] tz1 else tz1"
            from Some Ok not_end a b True "1.prems"
            have "read_string_loop l0 p0 (out @ c) ?tz2 = Raise ParsingError tz'"
              by (simp add: read_string_loop.simps [of l0 p0 out tz])
            with "1.IH"(2) [OF not_end a b True Ok Some]
            have "fatal_in lexer_errors (messages ?tz2) tz'" by simp
            then have "fatal_in lexer_errors (messages tz1) tz'"
              by (auto split: if_splits dest: lexer_fatal_warn)
            with parse_escape_messages [OF Ok] show ?thesis by simp
          qed
        qed
      next
        case False
        let ?tz1 = "tz\<lparr>pos := pos tz + 1\<rparr>"
        let ?tz2 = "if line tz ! pos tz = REPLACEMENT
           then Tokenizer_warn [Lit ''Invalid UTF-8 in string literal''] ?tz1 else ?tz1"
        from False not_end a b "1.prems"
        have "read_string_loop l0 p0 (out @ [line tz ! pos tz]) ?tz2 = Raise ParsingError tz'"
          by (simp add: read_string_loop.simps [of l0 p0 out tz])
        with "1.IH"(3) [OF not_end a b False]
        have "fatal_in lexer_errors (messages ?tz2) tz'" by simp
        then have "fatal_in lexer_errors (messages ?tz1) tz'"
          by (auto split: if_splits dest: lexer_fatal_warn)
        then show ?thesis by simp
      qed
    qed
  qed
qed


lemma next_loop_fatal:
  "next_loop tz = Raise ParsingError tz' \<Longrightarrow> fatal_in lexer_errors (messages tz) tz'"
proof (induction tz rule: next_loop.induct)
  case (1 tz)
  show ?case
  proof (cases "pos tz = length (line tz)")
    case True
    show ?thesis
    proof (cases "read_line tz")
      case (Ok u tz1)
      with True "1.prems" have "next_loop tz1 = Raise ParsingError tz'"
        by (simp add: next_loop.simps [of tz])
      with "1.IH"(1) [OF True Ok] read_line_messages(1) [OF Ok] show ?thesis by simp
    next
      case (Raise e tz1)
      with read_line_messages(2) [OF Raise] True "1.prems" show ?thesis
        by (simp add: next_loop.simps [of tz])
    qed
  next
    case False
    note not_end = this
    show ?thesis
    proof (cases "length (line tz) < pos tz")
      case True
      with not_end "1.prems" show ?thesis by (simp add: next_loop.simps [of tz])
    next
      case False
      note a = this
      consider (space) "line tz ! pos tz = TAB \<or> line tz ! pos tz = SPACE"
        | (hash) "\<not> (line tz ! pos tz = TAB \<or> line tz ! pos tz = SPACE)" "line tz ! pos tz = HASH"
        | (quote) "\<not> (line tz ! pos tz = TAB \<or> line tz ! pos tz = SPACE)" "line tz ! pos tz \<noteq> HASH"
            "line tz ! pos tz = QUOTE"
        | (other) "\<not> (line tz ! pos tz = TAB \<or> line tz ! pos tz = SPACE)" "line tz ! pos tz \<noteq> HASH"
            "line tz ! pos tz \<noteq> QUOTE"
        by blast
      then show ?thesis
      proof cases
        case space
        with not_end a "1.prems" have "next_loop (tz\<lparr>pos := pos tz + 1\<rparr>) = Raise ParsingError tz'"
          by (simp add: next_loop.simps [of tz])
        with "1.IH"(2) [OF not_end a space] show ?thesis by simp
      next
        case hash
        with not_end a "1.prems"
        have "next_loop (tz\<lparr>pos := length (line tz)\<rparr>) = Raise ParsingError tz'"
          by (simp add: next_loop.simps [of tz])
        with "1.IH"(3) [OF not_end a hash] show ?thesis by simp
      next
        case quote
        with not_end a "1.prems" have "read_string tz = Raise ParsingError tz'"
          by (simp add: next_loop.simps [of tz])
        then have "fatal_in lexer_errors (messages (tz\<lparr>pos := pos tz + 1\<rparr>)) tz'"
          unfolding read_string_def by (rule read_string_loop_fatal)
        then show ?thesis by simp
      next
        case other
        let ?tz1 = "(Tokenizer_warn
             [Lit ''Unexpected character '', Repr [line tz ! pos tz], Lit '' in file''] tz)
               \<lparr>pos := pos tz + 1\<rparr>"
        from other not_end a "1.prems"
        have k: "single_char_kind (line tz ! pos tz) = None"
          and nm: "NAME_REGEX_match (line tz) (pos tz) = None"
          and nu: "NUMBER_REGEX_match (line tz) (pos tz) = None"
          and r: "next_loop ?tz1 = Raise ParsingError tz'"
          by (auto simp: next_loop.simps [of tz] split: option.splits)
        from "1.IH"(4) [OF not_end a other k nm nu] r
        have "fatal_in lexer_errors (messages ?tz1) tz'" by simp
        then have "fatal_in lexer_errors
            (messages (Tokenizer_warn
               [Lit ''Unexpected character '', Repr [line tz ! pos tz], Lit '' in file''] tz)) tz'"
          by simp
        then show ?thesis by (rule lexer_fatal_warn)
      qed
    qed
  qed
qed

text \<open>
  C10. Whenever the lexer raises \<open>ParsingError\<close> inside \<open>__next__\<close>, the iterator raises
  \<open>StopIteration\<close> instead, in the state the lexer was left in; the lexer has then kept all
  its earlier messages and added warnings and, last, one error for an unterminated string,
  escape sequence or Unicode escape. A parser with no saved token that asks for a token
  with \<open>allow_eof\<close> false records its own error \<open>Unexpected EOF\<close> at the tokenizer's line
  and position and raises \<open>ParsingError\<close>; with \<open>allow_eof\<close> true it gets \<open>None\<close>, as at
  the end of the input.
\<close>

theorem lexer_error_seen_as_eof:
  assumes "next_loop (tokenizer p) = Raise ParsingError tz'" and "saved_token p = None"
  shows "Tokenizer_next (tokenizer p) = Raise StopIteration tz' \<and>
     (\<exists>ws msg.
        messages tz' = messages (tokenizer p) @ ws @
          [\<lparr>msg_line = line_number tz', msg_pos = pos tz', level = ERROR, message = [Lit msg]\<rparr>]
        \<and> (\<forall>w\<in>set ws. level w = WARN)
        \<and> (msg = ''Unterminated string'' \<or> msg = ''Unterminated escape sequence''
            \<or> msg = ''Unterminated Unicode escape'')) \<and>
     next_token kind' message' is_error False p =
       Raise ParsingError
         (p\<lparr>tokenizer := tz',
            p_messages := p_messages p @
              [\<lparr>msg_line = line_number tz', msg_pos = pos tz', level = ERROR,
                message = [Lit ''Unexpected EOF'']\<rparr>]\<rparr>) \<and>
     next_token kind' message' is_error True p = Ok None (p\<lparr>tokenizer := tz'\<rparr>)"
proof -
  have 1: "Tokenizer_next (tokenizer p) = Raise StopIteration tz'"
    using assms(1) by (simp add: Tokenizer_next_def)
  have 2: "fatal_in lexer_errors (messages (tokenizer p)) tz'"
    using assms(1) by (rule next_loop_fatal)
  show ?thesis
    using 1 2 assms(2)
    by (simp add: next_token_def parser_error_def emit_def fatal_in_def lexer_errors_def)
qed

theorem lexer_error_seen_as_eof_witness:
  "next_loop (tokenizer (TokenFileParser_init [[QUOTE] @ str ''abc''])) =
     Raise ParsingError
       \<lparr>f_lines = [], line = [], pos = 4, line_number = 1,
        messages = [\<lparr>msg_line = 1, msg_pos = 4, level = ERROR,
                     message = [Lit ''Unterminated string'']\<rparr>]\<rparr> \<and>
   Tokenizer_next (tokenizer (TokenFileParser_init [[QUOTE] @ str ''abc''])) =
     Raise StopIteration
       \<lparr>f_lines = [], line = [], pos = 4, line_number = 1,
        messages = [\<lparr>msg_line = 1, msg_pos = 4, level = ERROR,
                     message = [Lit ''Unterminated string'']\<rparr>]\<rparr> \<and>
   next_token None [PyNone] False False (TokenFileParser_init [[QUOTE] @ str ''abc'']) =
     Raise ParsingError
       \<lparr>tokenizer =
          \<lparr>f_lines = [], line = [], pos = 4, line_number = 1,
           messages = [\<lparr>msg_line = 1, msg_pos = 4, level = ERROR,
                        message = [Lit ''Unterminated string'']\<rparr>]\<rparr>,
        p_messages = [\<lparr>msg_line = 1, msg_pos = 4, level = ERROR,
                       message = [Lit ''Unexpected EOF'']\<rparr>],
        saved_token = None\<rparr>"
proof -
  let ?p = "TokenFileParser_init [[QUOTE] @ str ''abc'']"
  let ?tz = "\<lparr>f_lines = [], line = [], pos = 4, line_number = 1,
        messages = [\<lparr>msg_line = 1, msg_pos = 4, level = ERROR,
                     message = [Lit ''Unterminated string'']\<rparr>]\<rparr>"
  have 1: "next_loop (tokenizer ?p) = Raise ParsingError ?tz"
    by (simp add: tokenizer_eval TokenFileParser_init_def Tokenizer_init_def cong: eval_congs)
  have 2: "saved_token ?p = None"
    by (simp add: TokenFileParser_init_def)
  show ?thesis
    using 1 lexer_error_seen_as_eof [OF 1 2, of None "[PyNone]" False]
    by (simp add: TokenFileParser_init_def)
qed

subsection \<open>A string literal that the input does not close\<close>

lemma read_string_loop_open:
  assumes "pos tz \<le> length (line tz)"
    and "open_text (drop (pos tz) (line tz))"
    and "\<forall>l\<in>set (f_lines tz). l \<noteq> [] \<and> open_text (rstrip l)"
  shows "\<exists>tz'. read_string_loop l0 p0 out tz = Raise ParsingError tz'
           \<and> fatal_in {''Unterminated string''} (messages tz) tz' \<and> f_lines tz' = []"
  using assms
proof (induction l0 p0 out tz rule: read_string_loop.induct)
  case (1 l0 p0 out tz)
  show ?case
  proof (cases "pos tz = length (line tz)")
    case True
    show ?thesis
    proof (cases "f_lines tz")
      case Nil
      let ?tz' = "tz\<lparr>line := [], messages := messages tz @
        [\<lparr>msg_line = line_number tz, msg_pos = pos tz, level = ERROR,
          message = [Lit ''Unterminated string'']\<rparr>]\<rparr>"
      have r: "read_string_loop l0 p0 out tz = Raise ParsingError ?tz'"
        using True Nil
        by (simp add: read_string_loop.simps [of l0 p0 out tz] read_line_def Tokenizer_error_def)
      have "fatal_in {''Unterminated string''} (messages (tz\<lparr>line := []\<rparr>)) ?tz'"
        by (rule lexer_fatal_error [where msg = "''Unterminated string''"]) simp_all
      with r Nil show ?thesis by simp
    next
      case (Cons l ls)
      let ?tz1 = "tz\<lparr>f_lines := ls, line := rstrip l, pos := 0,
                     line_number := line_number tz + 1\<rparr>"
      from Cons "1.prems"(3) have l: "l \<noteq> []" "open_text (rstrip l)"
        and ls: "\<forall>l\<in>set ls. l \<noteq> [] \<and> open_text (rstrip l)" by auto
      have rl: "read_line tz = Ok () ?tz1" using Cons l by (simp add: read_line_def)
      have "\<exists>tz'. read_string_loop l0 p0 out ?tz1 = Raise ParsingError tz'
           \<and> fatal_in {''Unterminated string''} (messages ?tz1) tz' \<and> f_lines tz' = []"
        using l ls by (intro "1.IH"(1) [OF True rl]) simp_all
      moreover have "read_string_loop l0 p0 out tz = read_string_loop l0 p0 out ?tz1"
        using True rl by (simp add: read_string_loop.simps [of l0 p0 out tz])
      ultimately show ?thesis by simp
    qed
  next
    case False
    with "1.prems"(1) have lt: "pos tz < length (line tz)" by simp
    then have a: "\<not> length (line tz) < pos tz" by simp
    from lt have d: "drop (pos tz) (line tz) = line tz ! pos tz # drop (pos tz + 1) (line tz)"
      by (simp add: Cons_nth_drop_Suc)
    with "1.prems"(2) have b: "line tz ! pos tz \<noteq> QUOTE"
      by (auto split: if_splits)
    show ?thesis
    proof (cases "line tz ! pos tz = BACKSLASH")
      case True
      with d "1.prems"(2) obtain e es where
        es: "drop (pos tz + 1) (line tz) = e # es"
        and e: "e = QUOTE \<or> e = BACKSLASH \<or> e = 110" and o: "open_text es"
        by (auto split: list.splits)
      from es have lt2: "pos tz + 1 < length (line tz)"
        by (metis drop_eq_Nil list.distinct(1) not_le)
      have e2: "line tz ! (pos tz + 1) = e"
        using es lt2 by (metis Cons_nth_drop_Suc list.inject)
      have es2: "drop (pos tz + 2) (line tz) = es"
        using es lt2 by (metis Cons_nth_drop_Suc Suc_eq_plus1 add_2_eq_Suc' list.inject)
      let ?c = "if e = 110 then [NEWLINE] else [e]"
      let ?tz1 = "tz\<lparr>pos := pos tz + 2\<rparr>"
      have pe: "parse_escape (tz\<lparr>pos := pos tz + 1\<rparr>) = Ok (Some ?c) ?tz1"
        using lt2 e e2 by (auto simp: parse_escape_def Let_def)
      have c: "?c \<noteq> [REPLACEMENT]" using e by auto
      then have w: "(if ?c = [REPLACEMENT]
                then Tokenizer_warn [Lit ''Invalid UTF-8 in string literal''] ?tz1 else ?tz1)
            = ?tz1" by simp
      have "\<exists>tz'. read_string_loop l0 p0 (out @ ?c) ?tz1 = Raise ParsingError tz'
           \<and> fatal_in {''Unterminated string''} (messages ?tz1) tz' \<and> f_lines tz' = []"
        using "1.IH"(2) [OF False a b True pe refl] lt2 es2 o "1.prems"(3) unfolding w
        by simp
      moreover have "read_string_loop l0 p0 out tz = read_string_loop l0 p0 (out @ ?c) ?tz1"
        using False a b True pe c
        by (simp add: read_string_loop.simps [of l0 p0 out tz])
      ultimately show ?thesis by simp
    next
      case nb: False
      let ?tz1 = "tz\<lparr>pos := pos tz + 1\<rparr>"
      let ?tz2 = "if line tz ! pos tz = REPLACEMENT
           then Tokenizer_warn [Lit ''Invalid UTF-8 in string literal''] ?tz1 else ?tz1"
      from d "1.prems"(2) b nb have o: "open_text (drop (pos tz + 1) (line tz))" by simp
      have "\<exists>tz'. read_string_loop l0 p0 (out @ [line tz ! pos tz]) ?tz2 = Raise ParsingError tz'
           \<and> fatal_in {''Unterminated string''} (messages ?tz2) tz' \<and> f_lines tz' = []"
        using lt o "1.prems"(3)
        by (intro "1.IH"(3) [OF False a b nb]) (simp_all add: Tokenizer_warn_def)
      moreover have "read_string_loop l0 p0 out tz
          = read_string_loop l0 p0 (out @ [line tz ! pos tz]) ?tz2"
        using False a b nb by (simp add: read_string_loop.simps [of l0 p0 out tz])
      moreover have "\<And>tz'. fatal_in {''Unterminated string''} (messages ?tz2) tz'
          \<Longrightarrow> fatal_in {''Unterminated string''} (messages tz) tz'"
        by (auto split: if_splits dest: lexer_fatal_warn)
      ultimately show ?thesis by auto
    qed
  qed
qed

text \<open>
  The tokenizer stands at the opening quote of a string literal that no line of the
  remaining input closes, and every backslash of the literal begins one of the escapes
  \<open>\"\<close>, \<open>\\\<close> and \<open>\n\<close>. Then \<open>__next__\<close> raises \<open>StopIteration\<close> with the input used
  up; the messages recorded before are all still there, unchanged, and after them come
  warnings (for replacement characters in the literal) and exactly one error,
  \<open>Unterminated string\<close>, as the last message.
\<close>

theorem unterminated_string:
  assumes "pos tz < length (line tz)" and "line tz ! pos tz = QUOTE"
    and "open_text (drop (pos tz + 1) (line tz))"
    and "\<forall>l\<in>set (f_lines tz). l \<noteq> [] \<and> open_text (rstrip l)"
  shows "\<exists>tz' ws.
     Tokenizer_next tz = Raise StopIteration tz' \<and>
     messages tz' = messages tz @ ws @
       [\<lparr>msg_line = line_number tz', msg_pos = pos tz', level = ERROR,
         message = [Lit ''Unterminated string'']\<rparr>] \<and>
     (\<forall>w\<in>set ws. level w = WARN) \<and> f_lines tz' = []"
proof -
  let ?tz1 = "tz\<lparr>pos := pos tz + 1\<rparr>"
  from read_string_loop_open [of ?tz1 "line_number tz" "pos tz" "[]"] assms
  obtain tz' where r: "read_string tz = Raise ParsingError tz'"
    and f: "fatal_in {''Unterminated string''} (messages tz) tz'" and e: "f_lines tz' = []"
    unfolding read_string_def by auto
  from assms(1,2) r have "Tokenizer_next tz = Raise StopIteration tz'"
    by (simp add: Tokenizer_next_def next_loop.simps [of tz])
  with f e show ?thesis unfolding fatal_in_def by auto
qed

theorem unterminated_string_witness:
  "(0::nat) < length ([QUOTE] @ str ''a b'') \<and> ([QUOTE] @ str ''a b'') ! 0 = QUOTE \<and>
   open_text (drop (0 + 1) ([QUOTE] @ str ''a b'')) \<and>
   open_text (rstrip [BACKSLASH, QUOTE, REPLACEMENT, NEWLINE]) \<and>
   Tokenizer_next
     \<lparr>f_lines = [[BACKSLASH, QUOTE, REPLACEMENT, NEWLINE]], line = [QUOTE] @ str ''a b'',
      pos = 0, line_number = 1,
      messages = [\<lparr>msg_line = 1, msg_pos = 0, level = WARN, message = [Lit ''earlier'']\<rparr>]\<rparr>
   = Raise StopIteration
       \<lparr>f_lines = [], line = [], pos = 3, line_number = 2,
        messages =
          [\<lparr>msg_line = 1, msg_pos = 0, level = WARN, message = [Lit ''earlier'']\<rparr>,
           \<lparr>msg_line = 2, msg_pos = 3, level = WARN,
             message = [Lit ''Invalid UTF-8 in string literal'']\<rparr>,
           \<lparr>msg_line = 2, msg_pos = 3, level = ERROR,
             message = [Lit ''Unterminated string'']\<rparr>]\<rparr>"
proof -
  let ?tz = "\<lparr>f_lines = [[BACKSLASH, QUOTE, REPLACEMENT, NEWLINE]], line = [QUOTE] @ str ''a b'',
         pos = 0, line_number = 1,
         messages = [\<lparr>msg_line = 1, msg_pos = 0, level = WARN, message = [Lit ''earlier'']\<rparr>]\<rparr>"
  have 1: "pos ?tz < length (line ?tz)" and 2: "line ?tz ! pos ?tz = QUOTE"
    and 3: "open_text (drop (pos ?tz + 1) (line ?tz))"
    and 4: "\<forall>l\<in>set (f_lines ?tz). l \<noteq> [] \<and> open_text (rstrip l)"
    by (simp_all add: str_def rstrip_def isspace_def)
  have 5: "Tokenizer_next ?tz = Raise StopIteration
       \<lparr>f_lines = [], line = [], pos = 3, line_number = 2,
        messages =
          [\<lparr>msg_line = 1, msg_pos = 0, level = WARN, message = [Lit ''earlier'']\<rparr>,
           \<lparr>msg_line = 2, msg_pos = 3, level = WARN,
             message = [Lit ''Invalid UTF-8 in string literal'']\<rparr>,
           \<lparr>msg_line = 2, msg_pos = 3, level = ERROR,
             message = [Lit ''Unterminated string'']\<rparr>]\<rparr>"
    by (simp add: tokenizer_eval cong: eval_congs)
  show ?thesis
    using 1 2 3 4 5 unterminated_string [OF 1 2 3 4]
    by simp
qed

text \<open>
  C6. On the input \<open>"\q\<close>, which ends inside a string literal, \<open>__next__\<close> raises
  \<open>TypeError\<close>, not \<open>StopIteration\<close>, and records no diagnostic: the escape is one that
  \<open>_parse_escape\<close> answers with \<open>None\<close>, and the end of the input is never reached.
\<close>

theorem open_string_escape_raises:
  "Tokenizer_next
     \<lparr>f_lines = [], line = [QUOTE, BACKSLASH] @ str ''q'', pos = 0, line_number = 1,
      messages = []\<rparr>
   = Raise TypeError
       \<lparr>f_lines = [], line = [QUOTE, BACKSLASH] @ str ''q'', pos = 3, line_number = 1,
        messages = []\<rparr>"
  by (simp add: tokenizer_eval cong: eval_congs)

subsection \<open>Escapes that the lexer decodes, and those it does not\<close>

text \<open>
  A literal on one line whose backslashes each begin one of \<open>\"\<close>, \<open>\\\<close> and \<open>\n\<close>
  and which holds no replacement character: \<open>__next__\<close> returns one \<open>STRING\<close> token,
  at the place of the opening quote, whose value is the decoded text, and records nothing.
\<close>

lemma read_string_loop_closed:
  assumes "line tz = pre @ body @ QUOTE # rest" and "pos tz = length pre"
    and "open_text body" and "REPLACEMENT \<notin> set body"
  shows "read_string_loop l0 p0 out tz =
     Ok \<lparr>kind = STRING, tline = l0, tpos = p0, tvalue = VStr (out @ decoded body)\<rparr>
        (tz\<lparr>pos := length pre + length body + 1\<rparr>)"
  using assms
proof (induction body arbitrary: pre out tz rule: open_text.induct)
  case 1
  then show ?case
    by (simp add: read_string_loop.simps [of l0 p0 out tz])
next
  case (2 c cs)
  from "2.prems"(1,2) have lt: "pos tz < length (line tz)" and c: "line tz ! pos tz = c"
    by (simp_all add: nth_append)
  from "2.prems"(3) have nq: "c \<noteq> QUOTE" by (auto split: if_splits)
  show ?case
  proof (cases "c = BACKSLASH")
    case True
    with "2.prems"(3) obtain d ds where cs: "cs = d # ds"
      and d: "d = QUOTE \<or> d = BACKSLASH \<or> d = 110" and o: "open_text ds"
      by (auto split: list.splits)
    let ?c = "if d = 110 then [NEWLINE] else [d]"
    let ?tz1 = "tz\<lparr>pos := pos tz + 2\<rparr>"
    have l1: "line tz = (pre @ [c, d]) @ ds @ QUOTE # rest"
      using "2.prems"(1) cs by simp
    have lt2: "pos tz + 1 < length (line tz)" and d2: "line tz ! (pos tz + 1) = d"
      using l1 "2.prems"(2) by (simp_all add: nth_append)
    have pe: "parse_escape (tz\<lparr>pos := pos tz + 1\<rparr>) = Ok (Some ?c) ?tz1"
      using lt2 d d2 by (auto simp: parse_escape_def Let_def)
    have nr: "?c \<noteq> [REPLACEMENT]" using d by auto
    have step: "read_string_loop l0 p0 out tz = read_string_loop l0 p0 (out @ ?c) ?tz1"
      using lt c nq True pe nr
      by (simp add: read_string_loop.simps [of l0 p0 out tz])
    have "read_string_loop l0 p0 (out @ ?c) ?tz1 =
        Ok \<lparr>kind = STRING, tline = l0, tpos = p0, tvalue = VStr ((out @ ?c) @ decoded ds)\<rparr>
           (?tz1\<lparr>pos := length (pre @ [c, d]) + length ds + 1\<rparr>)"
      using "2.prems"(2,4) cs l1 o
      by (intro "2.IH"(1) [OF nq True cs]) simp_all
    with step True cs show ?thesis by simp
  next
    case False
    let ?tz1 = "tz\<lparr>pos := pos tz + 1\<rparr>"
    from "2.prems"(3) nq False have o: "open_text cs" by simp
    from "2.prems"(4) have nr: "c \<noteq> REPLACEMENT" by auto
    have l1: "line tz = (pre @ [c]) @ cs @ QUOTE # rest"
      using "2.prems"(1) by simp
    have step: "read_string_loop l0 p0 out tz = read_string_loop l0 p0 (out @ [c]) ?tz1"
      using lt c nq False nr
      by (simp add: read_string_loop.simps [of l0 p0 out tz])
    have "read_string_loop l0 p0 (out @ [c]) ?tz1 =
        Ok \<lparr>kind = STRING, tline = l0, tpos = p0, tvalue = VStr ((out @ [c]) @ decoded cs)\<rparr>
           (?tz1\<lparr>pos := length (pre @ [c]) + length cs + 1\<rparr>)"
      using "2.prems"(2,4) l1 o
      by (intro "2.IH"(2) [OF nq False]) simp_all
    with step False show ?thesis by simp
  qed
qed

lemma simple_escapes_decoded:
  assumes "line tz = pre @ QUOTE # body @ QUOTE # rest" and "pos tz = length pre"
    and "open_text body" and "REPLACEMENT \<notin> set body"
  shows "Tokenizer_next tz =
     Ok \<lparr>kind = STRING, tline = line_number tz, tpos = length pre, tvalue = VStr (decoded body)\<rparr>
        (tz\<lparr>pos := length pre + length body + 2\<rparr>)"
proof -
  let ?tz1 = "tz\<lparr>pos := pos tz + 1\<rparr>"
  have "line ?tz1 = (pre @ [QUOTE]) @ body @ QUOTE # rest" "pos ?tz1 = length (pre @ [QUOTE])"
    using assms(1,2) by simp_all
  from read_string_loop_closed [OF this assms(3,4), of "line_number tz" "pos tz" "[]"]
  have "read_string tz =
     Ok \<lparr>kind = STRING, tline = line_number tz, tpos = pos tz, tvalue = VStr (decoded body)\<rparr>
        (tz\<lparr>pos := length pre + length body + 2\<rparr>)"
    by (simp add: read_string_def)
  moreover have "pos tz < length (line tz)" "line tz ! pos tz = QUOTE"
    using assms(1,2) by (simp_all add: nth_append)
  ultimately show ?thesis
    using assms(2) by (simp add: Tokenizer_next_def next_loop.simps [of tz])
qed


text \<open>
  C3. On the literal \<open>"\u0041"\<close>, a well-formed Unicode escape, \<open>__next__\<close> produces no
  token: \<open>_parse_escape\<close> returns \<open>None\<close> for the \<open>u\<close> case, and writing it to the
  output raises \<open>TypeError\<close>, which \<open>__next__\<close> does not catch.
\<close>

theorem unicode_escape_raises:
  "Tokenizer_next (Tokenizer_init [[QUOTE, BACKSLASH] @ str ''u0041'' @ [QUOTE]])
   = Raise TypeError
       \<lparr>f_lines = [], line = [QUOTE, BACKSLASH] @ str ''u0041'' @ [QUOTE], pos = 7,
        line_number = 1, messages = []\<rparr>"
  by (simp add: tokenizer_eval Tokenizer_init_def py_int16_def is_hex_digit_def
      nat_of_hex_digits_def hex_digit_value_def cong: eval_congs)

text \<open>
  C4. On the literal \<open>"a\qb"\<close>, whose escape is none of \<open>\"\<close>, \<open>\\\<close>, \<open>\n\<close>, \<open>\u\<close>,
  \<open>__next__\<close> produces no token either: \<open>_parse_escape\<close> returns \<open>None\<close>, and writing
  it to the output raises \<open>TypeError\<close>.
\<close>

theorem unknown_escape_raises:
  "Tokenizer_next (Tokenizer_init [[QUOTE] @ str ''a'' @ [BACKSLASH] @ str ''qb'' @ [QUOTE]])
   = Raise TypeError
       \<lparr>f_lines = [], line = [QUOTE] @ str ''a'' @ [BACKSLASH] @ str ''qb'' @ [QUOTE],
        pos = 4, line_number = 1, messages = []\<rparr>"
  by (simp add: tokenizer_eval Tokenizer_init_def cong: eval_congs)

subsection \<open>Running the engine on a given input\<close>

lemma and_then_cong_weak: "r = r' \<Longrightarrow> and_then r k = and_then r' k"
  by simp

lemma and_then_simps:
  "and_then None k = None"
  "and_then (Some (Ok a s)) k = k a s"
  "and_then (Some (Raise e s)) k = Some (Raise e s)"
  by (simp_all add: and_then_def)

lemmas engine_eval =
  check_value.simps check_object_loop.simps check_object_list.simps check_value_with_def
  check_object_def next_tok_def next_token_def and_then_simps skip_value_def
  skip_structure_def skip_structure_loop.simps skip_nested_def check_vector_def
  check_vector_loop.simps check_element_count_def check_units_def check_units_loop.simps
  parser_warn_def parser_error_def emit_def push_back_def matched_def mismatch_def
  str_value_def TokenFileParser_init_def Tokenizer_init_def

lemmas engine_congs = and_then_cong_weak res.case_cong_weak option.case_cong_weak
  list.case_cong_weak DataType.case_cong_weak

subsection \<open>A vector with the wrong number of elements\<close>

text \<open>
  C2. For the property \<open>Position\<close>, declared \<open>Vector\<close>, with the value \<open>[ 1 2 ]\<close>:
  \<open>_check_value\<close> raises \<open>TypeError\<close> when the array closes, and has recorded no
  warning. The count 3 is passed as an \<open>int\<close>; the test after the loop of
  \<open>_check_vector\<close> subscripts it as soon as the number of elements differs from it.
\<close>

theorem vector_count_raises:
  "check_value (Suc (Suc (Suc (Suc 0)))) plain_hooks (str ''Galaxy'') (str ''Position'')
       DT_VECTOR (Some LENGTH) (TokenFileParser_init [str ''[ 1 2 ]'']) =
     Some (Raise TypeError
       \<lparr>tokenizer =
          \<lparr>f_lines = [], line = str ''[ 1 2 ]'', pos = 7, line_number = 1, messages = []\<rparr>,
        p_messages = [], saved_token = None\<rparr>)"
  by (simp add: engine_eval tokenizer_eval plain_hooks_def base_hooks_def
      base_validate_number_def number_value_def py_int_def nat_of_digits_def
      int_max_str_digits_def cong: engine_congs)

subsection \<open>Well-nested input on which the engine fails\<close>

text \<open>
  C1. The body \<open>Timeline [ <km> ] }\<close> is well nested. For every table that declares
  \<open>Timeline\<close> an \<open>ObjectList\<close>, and every parser whose \<open>_get_properties\<close> has a table for
  \<open>Timeline\<close> (as the one of the SSC parser has), \<open>_check_object\<close> raises \<open>ParsingError\<close>
  on it, with the fatal diagnostic \<open>Mismatched nesting\<close> at the \<open>]\<close>:
  \<open>_check_object_list\<close> hands the units block to \<open>_skip_value\<close>, which skips it, reads
  the \<open>]\<close> as the value that follows and takes that for a mismatch.
\<close>

theorem object_list_units_block:
  assumes "properties (str ''Timeline'') = Some (DT_OBJECT_LIST, None)"
    and "get_properties h (str ''Timeline'') = Some timeline_properties"
  shows "check_object (Suc (Suc (Suc (Suc (Suc (Suc n)))))) h (str ''Body'') open_token
       properties disposition (TokenFileParser_init [str ''Timeline [ <km> ] }'']) =
     Some (Raise ParsingError
       \<lparr>tokenizer =
          \<lparr>f_lines = [], line = str ''Timeline [ <km> ] }'', pos = 17, line_number = 1,
           messages = []\<rparr>,
        p_messages =
          [\<lparr>msg_line = 1, msg_pos = 11, level = WARN, message = [Lit ''Expected object'']\<rparr>,
           \<lparr>msg_line = 1, msg_pos = 16, level = ERROR,
             message = [Lit ''Mismatched nesting'']\<rparr>],
        saved_token = None\<rparr>)"
  using assms
  by (simp add: engine_eval tokenizer_eval cong: engine_congs)


theorem object_list_units_block_witness:
  "[str ''Timeline'' \<mapsto> (DT_OBJECT_LIST, None)] (str ''Timeline'') = Some (DT_OBJECT_LIST, None) \<and>
   get_properties (plain_hooks\<lparr>get_properties := (\<lambda>object_name. Some Map.empty)\<rparr>)
     (str ''Timeline'') = Some Map.empty \<and>
   check_object (Suc (Suc (Suc (Suc (Suc (Suc 0))))))
       (plain_hooks\<lparr>get_properties := (\<lambda>object_name. Some Map.empty)\<rparr>) (str ''Body'')
       \<lparr>kind = START_OBJECT, tline = 1, tpos = 0, tvalue = VNone\<rparr>
       [str ''Timeline'' \<mapsto> (DT_OBJECT_LIST, None)] ADD
       (TokenFileParser_init [str ''Timeline [ <km> ] }'']) =
     Some (Raise ParsingError
       \<lparr>tokenizer =
          \<lparr>f_lines = [], line = str ''Timeline [ <km> ] }'', pos = 17, line_number = 1,
           messages = []\<rparr>,
        p_messages =
          [\<lparr>msg_line = 1, msg_pos = 11, level = WARN, message = [Lit ''Expected object'']\<rparr>,
           \<lparr>msg_line = 1, msg_pos = 16, level = ERROR,
             message = [Lit ''Mismatched nesting'']\<rparr>],
        saved_token = None\<rparr>)"
proof -
  have 1: "[str ''Timeline'' \<mapsto> (DT_OBJECT_LIST, None)] (str ''Timeline'')
      = Some (DT_OBJECT_LIST, None)"
    by simp
  have 2: "get_properties (plain_hooks\<lparr>get_properties := (\<lambda>object_name. Some Map.empty)\<rparr>)
     (str ''Timeline'') = Some Map.empty"
    by simp
  show ?thesis
    using 1 2
      object_list_units_block
        [where properties = "[str ''Timeline'' \<mapsto> (DT_OBJECT_LIST, None)]"
           and h = "plain_hooks\<lparr>get_properties := (\<lambda>object_name. Some Map.empty)\<rparr>"
           and timeline_properties = Map.empty and n = 0 and disposition = ADD
           and open_token = "\<lparr>kind = START_OBJECT, tline = 1, tpos = 0, tvalue = VNone\<rparr>"]
    by simp
qed

text \<open>
  On a name inside the array, as in \<open>Timeline [ foo ] }\<close>, \<open>_check_object_list\<close> never
  returns: \<open>_skip_value\<close> pushes the name back, and the loop reads it again. Whatever the
  bound on the iterations, it is reached.
\<close>

lemma object_list_name_pushed_back:
  assumes "saved_token p = Some token" and "kind token = NAME"
  shows "check_object_list n h object_name properties p = None"
  using assms
proof (induction n arbitrary: p)
  case 0
  show ?case by simp
next
  case (Suc n)
  let ?p1 = "parser_warn (tline token) (tpos token) [Lit ''Expected object'']
               (p\<lparr>saved_token := None\<rparr>)"
  have sv: "skip_value n (push_back token ?p1) = Some (Ok () (push_back token ?p1))"
    using Suc.prems(2)
    by (simp add: skip_value_def next_tok_def next_token_def push_back_def parser_warn_def
        emit_def and_then_def)
  have "saved_token (push_back token ?p1) = Some token"
    by (simp add: push_back_def)
  from Suc.IH [OF this Suc.prems(2)]
  have "check_object_list n h object_name properties (push_back token ?p1) = None" .
  with sv Suc.prems show ?case
    by (simp add: next_tok_def next_token_def and_then_def)
qed

lemma object_list_name_never_returns:
  assumes "saved_token p = None" and "Tokenizer_next (tokenizer p) = Ok token tz'"
    and "kind token = NAME"
  shows "check_object_list n h object_name properties p = None"
proof (cases n)
  case 0
  then show ?thesis by simp
next
  case (Suc m)
  let ?p1 = "parser_warn (tline token) (tpos token) [Lit ''Expected object'']
               (p\<lparr>tokenizer := tz'\<rparr>)"
  have sv: "skip_value m (push_back token ?p1) = Some (Ok () (push_back token ?p1))"
    using assms(3)
    by (simp add: skip_value_def next_tok_def next_token_def push_back_def parser_warn_def
        emit_def and_then_def)
  have "saved_token (push_back token ?p1) = Some token"
    by (simp add: push_back_def)
  from object_list_name_pushed_back [OF this assms(3)]
  have "check_object_list m h object_name properties (push_back token ?p1) = None" .
  with sv assms Suc show ?thesis
    by (simp add: next_tok_def next_token_def and_then_def)
qed

subsection \<open>The lexer goes forward\<close>

text \<open>
  Every diagnostic of the lexer, a warning or an error, is recorded at the place where the
  lexer stands when it emits it, and the lexer never goes back: a call of \<open>__next__\<close>
  only appends to the list, diagnostics that lie at or after the place where the lexer
  stood before the call, and a token that it returns begins before the place where it
  stands after the call.
\<close>

lemma state_of_simps [simp]: "state_of (Ok a s) = s" "state_of (Raise e s) = s"
  by (simp_all add: state_of_def)

lemma lexer_moves_refl: "lexer_moves tz tz"
  by (simp add: lexer_moves_def)

lemma lexer_moves_trans:
  assumes "lexer_moves tz tz'" and "lexer_moves tz' tz''"
  shows "lexer_moves tz tz''"
proof -
  from assms(1) obtain new where 1: "place tz \<le> place tz'"
    "messages tz' = messages tz @ new" "\<forall>m\<in>set new. place tz \<le> coordinates m"
    by (auto simp: lexer_moves_def)
  from assms(2) obtain new' where 2: "place tz' \<le> place tz''"
    "messages tz'' = messages tz' @ new'" "\<forall>m\<in>set new'. place tz' \<le> coordinates m"
    by (auto simp: lexer_moves_def)
  have "messages tz'' = messages tz @ (new @ new')" using 1 2 by simp
  moreover have "\<forall>m\<in>set (new @ new'). place tz \<le> coordinates m"
    using 1 2 by (auto intro: order_trans)
  moreover have "place tz \<le> place tz''" using 1 2 by (rule_tac order_trans)
  ultimately show ?thesis unfolding lexer_moves_def by blast
qed

lemma lexer_moves_pos: "pos tz \<le> p \<Longrightarrow> lexer_moves tz (tz\<lparr>pos := p\<rparr>)"
  by (simp add: lexer_moves_def place_def)

lemma lexer_moves_warn: "lexer_moves tz (Tokenizer_warn msg tz)"
  by (simp add: lexer_moves_def place_def Tokenizer_warn_def coordinates_def)

lemma lexer_moves_error: "lexer_moves tz (state_of (Tokenizer_error msg tz))"
  by (simp add: lexer_moves_def place_def Tokenizer_error_def coordinates_def)

lemma lexer_moves_read_line: "lexer_moves tz (state_of (read_line tz))"
  by (simp add: lexer_moves_def place_def read_line_def split: list.splits)

lemma lexer_moves_error_pos:
  "pos tz \<le> p \<Longrightarrow> lexer_moves tz (state_of (Tokenizer_error msg (tz\<lparr>pos := p\<rparr>)))"
  by (simp add: lexer_moves_def place_def Tokenizer_error_def coordinates_def)

lemma lexer_moves_parse_escape: "lexer_moves tz (state_of (parse_escape tz))"
  by (simp add: parse_escape_def Let_def lexer_moves_pos lexer_moves_error_pos
      lexer_moves_error lexer_moves_refl split: option.splits)


lemma read_string_loop_moves:
  "lexer_moves tz (state_of (read_string_loop l0 p0 out tz)) \<and>
   (\<forall>tok tz'. read_string_loop l0 p0 out tz = Ok tok tz' \<longrightarrow> start tok = (l0, p0))"
proof (induction l0 p0 out tz rule: read_string_loop.induct)
  case (1 l0 p0 out tz)
  show ?case
  proof (cases "pos tz = length (line tz)")
    case True
    show ?thesis
    proof (cases "read_line tz")
      case (Ok u tz1)
      have m: "lexer_moves tz tz1" using lexer_moves_read_line [of tz] Ok by simp
      have eq: "read_string_loop l0 p0 out tz = read_string_loop l0 p0 out tz1"
        using True Ok by (simp add: read_string_loop.simps [of l0 p0 out tz])
      from "1.IH"(1) [OF True Ok] m show ?thesis
        unfolding eq by (blast intro: lexer_moves_trans)
    next
      case (Raise e tz1)
      have m: "lexer_moves tz tz1" using lexer_moves_read_line [of tz] Raise by simp
      have "lexer_moves tz1 (state_of (Tokenizer_error [Lit ''Unterminated string''] tz1 :: (Token, Tokenizer) res))"
        by (rule lexer_moves_error)
      with m have "lexer_moves tz (state_of (Tokenizer_error [Lit ''Unterminated string''] tz1 :: (Token, Tokenizer) res))"
        by (rule lexer_moves_trans)
      with m True Raise show ?thesis
        by (simp add: read_string_loop.simps [of l0 p0 out tz] Tokenizer_error_def)
    qed
  next
    case False
    note not_end = this
    show ?thesis
    proof (cases "length (line tz) < pos tz \<or> line tz ! pos tz = QUOTE")
      case True
      with not_end show ?thesis
        by (auto simp: read_string_loop.simps [of l0 p0 out tz] lexer_moves_refl lexer_moves_pos
            start_def)
    next
      case False
      then have a: "\<not> length (line tz) < pos tz" and b: "line tz ! pos tz \<noteq> QUOTE" by auto
      have m1: "lexer_moves tz (tz\<lparr>pos := pos tz + 1\<rparr>)" by (simp add: lexer_moves_pos)
      show ?thesis
      proof (cases "line tz ! pos tz = BACKSLASH")
        case True
        have m2: "lexer_moves tz (state_of (parse_escape (tz\<lparr>pos := pos tz + 1\<rparr>)))"
          using m1 lexer_moves_parse_escape by (rule lexer_moves_trans)
        show ?thesis
        proof (cases "parse_escape (tz\<lparr>pos := pos tz + 1\<rparr>)")
          case (Raise e tz1)
          with not_end a b True m2 show ?thesis
            by (simp add: read_string_loop.simps [of l0 p0 out tz])
        next
          case (Ok r tz1)
          show ?thesis
          proof (cases r)
            case None
            with Ok not_end a b True m2 show ?thesis
              by (simp add: read_string_loop.simps [of l0 p0 out tz])
          next
            case (Some c)
            let ?tz2 = "if c = [REPLACEMENT]
                then Tokenizer_warn [Lit ''Invalid UTF-8 in string literal''] tz1 else tz1"
            have eq: "read_string_loop l0 p0 out tz = read_string_loop l0 p0 (out @ c) ?tz2"
              using Some Ok not_end a b True
              by (simp add: read_string_loop.simps [of l0 p0 out tz])
            have "lexer_moves tz1 ?tz2" by (simp add: lexer_moves_warn lexer_moves_refl)
            with m2 Ok have m3: "lexer_moves tz ?tz2" by (auto intro: lexer_moves_trans)
            from "1.IH"(2) [OF not_end a b True Ok Some] m3 show ?thesis
              unfolding eq by (blast intro: lexer_moves_trans)
          qed
        qed
      next
        case False
        let ?tz1 = "tz\<lparr>pos := pos tz + 1\<rparr>"
        let ?tz2 = "if line tz ! pos tz = REPLACEMENT
           then Tokenizer_warn [Lit ''Invalid UTF-8 in string literal''] ?tz1 else ?tz1"
        have eq: "read_string_loop l0 p0 out tz =
            read_string_loop l0 p0 (out @ [line tz ! pos tz]) ?tz2"
          using False not_end a b by (simp add: read_string_loop.simps [of l0 p0 out tz])
        have "lexer_moves ?tz1 ?tz2" by (simp add: lexer_moves_warn lexer_moves_refl)
        with m1 have m3: "lexer_moves tz ?tz2" by (rule lexer_moves_trans)
        from "1.IH"(3) [OF not_end a b False] m3 show ?thesis
          unfolding eq by (blast intro: lexer_moves_trans)
      qed
    qed
  qed
qed

lemma NAME_REGEX_match_length:
  "NAME_REGEX_match l p = Some name \<Longrightarrow> 0 < length name"
  by (auto simp: NAME_REGEX_match_def split: list.splits if_splits)

lemma mantissa_length_pos: "mantissa_length s = Some m \<Longrightarrow> 0 < m"
  by (auto simp: mantissa_length_def Let_def split: if_splits)

lemma NUMBER_REGEX_match_length:
  assumes "NUMBER_REGEX_match l p = Some num" and "p < length l"
  shows "0 < length num"
proof -
  from assms(1) obtain k m where "num = take (k + m) (drop p l)" and "0 < m"
    by (auto simp: NUMBER_REGEX_match_def Let_def add.assoc [symmetric]
        split: option.splits dest!: mantissa_length_pos
        intro: that [of _ "_ + _"] )
  with assms(2) show ?thesis by simp
qed

lemma next_loop_moves:
  "lexer_moves tz (state_of (next_loop tz)) \<and>
   (\<forall>tok tz'. next_loop tz = Ok tok tz' \<longrightarrow> start tok < place tz')"
proof (induction tz rule: next_loop.induct)
  case (1 tz)
  show ?case
  proof (cases "pos tz = length (line tz)")
    case True
    show ?thesis
    proof (cases "read_line tz")
      case (Ok u tz1)
      have m: "lexer_moves tz tz1" using lexer_moves_read_line [of tz] Ok by simp
      have eq: "next_loop tz = next_loop tz1"
        using True Ok by (simp add: next_loop.simps [of tz])
      from "1.IH"(1) [OF True Ok] m show ?thesis
        unfolding eq by (blast intro: lexer_moves_trans)
    next
      case (Raise e tz1)
      have m: "lexer_moves tz tz1" using lexer_moves_read_line [of tz] Raise by simp
      with True Raise show ?thesis by (simp add: next_loop.simps [of tz])
    qed
  next
    case False
    note not_end = this
    show ?thesis
    proof (cases "length (line tz) < pos tz")
      case True
      with not_end show ?thesis by (simp add: next_loop.simps [of tz] lexer_moves_refl)
    next
      case False
      note a = this
      consider (space) "line tz ! pos tz = TAB \<or> line tz ! pos tz = SPACE"
        | (hash) "\<not> (line tz ! pos tz = TAB \<or> line tz ! pos tz = SPACE)" "line tz ! pos tz = HASH"
        | (quote) "\<not> (line tz ! pos tz = TAB \<or> line tz ! pos tz = SPACE)" "line tz ! pos tz \<noteq> HASH"
            "line tz ! pos tz = QUOTE"
        | (other) "\<not> (line tz ! pos tz = TAB \<or> line tz ! pos tz = SPACE)" "line tz ! pos tz \<noteq> HASH"
            "line tz ! pos tz \<noteq> QUOTE"
        by blast
      then show ?thesis
      proof cases
        case space
        have eq: "next_loop tz = next_loop (tz\<lparr>pos := pos tz + 1\<rparr>)"
          using space not_end a by (simp add: next_loop.simps [of tz])
        have m: "lexer_moves tz (tz\<lparr>pos := pos tz + 1\<rparr>)" by (simp add: lexer_moves_pos)
        from "1.IH"(2) [OF not_end a space] m show ?thesis
          unfolding eq by (blast intro: lexer_moves_trans)
      next
        case hash
        have eq: "next_loop tz = next_loop (tz\<lparr>pos := length (line tz)\<rparr>)"
          using hash not_end a by (simp add: next_loop.simps [of tz])
        have m: "lexer_moves tz (tz\<lparr>pos := length (line tz)\<rparr>)"
          using a by (simp add: lexer_moves_pos)
        from "1.IH"(3) [OF not_end a hash] m show ?thesis
          unfolding eq by (blast intro: lexer_moves_trans)
      next
        case quote
        have eq: "next_loop tz =
            read_string_loop (line_number tz) (pos tz) [] (tz\<lparr>pos := pos tz + 1\<rparr>)"
          using quote not_end a by (simp add: next_loop.simps [of tz] read_string_def)
        have m: "lexer_moves tz (tz\<lparr>pos := pos tz + 1\<rparr>)" by (simp add: lexer_moves_pos)
        note r = read_string_loop_moves [of "tz\<lparr>pos := pos tz + 1\<rparr>" "line_number tz" "pos tz" "[]"]
        have 1: "lexer_moves tz (state_of (next_loop tz))"
          unfolding eq using m r by (blast intro: lexer_moves_trans)
        have 2: "start tok < place tz'" if "next_loop tz = Ok tok tz'" for tok tz'
        proof -
          from that r have s: "start tok = (line_number tz, pos tz)"
            and "lexer_moves (tz\<lparr>pos := pos tz + 1\<rparr>) tz'"
            unfolding eq by auto
          then have "place (tz\<lparr>pos := pos tz + 1\<rparr>) \<le> place tz'"
            by (simp add: lexer_moves_def)
          moreover have "(line_number tz, pos tz) < place (tz\<lparr>pos := pos tz + 1\<rparr>)"
            by (simp add: place_def)
          ultimately show ?thesis using s by simp
        qed
        from 1 2 show ?thesis by blast
      next
        case other
        let ?tz1 = "(Tokenizer_warn
             [Lit ''Unexpected character '', Repr [line tz ! pos tz], Lit '' in file''] tz)
               \<lparr>pos := pos tz + 1\<rparr>"
        have p: "pos tz < length (line tz)" using not_end a by simp
        show ?thesis
        proof (cases "single_char_kind (line tz ! pos tz) = None
            \<and> NAME_REGEX_match (line tz) (pos tz) = None
            \<and> NUMBER_REGEX_match (line tz) (pos tz) = None")
          case True
          have eq: "next_loop tz = next_loop ?tz1"
            using True other not_end a by (simp add: next_loop.simps [of tz])
          have "lexer_moves (Tokenizer_warn
             [Lit ''Unexpected character '', Repr [line tz ! pos tz], Lit '' in file''] tz) ?tz1"
            by (rule lexer_moves_pos) (simp add: Tokenizer_warn_def)
          with lexer_moves_warn have m: "lexer_moves tz ?tz1" by (rule lexer_moves_trans)
          from True have k: "single_char_kind (line tz ! pos tz) = None"
            and nm: "NAME_REGEX_match (line tz) (pos tz) = None"
            and nu: "NUMBER_REGEX_match (line tz) (pos tz) = None" by auto
          from "1.IH"(4) [OF not_end a other k nm nu] m show ?thesis
            unfolding eq by (blast intro: lexer_moves_trans)
        next
          case False
          with other not_end a p show ?thesis
            by (auto simp: next_loop.simps [of tz] lexer_moves_pos start_def place_def
                dest: NAME_REGEX_match_length NUMBER_REGEX_match_length
                split: option.splits)
        qed
      qed
    qed
  qed
qed

lemma Tokenizer_next_moves:
  "lexer_moves tz (state_of (Tokenizer_next tz))"
  "Tokenizer_next tz = Ok tok tz' \<Longrightarrow> start tok < place tz'"
  using next_loop_moves [of tz]
  by (auto simp: Tokenizer_next_def split: res.splits if_splits)

subsection \<open>The invariant of a run\<close>

text \<open>
  The engine emits a diagnostic at the beginning of a token that it has read, so before the
  place where the lexer stands; what the lexer emits afterwards lies at or after that
  place, so strictly after the diagnostic. The one diagnostic that the engine emits at the
  lexer's own place is the error for an unexpected end of the input, which comes after the
  lexer's last call of the run, since the exception ends the run.
\<close>

lemma post_simps [simp]:
  "post Q None" "post Q (Some (Ok a p)) = Q a p" "post Q (Some (Raise e p)) = log_agrees p"
  by (simp_all add: post_def)

lemma post_and_then:
  assumes "post Q1 r" and "\<And>a p. Q1 a p \<Longrightarrow> post Q2 (k a p)"
  shows "post Q2 (and_then r k)"
proof (cases r)
  case None
  then show ?thesis by (simp add: and_then_def)
next
  case (Some x)
  show ?thesis
  proof (cases x)
    case (Ok a p)
    with Some assms(1) have "Q1 a p" by simp
    then have "post Q2 (k a p)" by (rule assms(2))
    with Some Ok show ?thesis by (simp add: and_then_def)
  next
    case (Raise e p)
    with Some assms(1) show ?thesis by (simp add: and_then_def)
  qed
qed

lemma post_mono:
  assumes "post Q r" and "\<And>a p. Q a p \<Longrightarrow> Q' a p"
  shows "post Q' r"
  using assms by (auto simp: post_def split: option.splits res.splits)

lemma behind_subset: "behind T p \<Longrightarrow> T' \<subseteq> T \<Longrightarrow> behind T' p"
  by (auto simp: behind_def)

lemma behind_log_agrees: "behind T p \<Longrightarrow> log_agrees p"
  by (simp add: behind_def)

lemma log_agrees_filter:
  "log_agrees p \<Longrightarrow>
     filter (\<lambda>m. coordinates m = k) (emitted p) =
     filter (\<lambda>m. coordinates m = k) (messages (tokenizer (parser p))) @
     filter (\<lambda>m. coordinates m = k) (p_messages (parser p))"
  unfolding log_agrees_def by blast

lemma log_agrees_mset:
  "log_agrees p \<Longrightarrow>
     mset (emitted p) = mset (messages (tokenizer (parser p)) @ p_messages (parser p))"
  unfolding log_agrees_def by blast

lemma log_agrees_init: "behind {} (LoggedParser_init file)"
  by (simp add: behind_def log_agrees_def LoggedParser_init_def TokenFileParser_init_def
      Tokenizer_init_def)

lemma log_agrees_emit: "log_agrees p \<Longrightarrow> log_agrees (emit_logged ms p)"
  by (simp add: log_agrees_def emit_logged_def emit_def)

lemma behind_emit:
  assumes "behind T p" and "\<forall>m\<in>set ms. coordinates m \<in> T"
  shows "behind T (emit_logged ms p)"
proof -
  have "log_agrees (emit_logged ms p)" using assms(1) by (simp add: behind_def log_agrees_emit)
  with assms show ?thesis by (auto simp: behind_def emit_logged_def emit_def)
qed

lemma behind_warn:
  "behind T p \<Longrightarrow> (l, c) \<in> T \<Longrightarrow> behind T (parser_warn_logged l c msg p)"
  unfolding parser_warn_logged_def by (rule behind_emit) (simp_all add: coordinates_def)

lemma behind_warn_token:
  "behind T p \<Longrightarrow> start token \<in> T \<Longrightarrow> behind T (parser_warn_logged (tline token) (tpos token) msg p)"
  by (rule behind_warn) (simp_all add: start_def)

lemma post_error:
  "log_agrees p \<Longrightarrow> post Q (Some (parser_error_logged l c msg p))"
  by (simp add: parser_error_logged_def log_agrees_emit)

lemma behind_push_back:
  "behind T p \<Longrightarrow> start token \<in> T \<Longrightarrow> behind T (push_back_logged token p)"
  by (auto simp: behind_def push_back_logged_def push_back_def log_agrees_def)

lemma lexed_log_agrees:
  assumes "behind T p" and "lexer_moves (tokenizer (parser p)) tz'"
  shows "log_agrees (lexed tz' p)"
proof -
  let ?tz = "tokenizer (parser p)"
  from assms(2) obtain new where le: "place ?tz \<le> place tz'"
    and m: "messages tz' = messages ?tz @ new"
    and n: "\<forall>m\<in>set new. place ?tz \<le> coordinates m"
    by (auto simp: lexer_moves_def)
  from assms(1) have a: "log_agrees p"
    and e: "\<forall>e\<in>set (p_messages (parser p)). coordinates e < place ?tz"
    by (auto simp: behind_def)
  have d: "drop (length (messages ?tz)) (messages tz') = new" using m by simp
  have x: "filter (\<lambda>m. coordinates m = k) new = [] \<or>
      filter (\<lambda>m. coordinates m = k) (p_messages (parser p)) = []" for k
  proof (cases "k < place ?tz")
    case True
    with n have "filter (\<lambda>m. coordinates m = k) new = []" by (auto simp: filter_empty_conv)
    then show ?thesis ..
  next
    case False
    with e have "filter (\<lambda>m. coordinates m = k) (p_messages (parser p)) = []"
      by (auto simp: filter_empty_conv)
    then show ?thesis ..
  qed
  have "filter (\<lambda>m. coordinates m = k) (emitted p @ new) =
      filter (\<lambda>m. coordinates m = k) (messages ?tz @ new) @
      filter (\<lambda>m. coordinates m = k) (p_messages (parser p))" for k
    using log_agrees_filter [OF a, of k] x [of k] by auto
  moreover have "mset (emitted p @ new) = mset ((messages ?tz @ new) @ p_messages (parser p))"
    using log_agrees_mset [OF a] by simp
  ultimately show ?thesis
    unfolding log_agrees_def lexed_def d by (simp add: m)
qed

lemma lexed_behind:
  assumes "behind T p" and "saved_token (parser p) = None"
    and "lexer_moves (tokenizer (parser p)) tz'"
  shows "behind T (lexed tz' p)"
proof -
  have le: "place (tokenizer (parser p)) \<le> place tz'" using assms(3) by (simp add: lexer_moves_def)
  have "log_agrees (lexed tz' p)" using assms(1,3) by (rule lexed_log_agrees)
  moreover have "k < place tz'" if "k < place (tokenizer (parser p))" for k
    using that le by (rule less_le_trans)
  ultimately show ?thesis using assms(1,2) by (auto simp: behind_def lexed_def)
qed

lemma behind_insert:
  "behind T p \<Longrightarrow> k < place (tokenizer (parser p)) \<Longrightarrow> behind (insert k T) p"
  by (auto simp: behind_def)

lemma lexed_place [simp]: "tokenizer (parser (lexed tz' p)) = tz'"
  by (simp add: lexed_def)

lemma next_token_logged_post:
  assumes "behind T p"
  shows "post (\<lambda>r p'. case r of None \<Rightarrow> behind T p'
                        | Some token \<Rightarrow> behind (insert (start token) T) p')
           (Some (next_token_logged kind' message' is_error allow_eof p))"
proof (cases "saved_token (parser p)")
  case (Some token)
  with assms have "behind (insert (start token) T) (p\<lparr>parser := (parser p)\<lparr>saved_token := None\<rparr>\<rparr>)"
    by (auto simp: behind_def log_agrees_def)
  with Some show ?thesis by (simp add: next_token_logged_def)
next
  case None
  note m = Tokenizer_next_moves [of "tokenizer (parser p)"]
  show ?thesis
  proof (cases "Tokenizer_next (tokenizer (parser p))")
    case (Raise e tz')
    with m(1) have "lexer_moves (tokenizer (parser p)) tz'" by simp
    then have "behind T (lexed tz' p)" by (rule lexed_behind [OF assms None])
    with None Raise show ?thesis
      by (simp add: next_token_logged_def post_error behind_log_agrees)
  next
    case (Ok token tz')
    with m(1) have "lexer_moves (tokenizer (parser p)) tz'" by simp
    then have "behind T (lexed tz' p)" by (rule lexed_behind [OF assms None])
    moreover have "start token < place tz'" using Ok by (rule m(2))
    ultimately have b: "behind (insert (start token) T) (lexed tz' p)"
      by (simp add: behind_insert)
    then have "behind (insert (start token) T)
        (parser_warn_logged (tline token) (tpos token) message' (lexed tz' p))"
      by (rule behind_warn_token) simp
    with b None Ok show ?thesis
      by (simp add: next_token_logged_def post_error behind_log_agrees)
  qed
qed

lemma expect_token_logged_post:
  assumes "behind T p"
  shows "post (\<lambda>token p'. behind (insert (start token) T) p')
           (Some (expect_token_logged kind' message' is_error p))"
  using next_token_logged_post [OF assms, of kind' message' is_error False]
  by (auto simp: expect_token_logged_def post_def behind_log_agrees
      split: res.splits option.splits)

lemma token_bind:
  assumes "post (\<lambda>token. behind (insert (start token) T)) r"
    and "\<And>token p'. behind (insert (start token) T) p'
          \<Longrightarrow> post (\<lambda>a. behind (insert (start token) T)) (k token p')"
  shows "post (\<lambda>a. behind T) (and_then r k)"
proof -
  have "post (\<lambda>a p'. \<exists>token. behind (insert (start token) T) p') (and_then r k)"
    by (rule post_and_then [OF assms(1)]) (rule post_mono [OF assms(2)], assumption, blast)
  then show ?thesis
    by (rule post_mono) (auto intro: behind_subset)
qed

lemma next_tok_logged_post:
  "behind T p \<Longrightarrow> post (\<lambda>token. behind (insert (start token) T)) (Some (next_tok_logged p))"
  unfolding next_tok_logged_def by (rule expect_token_logged_post)

lemma next_tok_bind:
  assumes "behind T p"
    and "\<And>token p'. behind (insert (start token) T) p'
          \<Longrightarrow> post (\<lambda>a. behind (insert (start token) T)) (k token p')"
  shows "post (\<lambda>a. behind T) (and_then (Some (next_tok_logged p)) k)"
  using next_tok_logged_post [OF assms(1)] assms(2) by (rule token_bind)

lemma unit_bind:
  assumes "post (\<lambda>u. behind T) r"
    and "\<And>u p'. behind T p' \<Longrightarrow> post (\<lambda>a. behind T) (k u p')"
  shows "post (\<lambda>a. behind T) (and_then r k)"
  using assms by (rule post_and_then)

lemma skip_structure_loop_logged_post:
  "behind T p \<Longrightarrow> post (\<lambda>u. behind T) (skip_structure_loop_logged n struct_stack p)"
proof (induction n arbitrary: struct_stack T p)
  case 0
  show ?case by simp
next
  case (Suc n)
  show ?case
  proof (cases "struct_stack = []")
    case True
    with Suc.prems show ?thesis by simp
  next
    case False
    have "post (\<lambda>u. behind T)
        (and_then (Some (next_tok_logged p)) (\<lambda>token p.
          if kind token = START_OBJECT \<or> kind token = START_ARRAY \<or> kind token = START_UNITS
          then skip_structure_loop_logged n (struct_stack @ [kind token]) p
          else if kind token = END_OBJECT then
            (if last struct_stack \<noteq> START_OBJECT
             then Some (parser_error_logged (tline token) (tpos token) [Lit ''Mismatched nesting''] p)
             else skip_structure_loop_logged n (butlast struct_stack) p)
          else if kind token = END_ARRAY then
            (if last struct_stack \<noteq> START_ARRAY
             then Some (parser_error_logged (tline token) (tpos token) [Lit ''Mismatched nesting''] p)
             else skip_structure_loop_logged n (butlast struct_stack) p)
          else if kind token = END_UNITS then
            (if last struct_stack \<noteq> START_UNITS
             then Some (parser_error_logged (tline token) (tpos token) [Lit ''Mismatched nesting''] p)
             else skip_structure_loop_logged n (butlast struct_stack) p)
          else skip_structure_loop_logged n struct_stack p))"
      by (rule next_tok_bind [OF Suc.prems])
        (simp add: Suc.IH post_error behind_log_agrees)
    with False show ?thesis by simp
  qed
qed

lemma skip_structure_logged_post:
  "behind T p \<Longrightarrow> post (\<lambda>u. behind T) (skip_structure_logged n open_token p)"
  unfolding skip_structure_logged_def by (rule skip_structure_loop_logged_post)

lemma skip_nested_logged_post:
  "behind T p \<Longrightarrow> start token \<in> T \<Longrightarrow> post (\<lambda>u. behind T) (skip_nested_logged n token msg p)"
  unfolding skip_nested_logged_def
  by (rule skip_structure_logged_post) (rule behind_warn_token)

lemma skip_value_logged_post:
  assumes "behind T p"
  shows "post (\<lambda>u. behind T) (skip_value_logged n p)"
  unfolding skip_value_logged_def
proof (rule next_tok_bind [OF assms], rule token_bind, goal_cases)
  case (1 token p')
  show ?case
  proof (cases "kind token = START_UNITS")
    case True
    have "post (\<lambda>token'. behind (insert (start token') (insert (start token) T)))
        (and_then (skip_structure_logged n START_UNITS p') (\<lambda>u p. Some (next_tok_logged p)))"
      by (rule post_and_then [OF skip_structure_logged_post [OF 1]]) (rule next_tok_logged_post)
    with True show ?thesis by simp
  next
    case False
    with 1 show ?thesis by simp
  qed
next
  case (2 token p' token' p'')
  then show ?case
    by (simp add: post_error behind_log_agrees skip_structure_logged_post behind_warn_token
        behind_push_back)
qed

lemmas post_rules =
  post_error behind_log_agrees behind_warn_token behind_push_back behind_emit
  skip_structure_logged_post skip_nested_logged_post skip_value_logged_post

lemma check_units_loop_logged_post:
  "behind T p \<Longrightarrow>
     post (\<lambda>u. behind T) (check_units_loop_logged n expected_units has_unit p)"
proof (induction n arbitrary: has_unit T p)
  case 0
  show ?case by simp
next
  case (Suc n)
  show ?case
    unfolding check_units_loop_logged.simps
    by (rule next_tok_bind [OF Suc.prems])
      (simp add: Suc.IH post_rules unit_bind split: option.split)
qed

lemma check_spherical_units_loop_logged_post:
  "behind T p \<Longrightarrow>
     post (\<lambda>u. behind T)
       (check_spherical_units_loop_logged n has_angle_unit has_length_unit p)"
proof (induction n arbitrary: has_angle_unit has_length_unit T p)
  case 0
  show ?case by simp
next
  case (Suc n)
  show ?case
    unfolding check_spherical_units_loop_logged.simps
    by (rule next_tok_bind [OF Suc.prems])
      (simp add: Suc.IH post_rules unit_bind split: option.split)
qed

lemma check_units_logged_post:
  "behind T p \<Longrightarrow> post (\<lambda>u. behind T) (check_units_logged n expected_units p)"
  by (simp add: check_units_logged_def check_spherical_units_logged_def
      check_units_loop_logged_post check_spherical_units_loop_logged_post)

lemma behind_validate_string:
  "hooks_report_at_token h \<Longrightarrow> behind T p \<Longrightarrow> start token \<in> T
     \<Longrightarrow> behind T (emit_logged (validate_string h object_name property_name token) p)"
  by (rule behind_emit) (auto simp: hooks_report_at_token_def)

lemma behind_validate_number:
  "hooks_report_at_token h \<Longrightarrow> behind T p \<Longrightarrow> start token \<in> T
     \<Longrightarrow> behind T (emit_logged (validate_number h object_name property_name token) p)"
  by (rule behind_emit) (auto simp: hooks_report_at_token_def)

lemma behind_check_properties:
  "hooks_report_at_token h \<Longrightarrow> behind T p \<Longrightarrow> start open_token \<in> T
     \<Longrightarrow> behind T
           (emit_logged (check_properties h object_name open_token parsed_properties disposition) p)"
  by (rule behind_emit) (auto simp: hooks_report_at_token_def)

lemma check_element_count_logged_post:
  "behind T p \<Longrightarrow> start token \<in> T
     \<Longrightarrow> post (\<lambda>u. behind T) (Some (check_element_count_logged element_count num_elements token p))"
  by (simp add: check_element_count_logged_def post_rules split: element_count.split)

lemma check_vector_loop_logged_post:
  assumes "hooks_report_at_token h"
  shows "behind T p \<Longrightarrow>
     post (\<lambda>u. behind T) (check_vector_loop_logged n h property_name element_count num_elements p)"
proof (induction n arbitrary: num_elements T p)
  case 0
  show ?case by simp
next
  case (Suc n)
  show ?case
    unfolding check_vector_loop_logged.simps
    by (rule next_tok_bind [OF Suc.prems])
      (simp add: Suc.IH post_rules unit_bind behind_validate_number [OF assms]
        check_element_count_logged_post)
qed

lemma check_vector_logged_post:
  "hooks_report_at_token h \<Longrightarrow> behind T p \<Longrightarrow>
     post (\<lambda>u. behind T) (check_vector_logged n h property_name element_count p)"
  unfolding check_vector_logged_def by (rule check_vector_loop_logged_post)

lemma check_string_list_logged_post:
  assumes "hooks_report_at_token h"
  shows "behind T p \<Longrightarrow> post (\<lambda>u. behind T) (check_string_list_logged n h property_name p)"
proof (induction n arbitrary: T p)
  case 0
  show ?case by simp
next
  case (Suc n)
  show ?case
    unfolding check_string_list_logged.simps
    by (rule next_tok_bind [OF Suc.prems])
      (simp add: Suc.IH post_rules unit_bind behind_validate_string [OF assms])
qed

lemma check_value_with_logged_post:
  assumes h: "hooks_report_at_token h"
    and b: "behind T p"
    and nested_object: "\<And>name token properties T p. behind T p \<Longrightarrow> start token \<in> T
          \<Longrightarrow> post (\<lambda>u. behind T) (nested_object name token properties p)"
    and nested_list: "\<And>name properties T p. behind T p
          \<Longrightarrow> post (\<lambda>u. behind T) (nested_list name properties p)"
  shows "post (\<lambda>u. behind T)
     (check_value_with_logged nested_object nested_list n h object_name property_name
        data_type units_type p)"
  unfolding check_value_with_logged_def
proof (rule next_tok_bind [OF b], rule token_bind, goal_cases)
  case (1 token p')
  show ?case
  proof (cases "kind token = START_UNITS")
    case True
    have "post (\<lambda>u. behind (insert (start token) T))
        (case units_type of
           None \<Rightarrow>
             skip_structure_logged n (kind token)
               (parser_warn_logged (tline token) (tpos token)
                  [Lit ''Units ignored for '', Str property_name] p')
         | Some u \<Rightarrow> check_units_logged n u p')"
      using 1 by (simp add: post_rules check_units_logged_post split: option.split)
    then have "post (\<lambda>token'. behind (insert (start token') (insert (start token) T)))
        (and_then
           (case units_type of
              None \<Rightarrow>
                skip_structure_logged n (kind token)
                  (parser_warn_logged (tline token) (tpos token)
                     [Lit ''Units ignored for '', Str property_name] p')
            | Some u \<Rightarrow> check_units_logged n u p')
           (\<lambda>u p. Some (next_tok_logged p)))"
      by (rule post_and_then) (rule next_tok_logged_post)
    with True show ?thesis by simp
  next
    case False
    with 1 show ?thesis by simp
  qed
next
  case (2 token p' token' p'')
  then show ?case
    by (simp add: post_rules unit_bind matched_logged_def mismatch_logged_def
        behind_validate_string [OF h] behind_validate_number [OF h]
        check_vector_logged_post [OF h] check_string_list_logged_post [OF h]
        nested_object nested_list
        split: DataType.split option.split)
qed

lemma engine_logged_post:
  assumes h: "hooks_report_at_token h"
  shows
    "(\<forall>T p object_name property_name data_type units_type.
        behind T p \<longrightarrow>
        post (\<lambda>u. behind T)
          (check_value_logged n h object_name property_name data_type units_type p)) \<and>
     (\<forall>T p object_name open_token properties disposition parsed_properties.
        behind T p \<longrightarrow> start open_token \<in> T \<longrightarrow>
        post (\<lambda>u. behind T)
          (check_object_loop_logged n h object_name open_token properties disposition
             parsed_properties p)) \<and>
     (\<forall>T p object_name properties.
        behind T p \<longrightarrow>
        post (\<lambda>u. behind T) (check_object_list_logged n h object_name properties p))"
proof (induction n)
  case 0
  show ?case by simp
next
  case (Suc n)
  then have v: "\<And>T p object_name property_name data_type units_type.
        behind T p \<Longrightarrow>
        post (\<lambda>u. behind T)
          (check_value_logged n h object_name property_name data_type units_type p)"
    and ol: "\<And>T p object_name open_token properties disposition parsed_properties.
        behind T p \<Longrightarrow> start open_token \<in> T \<Longrightarrow>
        post (\<lambda>u. behind T)
          (check_object_loop_logged n h object_name open_token properties disposition
             parsed_properties p)"
    and ll: "\<And>T p object_name properties.
        behind T p \<Longrightarrow>
        post (\<lambda>u. behind T) (check_object_list_logged n h object_name properties p)"
    by blast+
  have 1: "post (\<lambda>u. behind T)
      (check_value_logged (Suc n) h object_name property_name data_type units_type p)"
    if "behind T p" for T p object_name property_name data_type units_type
    unfolding check_value_logged.simps
    by (rule check_value_with_logged_post [OF h that]) (simp_all add: ol ll)
  have 2: "post (\<lambda>u. behind T)
      (check_object_loop_logged (Suc n) h object_name open_token properties disposition
         parsed_properties p)"
    if "behind T p" and "start open_token \<in> T"
    for T p object_name open_token properties disposition parsed_properties
    unfolding check_object_loop_logged.simps
    by (rule next_tok_bind [OF that(1)])
      (simp add: that(2) v ol post_rules unit_bind behind_check_properties [OF h]
        split: option.split prod.split)
  have 3: "post (\<lambda>u. behind T) (check_object_list_logged (Suc n) h object_name properties p)"
    if "behind T p" for T p object_name properties
    unfolding check_object_list_logged.simps
    by (rule next_tok_bind [OF that]) (simp add: ol ll post_rules unit_bind)
  from 1 2 3 show ?case by blast
qed

lemma check_object_logged_post:
  "hooks_report_at_token h \<Longrightarrow> behind T p \<Longrightarrow> start open_token \<in> T \<Longrightarrow>
     post (\<lambda>u. behind T)
       (check_object_logged n h object_name open_token properties disposition p)"
  unfolding check_object_logged_def using engine_logged_post [of h n] by blast

lemma token_of_bind:
  assumes "post (\<lambda>a. behind (insert (start (f a)) T)) r"
    and "\<And>a p'. behind (insert (start (f a)) T) p'
          \<Longrightarrow> post (\<lambda>b. behind (insert (start (f a)) T)) (k a p')"
  shows "post (\<lambda>b. behind T) (and_then r k)"
proof -
  have "post (\<lambda>b p'. \<exists>a. behind (insert (start (f a)) T) p') (and_then r k)"
    by (rule post_and_then [OF assms(1)]) (rule post_mono [OF assms(2)], assumption, blast)
  then show ?thesis
    by (rule post_mono) (auto intro: behind_subset)
qed

lemma expect_token_bind:
  assumes "behind T p"
    and "\<And>token p'. behind (insert (start token) T) p'
          \<Longrightarrow> post (\<lambda>a. behind (insert (start token) T)) (k token p')"
  shows "post (\<lambda>a. behind T) (and_then (Some (expect_token_logged kind' message' is_error p)) k)"
  using expect_token_logged_post [OF assms(1)] assms(2) by (rule token_bind)

lemma next_token_bind:
  assumes "behind T p"
    and "\<And>p'. behind T p' \<Longrightarrow> post (\<lambda>a. behind T) (k None p')"
    and "\<And>token p'. behind (insert (start token) T) p'
          \<Longrightarrow> post (\<lambda>a. behind (insert (start token) T)) (k (Some token) p')"
  shows "post (\<lambda>a. behind T)
           (and_then (Some (next_token_logged kind' message' is_error allow_eof p)) k)"
proof -
  have "post (\<lambda>b p'. \<exists>T'. T \<subseteq> T' \<and> behind T' p')
      (and_then (Some (next_token_logged kind' message' is_error allow_eof p)) k)"
  proof (rule post_and_then [OF next_token_logged_post [OF assms(1)]], goal_cases)
    case (1 a p')
    show ?case
    proof (cases a)
      case None
      with 1 have "behind T p'" by simp
      then have "post (\<lambda>a. behind T) (k None p')" by (rule assms(2))
      with None show ?thesis by (auto elim!: post_mono)
    next
      case (Some token)
      with 1 have "behind (insert (start token) T) p'" by simp
      then have "post (\<lambda>a. behind (insert (start token) T)) (k (Some token) p')"
        by (rule assms(3))
      with Some show ?thesis by (auto elim!: post_mono)
    qed
  qed
  then show ?thesis
    by (rule post_mono) (auto intro: behind_subset)
qed

lemma disposition_keyword_logged_post:
  assumes "behind T p" and "start token \<in> T"
  shows "post (\<lambda>a. behind (insert (start (snd a)) T)) (disposition_keyword_logged token p)"
proof -
  have "post (\<lambda>a. behind (insert (start (snd a)) T))
      (and_then (Some (next_tok_logged p)) (\<lambda>token p. Some (Ok (d, token) p)))" for d :: Disposition
    by (rule post_and_then [OF next_tok_logged_post [OF assms(1)]]) simp
  moreover have "insert (start token) T = T" using assms(2) by auto
  ultimately show ?thesis using assms(1) by (simp add: disposition_keyword_logged_def)
qed

lemma DSCParser_parse_logged_post:
  assumes h: "hooks_report_at_token h"
  shows "behind T p \<Longrightarrow> post (\<lambda>u. behind T) (DSCParser_parse_logged n h dso p)"
proof (induction n arbitrary: T p)
  case 0
  show ?case by simp
next
  case (Suc n)
  show ?case
    unfolding DSCParser_parse_logged.simps
  proof (rule next_token_bind [OF Suc.prems], goal_cases)
    case (1 p')
    then show ?case by simp
  next
    case (2 token p')
    let ?T = "insert (start token) T"
    have "post (\<lambda>a. behind ?T)
        (and_then (Some (expect_token_logged (Some STRING) [Lit ''Expected DSO name''] False p''))
           (\<lambda>name_token p.
              if kind name_token \<noteq> STRING
              then Some (parser_error_logged (tline name_token) (tpos name_token)
                           [Lit ''Expected DSO name''] p)
              else
                and_then (Some (expect_token_logged (Some START_OBJECT) [PyNone] True p))
                  (\<lambda>open_token p.
                     and_then
                       (case dso (str_value token) of
                          None \<Rightarrow> skip_structure_logged n (kind open_token) p
                        | Some dso_properties \<Rightarrow>
                            check_object_logged n h (str_value token) open_token
                              dso_properties ADD p)
                       (\<lambda>u p. DSCParser_parse_logged n h dso p))))"
      if "behind ?T p''" for p''
    proof (rule expect_token_bind [OF that], goal_cases)
      case (1 name_token p1)
      show ?case
      proof (cases "kind name_token \<noteq> STRING")
        case True
        with 1 show ?thesis by (simp add: post_rules)
      next
        case False
        have "post (\<lambda>a. behind (insert (start name_token) ?T))
            (and_then (Some (expect_token_logged (Some START_OBJECT) [PyNone] True p1))
              (\<lambda>open_token p.
                 and_then
                   (case dso (str_value token) of
                      None \<Rightarrow> skip_structure_logged n (kind open_token) p
                    | Some dso_properties \<Rightarrow>
                        check_object_logged n h (str_value token) open_token
                          dso_properties ADD p)
                   (\<lambda>u p. DSCParser_parse_logged n h dso p)))"
          by (rule expect_token_bind [OF 1])
            (simp add: post_rules unit_bind Suc.IH check_object_logged_post [OF h]
              split: option.split)
        with False show ?thesis by simp
      qed
    qed
    with 2 show ?case by (simp add: post_rules)
  qed
qed

lemma SSCParser_parse_logged_post:
  assumes h: "hooks_report_at_token h"
  shows "behind T p \<Longrightarrow> post (\<lambda>u. behind T) (SSCParser_parse_logged n h obj body p)"
proof (induction n arbitrary: T p)
  case 0
  show ?case by simp
next
  case (Suc n)
  show ?case
    unfolding SSCParser_parse_logged.simps
  proof (rule next_token_bind [OF Suc.prems], goal_cases)
    case (1 p')
    then show ?case by simp
  next
    case (2 token p')
    show ?case
      apply (simp only: option.case)
      apply (rule token_of_bind [where f = snd])
       apply (rule disposition_keyword_logged_post [OF 2])
       apply simp
      apply (simp only: split_paired_all prod.case snd_conv)
      apply (rule token_of_bind [where f = "\<lambda>a. snd (snd a)"])
      subgoal for disposition token1 p1
        by (auto simp: post_rules split: option.split
            intro!: post_and_then [OF next_tok_logged_post])
      apply (simp only: split_paired_all prod.case snd_conv)
      apply (rule token_bind)
      subgoal by (simp add: post_rules next_tok_logged_post)
      apply (rule token_bind)
      subgoal by (simp add: post_rules next_tok_logged_post)
      subgoal by (simp add: post_rules unit_bind Suc.IH check_object_logged_post [OF h])
      done
  qed
qed

lemma STCParser_parse_logged_post:
  assumes h: "hooks_report_at_token h"
  shows "behind T p \<Longrightarrow> post (\<lambda>u. behind T) (STCParser_parse_logged n h obj p)"
proof (induction n arbitrary: T p)
  case 0
  show ?case by simp
next
  case (Suc n)
  show ?case
    unfolding STCParser_parse_logged.simps
  proof (rule next_token_bind [OF Suc.prems], goal_cases)
    case (1 p')
    then show ?case by simp
  next
    case (2 token p')
    show ?case
      apply (simp only: option.case)
      apply (rule token_of_bind [where f = snd])
       apply (rule disposition_keyword_logged_post [OF 2])
       apply simp
      apply (simp only: split_paired_all prod.case snd_conv)
      apply (rule token_of_bind [where f = snd])
      subgoal for disposition token1 p1
        by (auto simp: post_rules intro!: post_and_then [OF next_tok_logged_post])
      apply (simp only: split_paired_all prod.case snd_conv)
      apply (rule token_of_bind [where f = snd])
      subgoal for disposition token1 p1 object_type token2 p2
        by (auto simp: post_rules split: TokenValue.split
            intro!: post_and_then [OF next_tok_logged_post])
      apply (simp only: split_paired_all prod.case snd_conv)
      apply (rule token_of_bind [where f = snd])
      subgoal
        by (auto simp: post_rules intro!: post_and_then [OF next_tok_logged_post])
      apply (simp only: split_paired_all prod.case snd_conv)
      subgoal by (simp add: post_rules unit_bind Suc.IH check_object_logged_post [OF h])
      done
  qed
qed

lemma parse_logged_post:
  "hooks_report_at_token h \<Longrightarrow> behind T p \<Longrightarrow>
     post (\<lambda>u. behind T) (parse_logged n parser_type tb h p)"
  by (simp add: parse_logged_def DSCParser_parse_logged_post SSCParser_parse_logged_post
      STCParser_parse_logged_post split: parser_type.split)

lemma parse_logged_log_agrees:
  assumes "hooks_report_at_token h"
    and "parse_logged n parser_type tb h (LoggedParser_init file) = Some r"
  shows "log_agrees (state_of r)"
  using parse_logged_post [OF assms(1) log_agrees_init [of "file"], where n = n and parser_type = parser_type and tb = tb]
    assms(2)
  by (cases r) (simp_all add: behind_log_agrees)

text \<open>When the history agrees with the two lists, the \<open>messages\<close> property returns the
  history, sorted stably.\<close>

lemma messages_sort_key:
  assumes "log_agrees p"
  shows "TokenFileParser_messages (parser p) = sort_key coordinates (emitted p)"
proof -
  let ?xs = "messages (tokenizer (parser p)) @ p_messages (parser p)"
  have c: "(\<lambda>m. (msg_line m, msg_pos m)) = coordinates" by (simp add: coordinates_def fun_eq_iff)
  have "sort_key coordinates (emitted p) = sort_key coordinates ?xs"
  proof (rule properties_for_sort_key)
    show "mset (sort_key coordinates ?xs) = mset (emitted p)"
      using assms by (simp add: log_agrees_def)
    show "sorted (map coordinates (sort_key coordinates ?xs))" by simp
    fix k
    have "filter (\<lambda>x. coordinates x = coordinates k) (sort_key coordinates ?xs) =
        filter (\<lambda>x. coordinates x = coordinates k) ?xs"
      by (rule sort_key_stable)
    also have "\<dots> = filter (\<lambda>x. coordinates x = coordinates k) (emitted p)"
    proof -
      from assms have "filter (\<lambda>m. coordinates m = coordinates k) (emitted p) =
          filter (\<lambda>m. coordinates m = coordinates k) (messages (tokenizer (parser p))) @
          filter (\<lambda>m. coordinates m = coordinates k) (p_messages (parser p))"
        unfolding log_agrees_def by blast
      then show ?thesis by simp
    qed
    finally show "filter (\<lambda>x. coordinates k = coordinates x) (sort_key coordinates ?xs) =
        filter (\<lambda>x. coordinates k = coordinates x) (emitted p)"
      by (simp add: eq_commute)
  qed
  then show ?thesis by (simp add: TokenFileParser_messages_def c)
qed

text \<open>What the lexer emits in a call lies strictly after every diagnostic that the engine has
  emitted before the call.\<close>

lemma lexer_emits_after_engine:
  assumes "behind T p"
  shows "\<forall>l\<in>set (drop (length (messages (tokenizer (parser p))))
                  (messages (state_of (Tokenizer_next (tokenizer (parser p)))))).
         \<forall>e\<in>set (p_messages (parser p)). coordinates e < coordinates l"
proof -
  let ?tz = "tokenizer (parser p)"
  from Tokenizer_next_moves(1) [of ?tz] obtain new where
    m: "messages (state_of (Tokenizer_next ?tz)) = messages ?tz @ new"
    and n: "\<forall>m\<in>set new. place ?tz \<le> coordinates m"
    by (auto simp: lexer_moves_def)
  from assms have "\<forall>e\<in>set (p_messages (parser p)). coordinates e < place ?tz"
    by (simp add: behind_def)
  with n show ?thesis unfolding m by (auto intro: less_le_trans)
qed

lemma base_hooks_report_at_token:
  "hooks_report_at_token (base_hooks is_mesh_file is_texture_file)"
  by (auto simp: hooks_report_at_token_def base_hooks_def base_validate_string_def
      base_validate_number_def warning_def coordinates_def start_def)

lemma DSCParser_hooks_report_at_token:
  "hooks_report_at_token (DSCParser_hooks is_mesh_file is_texture_file)"
  by (auto simp: hooks_report_at_token_def DSCParser_hooks_def DSCParser_validate_string_def
      DSCParser_check_properties_def base_validate_string_def base_validate_number_def
      warning_def coordinates_def start_def)

subsection \<open>The engine without the history\<close>

text \<open>
  Forgetting the history turns the methods written for a run with a history into the
  methods of the engine as defined first: the history changes nothing in what they do.
\<close>

lemma erase_simps [simp]:
  "erase None = None"
  "erase (Some (Ok a p)) = Some (Ok a (parser p))"
  "erase (Some (Raise e p)) = Some (Raise e (parser p))"
  by (simp_all add: erase_def)

lemma emit_logged_erase [simp]: "parser (emit_logged ms p) = emit ms (parser p)"
  by (simp add: emit_logged_def)

lemma parser_warn_logged_erase [simp]:
  "parser (parser_warn_logged l c msg p) = parser_warn l c msg (parser p)"
  by (simp add: parser_warn_logged_def parser_warn_def)

lemma parser_error_logged_erase [simp]:
  "erase (Some (parser_error_logged l c msg p)) = Some (parser_error l c msg (parser p))"
  by (simp add: parser_error_logged_def parser_error_def)

lemma push_back_logged_erase [simp]:
  "parser (push_back_logged token p) = push_back token (parser p)"
  by (simp add: push_back_logged_def)

lemma lexed_erase [simp]: "parser (lexed tz' p) = (parser p)\<lparr>tokenizer := tz'\<rparr>"
  by (simp add: lexed_def)

lemma next_token_logged_erase [simp]:
  "erase (Some (next_token_logged kind' message' is_error allow_eof p)) =
     Some (next_token kind' message' is_error allow_eof (parser p))"
  by (simp add: next_token_logged_def next_token_def split: option.split res.split)

lemma next_tok_logged_erase [simp]:
  "erase (Some (next_tok_logged p)) = Some (next_tok (parser p))"
proof (cases "next_token_logged None [PyNone] False False p")
  case (Ok a p')
  with next_token_logged_erase [of None "[PyNone]" False False p]
  have "next_token None [PyNone] False False (parser p) = Ok a (parser p')" by simp
  with Ok show ?thesis
    by (cases a) (simp_all add: next_tok_logged_def expect_token_logged_def next_tok_def)
next
  case (Raise e p')
  with next_token_logged_erase [of None "[PyNone]" False False p]
  have "next_token None [PyNone] False False (parser p) = Raise e (parser p')" by simp
  with Raise show ?thesis
    by (simp add: next_tok_logged_def expect_token_logged_def next_tok_def)
qed

lemma erase_and_then:
  assumes "erase r = r'" and "\<And>a p. erase (k a p) = k' a (parser p)"
  shows "erase (and_then r k) = and_then r' k'"
proof (cases r)
  case None
  with assms(1) show ?thesis by (auto simp: and_then_def)
next
  case (Some x)
  with assms show ?thesis by (cases x) (auto simp: and_then_def)
qed

lemma skip_structure_loop_logged_erase [simp]:
  "erase (skip_structure_loop_logged n struct_stack p) =
     skip_structure_loop n struct_stack (parser p)"
proof (induction n arbitrary: struct_stack p)
  case 0
  show ?case by simp
next
  case (Suc n)
  show ?case
    unfolding skip_structure_loop_logged.simps skip_structure_loop.simps
    by (auto intro!: erase_and_then simp: Suc.IH)
qed

lemma skip_structure_logged_erase [simp]:
  "erase (skip_structure_logged n open_token p) = skip_structure n open_token (parser p)"
  by (simp add: skip_structure_logged_def skip_structure_def)

lemma skip_nested_logged_erase [simp]:
  "erase (skip_nested_logged n token msg p) = skip_nested n token msg (parser p)"
  by (simp add: skip_nested_logged_def skip_nested_def)

lemma skip_value_logged_erase [simp]:
  "erase (skip_value_logged n p) = skip_value n (parser p)"
  unfolding skip_value_logged_def skip_value_def
  by (auto intro!: erase_and_then)

lemma check_spherical_units_loop_logged_erase [simp]:
  "erase (check_spherical_units_loop_logged n has_angle_unit has_length_unit p) =
     check_spherical_units_loop n has_angle_unit has_length_unit (parser p)"
proof (induction n arbitrary: has_angle_unit has_length_unit p)
  case 0
  show ?case by simp
next
  case (Suc n)
  show ?case
    unfolding check_spherical_units_loop_logged.simps check_spherical_units_loop.simps
    by (auto intro!: erase_and_then simp: Suc.IH split: option.split)
qed

lemma check_units_loop_logged_erase [simp]:
  "erase (check_units_loop_logged n expected_units has_unit p) =
     check_units_loop n expected_units has_unit (parser p)"
proof (induction n arbitrary: has_unit p)
  case 0
  show ?case by simp
next
  case (Suc n)
  show ?case
    unfolding check_units_loop_logged.simps check_units_loop.simps
    by (auto intro!: erase_and_then simp: Suc.IH split: option.split)
qed

lemma check_units_logged_erase [simp]:
  "erase (check_units_logged n expected_units p) = check_units n expected_units (parser p)"
  by (simp add: check_units_logged_def check_units_def check_spherical_units_logged_def
      check_spherical_units_def)

lemma check_element_count_logged_erase [simp]:
  "erase (Some (check_element_count_logged element_count num_elements token p)) =
     Some (check_element_count element_count num_elements token (parser p))"
  by (simp add: check_element_count_logged_def check_element_count_def
      split: element_count.split)

lemma check_vector_loop_logged_erase [simp]:
  "erase (check_vector_loop_logged n h property_name element_count num_elements p) =
     check_vector_loop n h property_name element_count num_elements (parser p)"
proof (induction n arbitrary: num_elements p)
  case 0
  show ?case by simp
next
  case (Suc n)
  show ?case
    unfolding check_vector_loop_logged.simps check_vector_loop.simps
    by (auto intro!: erase_and_then simp: Suc.IH)
qed

lemma check_vector_logged_erase [simp]:
  "erase (check_vector_logged n h property_name element_count p) =
     check_vector n h property_name element_count (parser p)"
  by (simp add: check_vector_logged_def check_vector_def)

lemma check_string_list_logged_erase [simp]:
  "erase (check_string_list_logged n h property_name p) =
     check_string_list n h property_name (parser p)"
proof (induction n arbitrary: p)
  case 0
  show ?case by simp
next
  case (Suc n)
  show ?case
    unfolding check_string_list_logged.simps check_string_list.simps
    by (auto intro!: erase_and_then simp: Suc.IH)
qed

lemma check_value_with_logged_erase:
  assumes "\<And>name token properties p.
      erase (nested_object_logged name token properties p) =
        nested_object name token properties (parser p)"
    and "\<And>name properties p.
      erase (nested_list_logged name properties p) = nested_list name properties (parser p)"
  shows "erase (check_value_with_logged nested_object_logged nested_list_logged n h object_name
           property_name data_type units_type p) =
         check_value_with nested_object nested_list n h object_name property_name data_type
           units_type (parser p)"
  unfolding check_value_with_logged_def check_value_with_def
  by (auto intro!: erase_and_then
      simp: assms matched_logged_def matched_def mismatch_logged_def mismatch_def
      split: option.split DataType.split)

lemma engine_logged_erase:
  "(\<forall>p object_name property_name data_type units_type.
      erase (check_value_logged n h object_name property_name data_type units_type p) =
        check_value n h object_name property_name data_type units_type (parser p)) \<and>
   (\<forall>p object_name open_token properties disposition parsed_properties.
      erase (check_object_loop_logged n h object_name open_token properties disposition
               parsed_properties p) =
        check_object_loop n h object_name open_token properties disposition
          parsed_properties (parser p)) \<and>
   (\<forall>p object_name properties.
      erase (check_object_list_logged n h object_name properties p) =
        check_object_list n h object_name properties (parser p))"
proof (induction n)
  case 0
  show ?case by simp
next
  case (Suc n)
  then have v: "\<And>p object_name property_name data_type units_type.
      erase (check_value_logged n h object_name property_name data_type units_type p) =
        check_value n h object_name property_name data_type units_type (parser p)"
    and ol: "\<And>p object_name open_token properties disposition parsed_properties.
      erase (check_object_loop_logged n h object_name open_token properties disposition
               parsed_properties p) =
        check_object_loop n h object_name open_token properties disposition
          parsed_properties (parser p)"
    and ll: "\<And>p object_name properties.
      erase (check_object_list_logged n h object_name properties p) =
        check_object_list n h object_name properties (parser p)"
    by blast+
  have 1: "erase (check_value_logged (Suc n) h object_name property_name data_type units_type p) =
        check_value (Suc n) h object_name property_name data_type units_type (parser p)"
    for p object_name property_name data_type units_type
    unfolding check_value_logged.simps check_value.simps
    by (rule check_value_with_logged_erase) (simp_all add: ol ll)
  have 2: "erase (check_object_loop_logged (Suc n) h object_name open_token properties
               disposition parsed_properties p) =
        check_object_loop (Suc n) h object_name open_token properties disposition
          parsed_properties (parser p)"
    for p object_name open_token properties disposition parsed_properties
    unfolding check_object_loop_logged.simps check_object_loop.simps
    by (auto intro!: erase_and_then simp: v ol split: option.split)
  have 3: "erase (check_object_list_logged (Suc n) h object_name properties p) =
        check_object_list (Suc n) h object_name properties (parser p)"
    for p object_name properties
    unfolding check_object_list_logged.simps check_object_list.simps
    by (auto intro!: erase_and_then simp: ol ll)
  from 1 2 3 show ?case by blast
qed

lemma check_object_logged_erase:
  "erase (check_object_logged n h object_name open_token properties disposition p) =
     check_object n h object_name open_token properties disposition (parser p)"
  unfolding check_object_logged_def check_object_def using engine_logged_erase [of n h] by blast

subsection \<open>The order of the reported diagnostics in a run\<close>

lemmas logged_eval =
  parse_logged_def DSCParser_parse_logged.simps check_object_logged_def
  check_object_loop_logged.simps next_tok_logged_def expect_token_logged_def
  next_token_logged_def lexed_def parser_warn_logged_def parser_error_logged_def
  emit_logged_def emit_def and_then_simps str_value_def LoggedParser_init_def
  TokenFileParser_init_def Tokenizer_init_def warning_def
  DSCParser_hooks_def DSCParser_check_properties_def DSCParser_validate_string_def
  DSO_PROPERTIES_def

text \<open>
  C5. Take a run of one of the three parsers on a file: \<open>parser.parse()\<close> on a new parser,
  with any property tables and with overriding methods that report at the token they are
  given, and let the run return or raise. Then the list that the \<open>messages\<close> property
  returns is the history of the run sorted stably by \<open>(line, pos)\<close>: it is sorted by
  \<open>(line, pos)\<close>, and for every \<open>(line, pos)\<close> its diagnostics with these coordinates are
  those of the history, in the order in which they were emitted, whether the lexer or the
  engine emitted them.
\<close>

theorem messages_in_emission_order:
  assumes "hooks_report_at_token h"
    and "parse_logged n parser_type tb h (LoggedParser_init file) = Some r"
  shows "TokenFileParser_messages (parser (state_of r)) =
           sort_key coordinates (emitted (state_of r)) \<and>
         sorted (map coordinates (TokenFileParser_messages (parser (state_of r)))) \<and>
         (\<forall>k. filter (\<lambda>m. coordinates m = k) (TokenFileParser_messages (parser (state_of r))) =
              filter (\<lambda>m. coordinates m = k) (emitted (state_of r)))"
proof -
  have "log_agrees (state_of r)" using assms by (rule parse_logged_log_agrees)
  then have "TokenFileParser_messages (parser (state_of r)) =
      sort_key coordinates (emitted (state_of r))"
    by (rule messages_sort_key)
  then show ?thesis by (simp add: sort_key_stable)
qed

text \<open>
  The DSC parser on the two lines \<open>Galaxy "M" { ~ }\<close> and \<open>Galaxy "x\<close>. The lexer warns of
  the \<open>~\<close> before the engine reports, at the earlier \<open>{\<close>, what the object lacks; at the end
  of the input the lexer's error and the engine's error have the same coordinates. The
  report is sorted, and the two errors keep the order of their emission.
\<close>

theorem messages_in_emission_order_witness:
  "parse_logged (Suc (Suc 0)) DSCParser
     \<lparr>dsc_DSO_PROPERTIES = DSO_PROPERTIES, ssc_OBJ_PROPERTIES = Map.empty,
      ssc_BODY_PROPERTIES = Map.empty, stc_OBJ_PROPERTIES = (\<lambda>object_type. Map.empty)\<rparr>
     (DSCParser_hooks any_file any_file)
     (LoggedParser_init
        [str ''Galaxy '' @ [QUOTE] @ str ''M'' @ [QUOTE] @ str '' { ~ }'' @ [NEWLINE],
         str ''Galaxy '' @ [QUOTE] @ str ''x'']) =
   Some (Raise ParsingError
     \<lparr>parser =
     \<lparr>tokenizer =
        \<lparr>f_lines = [], line = [], pos = 9, line_number = 2,
         messages =
           [\<lparr>msg_line = 1, msg_pos = 13, level = WARN,
              message = [Lit ''Unexpected character '', Repr (str ''~''), Lit '' in file'']\<rparr>,
            \<lparr>msg_line = 2, msg_pos = 9, level = ERROR,
              message = [Lit ''Unterminated string'']\<rparr>]\<rparr>,
      p_messages =
        [\<lparr>msg_line = 1, msg_pos = 11, level = WARN,
           message =
             [Lit ''No position information specified, specify either RA/Dec/Distance or Position'']\<rparr>,
         \<lparr>msg_line = 1, msg_pos = 11, level = WARN,
           message = [Lit ''Missing Radius property'']\<rparr>,
         \<lparr>msg_line = 1, msg_pos = 11, level = WARN,
           message = [Lit ''Missing AbsMag property'']\<rparr>,
         \<lparr>msg_line = 1, msg_pos = 11, level = WARN,
           message = [Lit ''Missing Type property'']\<rparr>,
         \<lparr>msg_line = 2, msg_pos = 9, level = ERROR, message = [Lit ''Unexpected EOF'']\<rparr>],
      saved_token = None\<rparr>,
      emitted =
        [\<lparr>msg_line = 1, msg_pos = 13, level = WARN,
           message = [Lit ''Unexpected character '', Repr (str ''~''), Lit '' in file'']\<rparr>,
         \<lparr>msg_line = 1, msg_pos = 11, level = WARN,
           message =
             [Lit ''No position information specified, specify either RA/Dec/Distance or Position'']\<rparr>,
         \<lparr>msg_line = 1, msg_pos = 11, level = WARN,
           message = [Lit ''Missing Radius property'']\<rparr>,
         \<lparr>msg_line = 1, msg_pos = 11, level = WARN,
           message = [Lit ''Missing AbsMag property'']\<rparr>,
         \<lparr>msg_line = 1, msg_pos = 11, level = WARN,
           message = [Lit ''Missing Type property'']\<rparr>,
         \<lparr>msg_line = 2, msg_pos = 9, level = ERROR, message = [Lit ''Unterminated string'']\<rparr>,
         \<lparr>msg_line = 2, msg_pos = 9, level = ERROR, message = [Lit ''Unexpected EOF'']\<rparr>]\<rparr>) \<and>
   TokenFileParser_messages
     \<lparr>tokenizer =
        \<lparr>f_lines = [], line = [], pos = 9, line_number = 2,
         messages =
           [\<lparr>msg_line = 1, msg_pos = 13, level = WARN,
              message = [Lit ''Unexpected character '', Repr (str ''~''), Lit '' in file'']\<rparr>,
            \<lparr>msg_line = 2, msg_pos = 9, level = ERROR,
              message = [Lit ''Unterminated string'']\<rparr>]\<rparr>,
      p_messages =
        [\<lparr>msg_line = 1, msg_pos = 11, level = WARN,
           message =
             [Lit ''No position information specified, specify either RA/Dec/Distance or Position'']\<rparr>,
         \<lparr>msg_line = 1, msg_pos = 11, level = WARN,
           message = [Lit ''Missing Radius property'']\<rparr>,
         \<lparr>msg_line = 1, msg_pos = 11, level = WARN,
           message = [Lit ''Missing AbsMag property'']\<rparr>,
         \<lparr>msg_line = 1, msg_pos = 11, level = WARN,
           message = [Lit ''Missing Type property'']\<rparr>,
         \<lparr>msg_line = 2, msg_pos = 9, level = ERROR, message = [Lit ''Unexpected EOF'']\<rparr>],
      saved_token = None\<rparr> =
     [\<lparr>msg_line = 1, msg_pos = 11, level = WARN,
        message =
          [Lit ''No position information specified, specify either RA/Dec/Distance or Position'']\<rparr>,
      \<lparr>msg_line = 1, msg_pos = 11, level = WARN, message = [Lit ''Missing Radius property'']\<rparr>,
      \<lparr>msg_line = 1, msg_pos = 11, level = WARN, message = [Lit ''Missing AbsMag property'']\<rparr>,
      \<lparr>msg_line = 1, msg_pos = 11, level = WARN, message = [Lit ''Missing Type property'']\<rparr>,
      \<lparr>msg_line = 1, msg_pos = 13, level = WARN,
        message = [Lit ''Unexpected character '', Repr (str ''~''), Lit '' in file'']\<rparr>,
      \<lparr>msg_line = 2, msg_pos = 9, level = ERROR, message = [Lit ''Unterminated string'']\<rparr>,
      \<lparr>msg_line = 2, msg_pos = 9, level = ERROR, message = [Lit ''Unexpected EOF'']\<rparr>]"
proof -
  have h: "hooks_report_at_token (DSCParser_hooks any_file any_file)"
    by (rule DSCParser_hooks_report_at_token)
  have run: "parse_logged (Suc (Suc 0)) DSCParser
     \<lparr>dsc_DSO_PROPERTIES = DSO_PROPERTIES, ssc_OBJ_PROPERTIES = Map.empty,
      ssc_BODY_PROPERTIES = Map.empty, stc_OBJ_PROPERTIES = (\<lambda>object_type. Map.empty)\<rparr>
     (DSCParser_hooks any_file any_file)
     (LoggedParser_init
        [str ''Galaxy '' @ [QUOTE] @ str ''M'' @ [QUOTE] @ str '' { ~ }'' @ [NEWLINE],
         str ''Galaxy '' @ [QUOTE] @ str ''x'']) =
   Some (Raise ParsingError
     \<lparr>parser =
     \<lparr>tokenizer =
        \<lparr>f_lines = [], line = [], pos = 9, line_number = 2,
         messages =
           [\<lparr>msg_line = 1, msg_pos = 13, level = WARN,
              message = [Lit ''Unexpected character '', Repr (str ''~''), Lit '' in file'']\<rparr>,
            \<lparr>msg_line = 2, msg_pos = 9, level = ERROR,
              message = [Lit ''Unterminated string'']\<rparr>]\<rparr>,
      p_messages =
        [\<lparr>msg_line = 1, msg_pos = 11, level = WARN,
           message =
             [Lit ''No position information specified, specify either RA/Dec/Distance or Position'']\<rparr>,
         \<lparr>msg_line = 1, msg_pos = 11, level = WARN,
           message = [Lit ''Missing Radius property'']\<rparr>,
         \<lparr>msg_line = 1, msg_pos = 11, level = WARN,
           message = [Lit ''Missing AbsMag property'']\<rparr>,
         \<lparr>msg_line = 1, msg_pos = 11, level = WARN,
           message = [Lit ''Missing Type property'']\<rparr>,
         \<lparr>msg_line = 2, msg_pos = 9, level = ERROR, message = [Lit ''Unexpected EOF'']\<rparr>],
      saved_token = None\<rparr>,
      emitted =
        [\<lparr>msg_line = 1, msg_pos = 13, level = WARN,
           message = [Lit ''Unexpected character '', Repr (str ''~''), Lit '' in file'']\<rparr>,
         \<lparr>msg_line = 1, msg_pos = 11, level = WARN,
           message =
             [Lit ''No position information specified, specify either RA/Dec/Distance or Position'']\<rparr>,
         \<lparr>msg_line = 1, msg_pos = 11, level = WARN,
           message = [Lit ''Missing Radius property'']\<rparr>,
         \<lparr>msg_line = 1, msg_pos = 11, level = WARN,
           message = [Lit ''Missing AbsMag property'']\<rparr>,
         \<lparr>msg_line = 1, msg_pos = 11, level = WARN,
           message = [Lit ''Missing Type property'']\<rparr>,
         \<lparr>msg_line = 2, msg_pos = 9, level = ERROR, message = [Lit ''Unterminated string'']\<rparr>,
         \<lparr>msg_line = 2, msg_pos = 9, level = ERROR, message = [Lit ''Unexpected EOF'']\<rparr>]\<rparr>)"
    by (simp add: logged_eval tokenizer_eval cong: engine_congs)
  show ?thesis
    using messages_in_emission_order [OF h run] run
    by (simp add: coordinates_def)
qed

end
